(* ===== verification/Prelude.thy ===== *)
theory Prelude
  imports Complex_Main "HOL-Library.AList" "HOL-Library.Multiset" "HOL-Library.Sublist"
begin

text \<open>
  What the components share: the Go data types that have no direct HOL counterpart, with the
  lemmas that let the component proofs go through by simplification.

  \<^item> Go's \<^verbatim>\<open>map[K]V\<close> is an association list with distinct keys (\<open>gomap\<close>). A \<^verbatim>\<open>range\<close> over a
    map visits the keys in an order the runtime picks; here that order is the order of the
    list, so a statement about every list with distinct keys is a statement about every
    iteration order. The interface of a Go map is the locale \<open>go_map\<close>; its interpretation
    \<open>gm\<close> on the association lists supplies the laws that the components use.
  \<^item> \<^verbatim>\<open>int64\<close> is \<open>int\<close> with the wrap-around of two's complement written out (\<open>wrap64\<close>).
  \<^item> \<^verbatim>\<open>float64\<close> is \<open>real\<close>: every float the service sees was decoded from JSON, which has no
    NaN and no infinity, and only \<^verbatim>\<open>==\<close> and \<^verbatim>\<open>>=\<close> are applied to it.
  \<^item> \<open>transition\<close> is the generic machine behind the interleaving models: reachable states,
    and the rule that an invariant of the steps holds in every reachable state.
\<close>

section \<open>Go maps\<close>

type_synonym ('k, 'v) gomap = "('k \<times> 'v) list"

named_theorems gomap_simps

definition m_empty :: "('k, 'v) gomap" where
  "m_empty = []"

definition m_get :: "('k, 'v) gomap \<Rightarrow> 'k \<Rightarrow> 'v option" where
  "m_get m k = map_of m k"

definition m_put :: "'k \<Rightarrow> 'v \<Rightarrow> ('k, 'v) gomap \<Rightarrow> ('k, 'v) gomap" where
  "m_put k v m = AList.update k v m"

definition m_del :: "'k \<Rightarrow> ('k, 'v) gomap \<Rightarrow> ('k, 'v) gomap" where
  "m_del k m = AList.delete k m"

definition m_keys :: "('k, 'v) gomap \<Rightarrow> 'k list" where
  "m_keys m = List.map fst m"

definition m_len :: "('k, 'v) gomap \<Rightarrow> nat" where
  "m_len m = length m"

definition m_ok :: "('k, 'v) gomap \<Rightarrow> bool" where
  "m_ok m = distinct (m_keys m)"

text \<open>The contract of a Go map: what a client may rely on after each operation.\<close>

locale go_map =
  fixes empty :: "'m"
    and get :: "'m \<Rightarrow> 'k \<Rightarrow> 'v option"
    and put :: "'k \<Rightarrow> 'v \<Rightarrow> 'm \<Rightarrow> 'm"
    and del :: "'k \<Rightarrow> 'm \<Rightarrow> 'm"
    and keys :: "'m \<Rightarrow> 'k list"
    and len :: "'m \<Rightarrow> nat"
    and ok :: "'m \<Rightarrow> bool"
  assumes ok_empty: "ok empty"
    and ok_put: "ok m \<Longrightarrow> ok (put k v m)"
    and ok_del: "ok m \<Longrightarrow> ok (del k m)"
    and get_empty: "get empty k = None"
    and get_put: "get (put k v m) k' = (if k' = k then Some v else get m k')"
    and get_del: "get (del k m) k' = (if k' = k then None else get m k')"
    and in_keys: "k \<in> set (keys m) \<longleftrightarrow> get m k \<noteq> None"
    and ok_keys: "ok m \<Longrightarrow> distinct (keys m)"
    and len_keys: "len m = length (keys m)"
begin

lemma set_keys_put: "set (keys (put k v m)) = insert k (set (keys m))"
  by (auto simp: in_keys get_put split: if_splits)

lemma set_keys_del: "set (keys (del k m)) = set (keys m) - {k}"
  by (auto simp: in_keys get_del split: if_splits)

lemma set_keys_empty: "set (keys empty) = {}"
  by (rule equals0I) (simp add: in_keys get_empty)

lemma len_card: "ok m \<Longrightarrow> len m = card (set (keys m))"
  by (simp add: len_keys distinct_card ok_keys)

lemma len_empty: "len empty = 0"
  using len_card[OF ok_empty] by (simp add: set_keys_empty)

lemma len_put_new: "ok m \<Longrightarrow> get m k = None \<Longrightarrow> len (put k v m) = Suc (len m)"
  using in_keys[of k m] by (simp add: len_card ok_put set_keys_put)

lemma len_put_le: "ok m \<Longrightarrow> len (put k v m) \<le> Suc (len m)"
  by (cases "k \<in> set (keys m)") (simp_all add: len_card ok_put set_keys_put insert_absorb)

lemma len_del_le: "ok m \<Longrightarrow> len (del k m) \<le> len m"
  by (simp add: len_card ok_del set_keys_del card_Diff1_le)

lemma len_zero: "ok m \<Longrightarrow> len m = 0 \<longleftrightarrow> (\<forall>k. get m k = None)"
proof -
  have "len m = 0 \<longleftrightarrow> (\<forall>k. k \<notin> set (keys m))"
    by (simp add: len_keys)
  then show ?thesis
    by (simp add: in_keys)
qed

lemma len_zero_get: "ok m \<Longrightarrow> len m = 0 \<Longrightarrow> get m k = None"
  by (simp add: len_zero)

end

interpretation gm: go_map m_empty m_get m_put m_del m_keys m_len m_ok
proof unfold_locales
  show "m_ok m_empty"
    by (simp add: m_ok_def m_empty_def m_keys_def)
next
  fix m :: "('a, 'b) gomap" and k v
  assume "m_ok m"
  then show "m_ok (m_put k v m)"
    by (simp add: m_ok_def m_keys_def m_put_def distinct_update)
next
  fix m :: "('a, 'b) gomap" and k
  assume "m_ok m"
  then show "m_ok (m_del k m)"
    by (simp add: m_ok_def m_keys_def m_del_def distinct_delete)
next
  fix k :: 'a
  show "m_get m_empty k = (None :: 'b option)"
    by (simp add: m_get_def m_empty_def)
next
  fix k k' :: 'a and v :: 'b and m
  show "m_get (m_put k v m) k' = (if k' = k then Some v else m_get m k')"
    by (simp add: m_get_def m_put_def update_conv')
next
  fix k k' :: 'a and m :: "('a, 'b) gomap"
  show "m_get (m_del k m) k' = (if k' = k then None else m_get m k')"
    by (simp add: m_get_def m_del_def delete_conv')
next
  fix k :: 'a and m :: "('a, 'b) gomap"
  show "(k \<in> set (m_keys m)) = (m_get m k \<noteq> None)"
    by (simp add: m_keys_def m_get_def map_of_eq_None_iff)
next
  fix m :: "('a, 'b) gomap"
  assume "m_ok m"
  then show "distinct (m_keys m)"
    by (simp add: m_ok_def)
next
  fix m :: "('a, 'b) gomap"
  show "m_len m = length (m_keys m)"
    by (simp add: m_len_def m_keys_def)
qed

declare gm.ok_empty [gomap_simps] gm.ok_put [gomap_simps] gm.ok_del [gomap_simps]
  gm.get_empty [gomap_simps] gm.get_put [gomap_simps] gm.get_del [gomap_simps]
  gm.set_keys_put [gomap_simps] gm.set_keys_del [gomap_simps] gm.set_keys_empty [gomap_simps]
  gm.len_empty [gomap_simps]

text \<open>Evaluation of closed maps.\<close>

lemmas gomap_eval = m_empty_def m_get_def m_put_def m_del_def m_keys_def m_len_def m_ok_def

lemma m_get_mem: "m_ok m \<Longrightarrow> (k, v) \<in> set m \<longleftrightarrow> m_get m k = Some v"
  by (simp add: m_get_def m_ok_def m_keys_def)

lemma m_ok_Cons: "m_ok ((k, v) # m) \<longleftrightarrow> m_get m k = None \<and> m_ok m"
  by (auto simp: m_ok_def m_keys_def m_get_def map_of_eq_None_iff)

lemma m_get_Cons: "m_get ((k, v) # m) k' = (if k' = k then Some v else m_get m k')"
  by (simp add: m_get_def)

lemma m_get_Nil: "m_get [] k = None"
  by (simp add: m_get_def)

lemma m_ok_Nil: "m_ok []"
  by (simp add: m_ok_def m_keys_def)

section \<open>Fixed-width integers\<close>

definition max_int64 :: int where
  "max_int64 = 9223372036854775807"

definition min_int64 :: int where
  "min_int64 = - 9223372036854775808"

definition int64 :: "int \<Rightarrow> bool" where
  "int64 x \<longleftrightarrow> min_int64 \<le> x \<and> x \<le> max_int64"

text \<open>Go's \<^verbatim>\<open>+\<close>, \<^verbatim>\<open>-\<close> and unary \<^verbatim>\<open>-\<close> on \<^verbatim>\<open>int64\<close> wrap around modulo \<open>2 ^ 64\<close>.\<close>

definition wrap64 :: "int \<Rightarrow> int" where
  "wrap64 x = (x + 9223372036854775808) mod 18446744073709551616 - 9223372036854775808"

lemmas int64_defs = int64_def min_int64_def max_int64_def

lemma wrap64_int64: "int64 (wrap64 x)"
proof -
  have "0 \<le> (x + 9223372036854775808) mod 18446744073709551616"
    "(x + 9223372036854775808) mod 18446744073709551616 < (18446744073709551616 :: int)"
    by simp_all
  then show ?thesis
    by (simp add: wrap64_def int64_defs)
qed

lemma wrap64_id: "int64 x \<Longrightarrow> wrap64 x = x"
  by (simp add: wrap64_def int64_defs)

section \<open>Machines\<close>

text \<open>
  A machine is a set of initial states and a step relation labelled by events. The
  components that several goroutines touch are machines whose events are the critical
  sections of the code.
\<close>

inductive reachable :: "('s \<Rightarrow> bool) \<Rightarrow> ('s \<Rightarrow> 'e \<Rightarrow> 's \<Rightarrow> bool) \<Rightarrow> 's \<Rightarrow> bool"
  for init step where
  reach_init: "init s \<Longrightarrow> reachable init step s"
| reach_step: "reachable init step s \<Longrightarrow> step s e t \<Longrightarrow> reachable init step t"

locale transition =
  fixes init :: "'s \<Rightarrow> bool"
    and step :: "'s \<Rightarrow> 'e \<Rightarrow> 's \<Rightarrow> bool"
    and inv :: "'s \<Rightarrow> bool"
  assumes inv_init: "init s \<Longrightarrow> inv s"
    and inv_step: "inv s \<Longrightarrow> step s e t \<Longrightarrow> inv t"
begin

lemma reachable_inv: "reachable init step s \<Longrightarrow> inv s"
  by (induction rule: reachable.induct) (auto intro: inv_init inv_step)

end

section \<open>Lists and options\<close>

lemma mset_eq_distinct_keys:
  assumes "mset xs = mset ys"
  shows "m_ok xs \<longleftrightarrow> m_ok ys"
proof -
  have "mset (List.map fst xs) = mset (List.map fst ys)"
    using assms by (simp add: mset_map)
  then show ?thesis
    by (simp add: m_ok_def m_keys_def mset_eq_imp_distinct_iff)
qed

lemma option_all_map_of: "m_ok m \<Longrightarrow> (\<forall>(k, v) \<in> set m. P k v) \<longleftrightarrow> (\<forall>k v. m_get m k = Some v \<longrightarrow> P k v)"
  by (auto simp: m_get_mem)

end
