(* ===== verification/GoText.thy ===== *)
theory GoText
  imports Prelude "HOL-Library.Char_ord" "HOL-Library.List_Lexorder"
begin

text \<open>
  Go strings and the parts of the Go library the service applies to them. A Go string is a
  sequence of bytes, here a HOL \<open>string\<close> (a list of 8-bit characters), so \<^verbatim>\<open>len(s)\<close> is
  \<open>length\<close> and \<^verbatim>\<open><\<close> is the lexicographic order of the bytes.

  \<^item> UTF-8: \<open>decode_rune\<close> is \<^verbatim>\<open>utf8.DecodeRune\<close> (an invalid byte is U+FFFD of width 1),
    \<open>runes\<close> is \<^verbatim>\<open>[]rune(s)\<close> and \<open>of_runes\<close> is \<^verbatim>\<open>string(rs)\<close>; decoding what was encoded gives
    the runes back, so the truncations of the service keep their bounds.
  \<^item> the truncations \<open>capRunes\<close> (with an ellipsis) and \<open>truncateRunes\<close> (without);
  \<^item> the regular expressions of the service (hashes, refs, pins) as predicates;
  \<^item> \<open>split_on\<close>, \<open>splitN\<close>, \<open>trim_space\<close>, \<open>atoi\<close>, \<open>to_lower\<close> (ASCII letters, which is what
    the service applies it to: hex hashes and host names).
\<close>

section \<open>Bytes and UTF-8\<close>

type_synonym rune = nat

definition bytes :: "string \<Rightarrow> nat list" where
  "bytes s = List.map of_char s"

definition of_bytes :: "nat list \<Rightarrow> string" where
  "of_bytes bs = List.map char_of bs"

definition rune_error :: rune where
  "rune_error = 65533"

text \<open>A rune that UTF-8 can encode: no surrogate, at most U+10FFFF.\<close>

definition valid_rune :: "rune \<Rightarrow> bool" where
  "valid_rune r \<longleftrightarrow> r < 55296 \<or> 57344 \<le> r \<and> r < 1114112"

definition cont :: "nat \<Rightarrow> bool" where
  "cont b \<longleftrightarrow> 128 \<le> b \<and> b \<le> 191"

definition seq2 :: "nat \<Rightarrow> nat \<Rightarrow> bool" where
  "seq2 b0 b1 \<longleftrightarrow> 194 \<le> b0 \<and> b0 \<le> 223 \<and> cont b1"

definition seq3 :: "nat \<Rightarrow> nat \<Rightarrow> nat \<Rightarrow> bool" where
  "seq3 b0 b1 b2 \<longleftrightarrow> 224 \<le> b0 \<and> b0 \<le> 239 \<and>
     (if b0 = 224 then 160 else 128) \<le> b1 \<and> b1 \<le> (if b0 = 237 then 159 else 191) \<and> cont b2"

definition seq4 :: "nat \<Rightarrow> nat \<Rightarrow> nat \<Rightarrow> nat \<Rightarrow> bool" where
  "seq4 b0 b1 b2 b3 \<longleftrightarrow> 240 \<le> b0 \<and> b0 \<le> 244 \<and>
     (if b0 = 240 then 144 else 128) \<le> b1 \<and> b1 \<le> (if b0 = 244 then 143 else 191) \<and>
     cont b2 \<and> cont b3"

text \<open>\<^verbatim>\<open>utf8.DecodeRune\<close>: the rune and its width; an invalid prefix has width 1.\<close>

fun decode_rune :: "nat list \<Rightarrow> rune \<times> nat" where
  "decode_rune [] = (rune_error, 1)"
| "decode_rune (b0 # bs) =
     (if b0 < 128 then (b0, 1)
      else if 1 \<le> length bs \<and> seq2 b0 (bs ! 0)
        then ((b0 - 192) * 64 + (bs ! 0 - 128), 2)
      else if 2 \<le> length bs \<and> seq3 b0 (bs ! 0) (bs ! 1)
        then ((b0 - 224) * 4096 + (bs ! 0 - 128) * 64 + (bs ! 1 - 128), 3)
      else if 3 \<le> length bs \<and> seq4 b0 (bs ! 0) (bs ! 1) (bs ! 2)
        then ((b0 - 240) * 262144 + (bs ! 0 - 128) * 4096 + (bs ! 1 - 128) * 64
              + (bs ! 2 - 128), 4)
      else (rune_error, 1))"

lemma decode_rune_width: "0 < snd (decode_rune bs)"
  by (cases bs) auto

function decode :: "nat list \<Rightarrow> rune list" where
  "decode bs =
     (if bs = [] then []
      else fst (decode_rune bs) # decode (drop (snd (decode_rune bs)) bs))"
  by pat_completeness auto
termination
  by (relation "measure length") (auto simp: decode_rune_width)

declare decode.simps [simp del]

lemma decode_Nil [simp]: "decode [] = []"
  by (subst decode.simps) simp

definition encode_rune :: "rune \<Rightarrow> nat list" where
  "encode_rune r =
     (if r < 128 then [r]
      else if r < 2048 then [192 + r div 64, 128 + r mod 64]
      else if \<not> valid_rune r then [239, 191, 189]
      else if r < 65536 then [224 + r div 4096, 128 + r div 64 mod 64, 128 + r mod 64]
      else [240 + r div 262144, 128 + r div 4096 mod 64, 128 + r div 64 mod 64,
            128 + r mod 64])"

definition encode :: "rune list \<Rightarrow> nat list" where
  "encode rs = concat (List.map encode_rune rs)"

text \<open>\<^verbatim>\<open>[]rune(s)\<close>, \<^verbatim>\<open>string(rs)\<close> and \<^verbatim>\<open>utf8.Valid\<close>.\<close>

definition runes :: "string \<Rightarrow> rune list" where
  "runes s = decode (bytes s)"

definition of_runes :: "rune list \<Rightarrow> string" where
  "of_runes rs = of_bytes (encode rs)"

function utf8_valid_bytes :: "nat list \<Rightarrow> bool" where
  "utf8_valid_bytes bs =
     (if bs = [] then True
      else if decode_rune bs = (rune_error, 1) then False
      else utf8_valid_bytes (drop (snd (decode_rune bs)) bs))"
  by pat_completeness auto
termination
  by (relation "measure length") (auto simp: decode_rune_width)

declare utf8_valid_bytes.simps [simp del]

definition utf8_valid :: "string \<Rightarrow> bool" where
  "utf8_valid s = utf8_valid_bytes (bytes s)"

lemma length_bytes [simp]: "length (bytes s) = length s"
  by (simp add: bytes_def)

lemma length_encode_rune: "length (encode_rune r) \<le> 4" "0 < length (encode_rune r)"
  by (simp_all add: encode_rune_def)

lemma length_encode: "length (encode rs) \<le> 4 * length rs"
  by (induction rs)
    (auto simp: encode_def intro: add_mono length_encode_rune(1) order.trans)

lemma length_of_runes: "length (of_runes rs) \<le> 4 * length rs"
  using length_encode[of rs] by (simp add: of_runes_def of_bytes_def)

lemma split_6bit2: "r = r div 4096 * 4096 + r div 64 mod 64 * 64 + r mod (64 :: nat)"
proof -
  have "r div 4096 = r div 64 div 64"
    by (simp flip: div_mult2_eq)
  then show ?thesis
    using div_mult_mod_eq[of "r div 64" 64] div_mult_mod_eq[of r 64] by linarith
qed

lemma split_6bit3:
  "r = r div 262144 * 262144 + r div 4096 mod 64 * 4096 + r div 64 mod 64 * 64 + r mod (64 :: nat)"
proof -
  have "r div 262144 = r div 4096 div 64"
    by (simp flip: div_mult2_eq)
  then show ?thesis
    using div_mult_mod_eq[of "r div 4096" 64] split_6bit2[of r] by linarith
qed

lemma decode_rune3:
  assumes "a \<le> 15" "b \<le> 63" "c \<le> 63" "a = 0 \<longrightarrow> 32 \<le> b" "a = 13 \<longrightarrow> b \<le> 31"
  shows "decode_rune ((224 + a) # (128 + b) # (128 + c) # bs) = (a * 4096 + b * 64 + c, 3)"
  using assms by (simp add: seq2_def seq3_def cont_def)

lemma decode_rune4:
  assumes "a \<le> 4" "b \<le> 63" "c \<le> 63" "d \<le> 63" "a = 0 \<longrightarrow> 16 \<le> b" "a = 4 \<longrightarrow> b \<le> 15"
  shows "decode_rune ((240 + a) # (128 + b) # (128 + c) # (128 + d) # bs)
    = (a * 262144 + b * 4096 + c * 64 + d, 4)"
  using assms by (simp add: seq2_def seq3_def seq4_def cont_def)

lemma decode_encode_rune:
  assumes "valid_rune r"
  shows "decode_rune (encode_rune r @ bs) = (r, length (encode_rune r))"
proof -
  consider (1) "r < 128" | (2) "128 \<le> r" "r < 2048" | (3) "2048 \<le> r" "r < 65536"
    | (4) "65536 \<le> r" "r < 1114112"
    using assms unfolding valid_rune_def by linarith
  then show ?thesis
  proof cases
    case 1
    then show ?thesis by (simp add: encode_rune_def)
  next
    case 2
    then have "2 \<le> r div 64" "r div 64 \<le> 31" "r mod 64 \<le> 63"
      by auto
    with 2 show ?thesis
      by (simp add: encode_rune_def seq2_def cont_def)
  next
    case 3
    note split = split_6bit2[of r]
    have small: "r div 4096 \<le> 15" "r div 64 mod 64 \<le> 63" "r mod 64 \<le> 63"
      using 3 by auto
    have lo: "r div 4096 = 0 \<longrightarrow> 32 \<le> r div 64 mod 64"
      using 3 split by linarith
    have hi: "r div 4096 = 13 \<longrightarrow> r div 64 mod 64 \<le> 31"
      using 3 assms split unfolding valid_rune_def by linarith
    have "encode_rune r = [224 + r div 4096, 128 + r div 64 mod 64, 128 + r mod 64]"
      using 3 assms by (simp add: encode_rune_def)
    then show ?thesis
      using decode_rune3[OF small lo hi] split[symmetric] by (simp del: decode_rune.simps)
  next
    case 4
    note split = split_6bit3[of r]
    have small: "r div 262144 \<le> 4" "r div 4096 mod 64 \<le> 63" "r div 64 mod 64 \<le> 63"
      "r mod 64 \<le> 63"
      using 4 by auto
    have lo: "r div 262144 = 0 \<longrightarrow> 16 \<le> r div 4096 mod 64"
      using 4 split by linarith
    have hi: "r div 262144 = 4 \<longrightarrow> r div 4096 mod 64 \<le> 15"
      using 4 split by linarith
    have "encode_rune r = [240 + r div 262144, 128 + r div 4096 mod 64, 128 + r div 64 mod 64,
        128 + r mod 64]"
      using 4 assms by (simp add: encode_rune_def)
    then show ?thesis
      using decode_rune4[OF small lo hi] split[symmetric] by (simp del: decode_rune.simps)
  qed
qed

lemma decode_encode:
  assumes "\<forall>r \<in> set rs. valid_rune r"
  shows "decode (encode rs) = rs"
  using assms
proof (induction rs)
  case Nil
  then show ?case by (simp add: encode_def)
next
  case (Cons r rs)
  have enc: "encode (r # rs) = encode_rune r @ encode rs"
    by (simp add: encode_def)
  have "encode_rune r \<noteq> []"
    using length_encode_rune(2)[of r] by auto
  then show ?case
    using Cons by (subst decode.simps) (simp add: enc decode_encode_rune)
qed

lemma decode_rune_valid: "valid_rune (fst (decode_rune bs))"
proof (cases bs)
  case Nil
  then show ?thesis by (simp add: valid_rune_def rune_error_def)
next
  case (Cons b bs')
  show ?thesis
  proof (cases "2 \<le> length bs' \<and> seq3 b (bs' ! 0) (bs' ! 1)")
    case True
    then have "(b - 224) * 4096 + (bs' ! 0 - 128) * 64 + (bs' ! 1 - 128) < 55296 \<or>
        57344 \<le> (b - 224) * 4096 + (bs' ! 0 - 128) * 64 + (bs' ! 1 - 128)"
      "(b - 224) * 4096 + (bs' ! 0 - 128) * 64 + (bs' ! 1 - 128) < 1114112"
      unfolding seq3_def cont_def by (auto split: if_splits)
    with True Cons show ?thesis
      by (auto simp: valid_rune_def seq2_def seq3_def cont_def)
  next
    case False
    with Cons show ?thesis
      by (auto simp: valid_rune_def rune_error_def seq2_def seq4_def cont_def split: if_splits)
  qed
qed

lemma decode_valid: "r \<in> set (decode bs) \<Longrightarrow> valid_rune r"
proof (induction bs rule: decode.induct)
  case (1 bs)
  then show ?case
    by (cases "bs = []") (auto simp: decode.simps[of bs] decode_rune_valid)
qed

lemma encode_rune_byte: "b \<in> set (encode_rune r) \<Longrightarrow> b < 256"
  by (auto simp: encode_rune_def valid_rune_def split: if_splits)

lemma bytes_of_bytes: "\<forall>b \<in> set bs. b < 256 \<Longrightarrow> bytes (of_bytes bs) = bs"
  by (induction bs) (auto simp: bytes_def of_bytes_def)

lemma bytes_of_runes: "bytes (of_runes rs) = encode rs"
  unfolding of_runes_def
  by (rule bytes_of_bytes) (auto simp: encode_def dest: encode_rune_byte)

text \<open>\<^verbatim>\<open>[]rune(string(rs))\<close> gives the runes back.\<close>

lemma runes_of_runes: "\<forall>r \<in> set rs. valid_rune r \<Longrightarrow> runes (of_runes rs) = rs"
  by (simp add: runes_def bytes_of_runes decode_encode)

lemma runes_valid: "r \<in> set (runes s) \<Longrightarrow> valid_rune r"
  by (simp add: runes_def decode_valid)

lemma length_decode: "length (decode bs) \<le> length bs"
proof (induction bs rule: decode.induct)
  case (1 bs)
  show ?case
  proof (cases "bs = []")
    case False
    then have "length (decode (drop (snd (decode_rune bs)) bs)) \<le> length bs - snd (decode_rune bs)"
      using 1 by simp
    moreover have "0 < length bs"
      using False by simp
    ultimately have "Suc (length (decode (drop (snd (decode_rune bs)) bs))) \<le> length bs"
      using decode_rune_width[of bs] by linarith
    with False show ?thesis
      by (subst decode.simps) simp
  qed simp
qed

lemma length_runes: "length (runes s) \<le> length s"
  using length_decode[of "bytes s"] by (simp add: runes_def)

section \<open>Truncations\<close>

definition ellipsis :: rune where
  "ellipsis = 8230"

text \<open>
  \<^verbatim>\<open>capRunes\<close> of internal/state, \<^verbatim>\<open>CapName\<close> and \<^verbatim>\<open>capString\<close> of internal/ipc share one body;
  \<^verbatim>\<open>truncateRunes\<close> of internal/connection cuts without a mark.
\<close>

definition capRunes :: "string \<Rightarrow> nat \<Rightarrow> string" where
  "capRunes s n =
     (let r = runes s in
      if length r \<le> n then s else of_runes (take (n - 1) r @ [ellipsis]))"

definition truncateRunes :: "string \<Rightarrow> nat \<Rightarrow> string" where
  "truncateRunes s n =
     (let r = runes s in if length r \<le> n then s else of_runes (take n r))"

lemma valid_take_runes: "r \<in> set (take n (runes s)) \<Longrightarrow> valid_rune r"
  by (rule runes_valid) (rule in_set_takeD)

lemma ellipsis_valid: "valid_rune ellipsis"
  by (simp add: valid_rune_def ellipsis_def)

lemma runes_capRunes:
  "runes (capRunes s n) =
     (if length (runes s) \<le> n then runes s else take (n - 1) (runes s) @ [ellipsis])"
  by (auto simp: capRunes_def Let_def ellipsis_valid valid_take_runes intro!: runes_of_runes)

lemma runes_truncateRunes: "runes (truncateRunes s n) = take n (runes s)"
  by (auto simp: truncateRunes_def Let_def valid_take_runes intro!: runes_of_runes)

lemma length_capRunes: "0 < n \<Longrightarrow> length (runes (capRunes s n)) \<le> n"
  by (simp add: runes_capRunes)

lemma length_truncateRunes: "length (runes (truncateRunes s n)) \<le> n"
  by (simp add: runes_truncateRunes)

lemma capRunes_idem: "0 < n \<Longrightarrow> capRunes (capRunes s n) n = capRunes s n"
  using length_capRunes[of n s] by (simp add: capRunes_def[of "capRunes s n"] Let_def)

section \<open>Characters, searching and splitting\<close>

definition is_digit :: "char \<Rightarrow> bool" where
  "is_digit c \<longleftrightarrow> of_char c \<ge> (48 :: nat) \<and> of_char c \<le> (57 :: nat)"

definition is_lower_hex :: "char \<Rightarrow> bool" where
  "is_lower_hex c \<longleftrightarrow> is_digit c \<or> of_char c \<ge> (97 :: nat) \<and> of_char c \<le> (102 :: nat)"

definition is_hex :: "char \<Rightarrow> bool" where
  "is_hex c \<longleftrightarrow> is_lower_hex c \<or> of_char c \<ge> (65 :: nat) \<and> of_char c \<le> (70 :: nat)"

text \<open>\<^verbatim>\<open>^[0-9a-fA-F]{40}(?:[0-9a-fA-F]{24})?$\<close>\<close>

definition validHash :: "string \<Rightarrow> bool" where
  "validHash h \<longleftrightarrow> (length h = 40 \<or> length h = 64) \<and> list_all is_hex h"

definition lower_char :: "char \<Rightarrow> char" where
  "lower_char c =
     (if of_char c \<ge> (65 :: nat) \<and> of_char c \<le> (90 :: nat) then char_of (of_char c + 32 :: nat) else c)"

definition to_lower :: "string \<Rightarrow> string" where
  "to_lower s = List.map lower_char s"

definition has_prefix :: "string \<Rightarrow> string \<Rightarrow> bool" where
  "has_prefix p s \<longleftrightarrow> take (length p) s = p"

definition cut_prefix :: "string \<Rightarrow> string \<Rightarrow> string option" where
  "cut_prefix p s = (if has_prefix p s then Some (drop (length p) s) else None)"

text \<open>\<^verbatim>\<open>strings.Split(s, sep)\<close> for a one-byte separator.\<close>

fun split_on :: "char \<Rightarrow> string \<Rightarrow> string list" where
  "split_on c [] = [[]]"
| "split_on c (x # xs) =
     (if x = c then [] # split_on c xs
      else case split_on c xs of [] \<Rightarrow> [[x]] | p # ps \<Rightarrow> (x # p) # ps)"

text \<open>\<^verbatim>\<open>strings.SplitN(s, sep, n)\<close> with \<open>0 < n\<close>: at most \<open>n\<close> pieces, the last unsplit.\<close>

fun splitN :: "char \<Rightarrow> nat \<Rightarrow> string \<Rightarrow> string list" where
  "splitN c n [] = [[]]"
| "splitN c n (x # xs) =
     (if n \<le> 1 then [x # xs]
      else if x = c then [] # splitN c (n - 1) xs
      else case splitN c n xs of [] \<Rightarrow> [[x]] | p # ps \<Rightarrow> (x # p) # ps)"

definition join_with :: "char \<Rightarrow> string list \<Rightarrow> string" where
  "join_with c ps = (case ps of [] \<Rightarrow> [] | p # qs \<Rightarrow> p @ concat (List.map (\<lambda>q. c # q) qs))"

text \<open>The ASCII white space that \<^verbatim>\<open>strings.TrimSpace\<close> removes.\<close>

definition is_space :: "char \<Rightarrow> bool" where
  "is_space c \<longleftrightarrow> of_char c = (32 :: nat) \<or> (of_char c \<ge> (9 :: nat) \<and> of_char c \<le> (13 :: nat))"

definition trim_space :: "string \<Rightarrow> string" where
  "trim_space s = rev (dropWhile is_space (rev (dropWhile is_space s)))"

definition digits_value :: "string \<Rightarrow> int" where
  "digits_value s = foldl (\<lambda>n c. n * 10 + (int (of_char c) - 48)) 0 s"

text \<open>\<^verbatim>\<open>strconv.Atoi\<close> (and \<^verbatim>\<open>ParseInt(s, 10, 64)\<close>): an optional sign, decimal digits, in range.\<close>

definition atoi :: "string \<Rightarrow> int option" where
  "atoi s =
     (let (neg, ds) = (case s of [] \<Rightarrow> (False, []) | c # cs \<Rightarrow>
          if c = CHR ''-'' then (True, cs) else if c = CHR ''+'' then (False, cs)
          else (False, c # cs));
          n = (if neg then - digits_value ds else digits_value ds)
      in if ds = [] \<or> \<not> list_all is_digit ds \<or> \<not> int64 n then None else Some n)"

text \<open>\<^verbatim>\<open>hex.EncodeToString\<close> and the decimal form of a number.\<close>

definition lower_hex_digit :: "nat \<Rightarrow> char" where
  "lower_hex_digit n = char_of (if n < 10 then 48 + n else 87 + n)"

definition hex_of_bytes :: "nat list \<Rightarrow> string" where
  "hex_of_bytes bs = concat (List.map (\<lambda>b. [lower_hex_digit (b div 16), lower_hex_digit (b mod 16)]) bs)"

definition hex_value :: "char \<Rightarrow> nat" where
  "hex_value c = (let n = of_char c in
     if n \<le> 57 then n - 48 else if n \<le> 70 then n - 55 else n - 87)"

fun nat_string :: "nat \<Rightarrow> string" where
  "nat_string n = (if n < 10 then [char_of (48 + n)]
     else nat_string (n div 10) @ [char_of (48 + n mod 10)])"

declare nat_string.simps [simp del]

lemma is_hex_digit: "n < 16 \<Longrightarrow> is_hex (lower_hex_digit n) \<and> hex_value (lower_hex_digit n) = n"
  by (simp add: is_hex_def is_lower_hex_def is_digit_def lower_hex_digit_def hex_value_def Let_def)

lemma split_on_nonempty: "split_on c s \<noteq> []"
  by (induction s) (auto split: list.splits)

lemma join_split: "join_with c (split_on c s) = s"
proof (induction s)
  case (Cons x xs)
  then show ?case
    using split_on_nonempty[of c xs] by (auto simp: join_with_def split: list.splits)
qed (simp add: join_with_def)

lemma split_on_no_sep: "p \<in> set (split_on c s) \<Longrightarrow> c \<notin> set p"
  by (induction s arbitrary: p) (auto split: if_splits list.splits)

lemma length_to_lower [simp]: "length (to_lower s) = length s"
  by (simp add: to_lower_def)

lemma of_char_lower_char:
  "of_char (lower_char c) = (if of_char c \<ge> (65 :: nat) \<and> of_char c \<le> (90 :: nat)
     then of_char c + 32 else of_char c :: nat)"
  by (simp add: lower_char_def)

lemma is_hex_lower: "is_hex (lower_char c) \<longleftrightarrow> is_hex c"
  by (simp add: is_hex_def is_lower_hex_def is_digit_def of_char_lower_char)

lemma is_lower_hex_lower: "is_hex c \<Longrightarrow> is_lower_hex (lower_char c)"
  by (simp add: is_hex_def is_lower_hex_def is_digit_def of_char_lower_char) linarith

lemma lower_char_idem: "lower_char (lower_char c) = lower_char c"
  by (auto simp: lower_char_def)

lemma to_lower_idem [simp]: "to_lower (to_lower s) = to_lower s"
  by (simp add: to_lower_def lower_char_idem)

lemma validHash_to_lower: "validHash (to_lower h) \<longleftrightarrow> validHash h"
  by (simp add: validHash_def) (simp add: to_lower_def list_all_iff is_hex_lower)

lemma validHash_length: "validHash h \<Longrightarrow> length h \<le> 64"
  by (auto simp: validHash_def)

end
