(* ===== verification/Adapter.thy ===== *)
theory Adapter
  imports GoText
begin

text \<open>
  The vocabulary of the qBittorrent adapter (internal/qbittorrent) that the other components
  see: its error classes with Go's \<^verbatim>\<open>errors.Is\<close>, and the response types of sync/maindata.
  An error is its chain of sentinels: \<open>Wrapped c\<close> for \<^verbatim>\<open>c\<close> itself or any
  \<^verbatim>\<open>fmt.Errorf("%w: ...", c, ...)\<close>, \<open>TLSError\<close> for the struct of that name (which unwraps
  to its class), \<open>Opaque\<close> for an error that wraps no sentinel.
\<close>

section \<open>Error classes\<close>

datatype sentinel =
    ErrUnreachable | ErrBadCredentials | ErrBanned | ErrUnauthorized | ErrUnexpectedState
  | ErrConflict | ErrTLSUntrusted | ErrTLSHostname | ErrCredentialsUnavailable

record tls_error =
  te_class :: sentinel
  te_offered :: string
  te_der :: string

datatype err = Wrapped sentinel | TLSError tls_error | Opaque string

text \<open>\<^verbatim>\<open>errors.Is(err, c)\<close>\<close>

fun errors_Is :: "err \<Rightarrow> sentinel \<Rightarrow> bool" where
  "errors_Is (Wrapped c') c = (c' = c)"
| "errors_Is (TLSError t) c = (te_class t = c)"
| "errors_Is (Opaque _) c = False"

section \<open>sync/maindata\<close>

record server_state =
  ss_dl :: "int option"
  ss_up :: "int option"
  ss_conn :: "string option"
  ss_free :: "int option"

text \<open>
  \<^verbatim>\<open>Maindata\<close>: the torrent objects stay raw (\<open>'raw\<close>, Go's \<^verbatim>\<open>json.RawMessage\<close>); the syncer
  decodes them.
\<close>

record 'raw maindata =
  md_rid :: int
  md_full :: bool
  md_torrents :: "(string, 'raw) gomap"
  md_removed :: "string list"
  md_server :: "server_state option"

end
