(* ===== verification/Syncer.thy ===== *)
theory Syncer
  imports Adapter
begin

text \<open>
  The synchronization loop (internal/state/syncer.go): the committed state, the merge of full
  updates and deltas, the epoch-checked commits, authentication frugality and the change
  events. \<open>cycle\<close> is one whole cycle with no interference; its critical sections
  (\<open>cycle_begin\<close>, \<open>note_auth_failure\<close>, \<open>commit_degraded_epoch\<close>, \<open>login_ok\<close>, \<open>probe_versions\<close>,
  \<open>commit\<close>) are separate definitions, so that SyncMachine can interleave them with
  \<open>SwitchBackend\<close> and the subscribers.

  A torrent object arrives as raw JSON; \<open>um\<close> stands for \<^verbatim>\<open>json.Unmarshal\<close> of one object into
  \<^verbatim>\<open>partialTorrent\<close> (\<open>None\<close> for a decoding error) and is an argument of everything that
  decodes. The answers of the backend are an argument as well.
\<close>

section \<open>Data\<close>

record torrent =
  t_hash :: string
  t_name :: string
  t_state :: string
  t_progress :: real
  t_dl :: int
  t_up :: int
  t_eta :: int
  t_ratio :: real
  t_category :: string
  t_size :: int
  t_completed :: int

definition zero_torrent :: torrent where
  "zero_torrent = \<lparr>t_hash = [], t_name = [], t_state = [], t_progress = 0, t_dl = 0, t_up = 0,
     t_eta = 0, t_ratio = 0, t_category = [], t_size = 0, t_completed = 0\<rparr>"

record partial_torrent =
  p_name :: "string option"
  p_state :: "string option"
  p_progress :: "real option"
  p_dl :: "int option"
  p_up :: "int option"
  p_eta :: "int option"
  p_ratio :: "real option"
  p_category :: "string option"
  p_size :: "int option"
  p_completed :: "int option"

definition no_fields :: partial_torrent where
  "no_fields = \<lparr>p_name = None, p_state = None, p_progress = None, p_dl = None, p_up = None,
     p_eta = None, p_ratio = None, p_category = None, p_size = None, p_completed = None\<rparr>"

record state =
  st_ok :: bool
  st_app :: string
  st_api :: string
  st_dl :: int
  st_up :: int
  st_conn :: string
  st_torrents :: "(string, torrent) gomap"
  st_err :: string
  st_free :: "int option"
  st_gen :: nat

record change =
  ch_seq :: nat
  ch_changed :: "torrent list"
  ch_removed :: "string list"

definition StateDownloading :: string where "StateDownloading = ''downloading''"
definition StateSeeding :: string where "StateSeeding = ''seeding''"
definition StatePaused :: string where "StatePaused = ''paused''"
definition StateQueued :: string where "StateQueued = ''queued''"
definition StateChecking :: string where "StateChecking = ''checking''"
definition StateError :: string where "StateError = ''error''"
definition StateMoving :: string where "StateMoving = ''moving''"
definition StateOther :: string where "StateOther = ''other''"

lemmas state_names = StateDownloading_def StateSeeding_def StatePaused_def StateQueued_def
  StateChecking_def StateError_def StateMoving_def StateOther_def

definition EtaUnknown :: int where "EtaUnknown = 8640000"
definition CategoryCapRunes :: nat where "CategoryCapRunes = 128"
definition StickyAuthFails :: nat where "StickyAuthFails = 3"
definition StatusLoading :: string where "StatusLoading = ''loading''"

definition ErrClassBadCredentials :: string where "ErrClassBadCredentials = ''bad credentials''"
definition ErrClassBanned :: string where "ErrClassBanned = ''banned''"
definition ErrClassUnauthorized :: string where "ErrClassUnauthorized = ''unauthorized''"
definition ErrClassUnreachable :: string where "ErrClassUnreachable = ''unreachable''"
definition ErrClassCredentialsUnavailable :: string where
  "ErrClassCredentialsUnavailable = ''credentials unavailable''"
definition ErrClassTLSUntrusted :: string where "ErrClassTLSUntrusted = ''tls untrusted''"
definition ErrClassTLSHostname :: string where "ErrClassTLSHostname = ''tls hostname''"
definition ErrClassUnexpected :: string where "ErrClassUnexpected = ''unexpected response''"

lemmas class_names = ErrClassBadCredentials_def ErrClassBanned_def ErrClassUnauthorized_def
  ErrClassUnreachable_def ErrClassCredentialsUnavailable_def ErrClassTLSUntrusted_def
  ErrClassTLSHostname_def ErrClassUnexpected_def StatusLoading_def

section \<open>Decoding and normalization\<close>

definition normalizeState :: "string \<Rightarrow> string" where
  "normalizeState q =
     (if q \<in> {''downloading'', ''metaDL'', ''forcedDL'', ''stalledDL'', ''allocating''}
        then StateDownloading
      else if q \<in> {''uploading'', ''stalledUP'', ''forcedUP''} then StateSeeding
      else if q \<in> {''pausedUP'', ''pausedDL'', ''stoppedUP'', ''stoppedDL''} then StatePaused
      else if q \<in> {''queuedUP'', ''queuedDL''} then StateQueued
      else if q \<in> {''checkingUP'', ''checkingDL'', ''checkingResumeData''} then StateChecking
      else if q = ''moving'' then StateMoving
      else if q \<in> {''error'', ''missingFiles''} then StateError
      else StateOther)"

definition set_field :: "'a option \<Rightarrow> ('a \<Rightarrow> torrent \<Rightarrow> torrent) \<Rightarrow> torrent \<Rightarrow> torrent" where
  "set_field f upd t = (case f of None \<Rightarrow> t | Some v \<Rightarrow> upd v t)"

text \<open>\<^verbatim>\<open>partialTorrent.apply\<close>: only the fields that are present overwrite the torrent.\<close>

definition apply_partial :: "partial_torrent \<Rightarrow> torrent \<Rightarrow> torrent" where
  "apply_partial p t0 =
     (let t1 = set_field (p_name p) (\<lambda>v t. t\<lparr>t_name := v\<rparr>) t0;
          t2 = set_field (p_state p) (\<lambda>v t. t\<lparr>t_state := normalizeState v\<rparr>) t1;
          t3 = set_field (p_progress p) (\<lambda>v t. t\<lparr>t_progress := v\<rparr>) t2;
          t4 = set_field (p_dl p) (\<lambda>v t. t\<lparr>t_dl := v\<rparr>) t3;
          t5 = set_field (p_up p) (\<lambda>v t. t\<lparr>t_up := v\<rparr>) t4;
          t6 = set_field (p_eta p)
                 (\<lambda>v t. t\<lparr>t_eta := if v \<ge> EtaUnknown then EtaUnknown else v\<rparr>) t5;
          t7 = set_field (p_ratio p) (\<lambda>v t. t\<lparr>t_ratio := v\<rparr>) t6;
          t8 = set_field (p_category p)
                 (\<lambda>v t. t\<lparr>t_category := capRunes v CategoryCapRunes\<rparr>) t7;
          t9 = set_field (p_size p) (\<lambda>v t. t\<lparr>t_size := v\<rparr>) t8
      in set_field (p_completed p) (\<lambda>v t. t\<lparr>t_completed := v\<rparr>) t9)"

definition decodeFull :: "('raw \<Rightarrow> partial_torrent option) \<Rightarrow> 'raw \<Rightarrow> torrent option" where
  "decodeFull um raw =
     (case um raw of None \<Rightarrow> None | Some p \<Rightarrow> Some (apply_partial p zero_torrent))"

definition classify :: "err \<Rightarrow> string" where
  "classify e =
     (if errors_Is e ErrBadCredentials then ErrClassBadCredentials
      else if errors_Is e ErrBanned then ErrClassBanned
      else if errors_Is e ErrCredentialsUnavailable then ErrClassCredentialsUnavailable
      else if errors_Is e ErrTLSUntrusted then ErrClassTLSUntrusted
      else if errors_Is e ErrTLSHostname then ErrClassTLSHostname
      else if errors_Is e ErrUnauthorized then ErrClassUnauthorized
      else if errors_Is e ErrUnreachable then ErrClassUnreachable
      else ErrClassUnexpected)"

definition errClass :: "err \<Rightarrow> string" where
  "errClass e =
     (if errors_Is e ErrBadCredentials \<or> errors_Is e ErrBanned
         \<or> errors_Is e ErrCredentialsUnavailable
      then ''auth'' else '''')"

section \<open>Channels and the syncer\<close>

text \<open>
  A subscriber's channel: the changes sent and not yet received, and whether it was closed.
  \<open>s_subs\<close> holds the registered channels (Go's set \<^verbatim>\<open>subs\<close>), \<open>s_chans\<close> every channel that was
  ever made, so that a dropped subscriber still drains what was buffered.
\<close>

record chan =
  ch_buf :: "change list"
  ch_closed :: bool

definition chan_cap :: nat where
  "chan_cap = 64"

record 'b syncer =
  s_backend :: 'b
  s_epoch :: nat
  s_cur :: state
  s_rid :: int
  s_ver :: bool
  s_authFails :: nat
  s_sticky :: bool
  s_class :: string
  s_kick :: bool
  s_subs :: "nat list"
  s_chans :: "(nat, chan) gomap"

definition zero_state :: state where
  "zero_state = \<lparr>st_ok = False, st_app = [], st_api = [], st_dl = 0, st_up = 0, st_conn = [],
     st_torrents = m_empty, st_err = [], st_free = None, st_gen = 0\<rparr>"

definition new_syncer :: "'b \<Rightarrow> 'b syncer" where
  "new_syncer b = \<lparr>s_backend = b, s_epoch = 0, s_cur = zero_state\<lparr>st_err := StatusLoading\<rparr>,
     s_rid = 0, s_ver = False, s_authFails = 0, s_sticky = False, s_class = [], s_kick = False,
     s_subs = [], s_chans = m_empty\<rparr>"

text \<open>\<^verbatim>\<open>publishToSubs\<close>: a non-blocking send to every registered channel; a full channel is closed
  and its subscriber dropped. The registered channels are visited in list order.\<close>

definition send_or_drop :: "change \<Rightarrow> nat \<Rightarrow> 'b syncer \<Rightarrow> 'b syncer" where
  "send_or_drop ch c s =
     (case m_get (s_chans s) c of
        None \<Rightarrow> s
      | Some q \<Rightarrow>
          if length (ch_buf q) < chan_cap
          then s\<lparr>s_chans := m_put c (q\<lparr>ch_buf := ch_buf q @ [ch]\<rparr>) (s_chans s)\<rparr>
          else s\<lparr>s_subs := removeAll c (s_subs s),
                 s_chans := m_put c (q\<lparr>ch_closed := True\<rparr>) (s_chans s)\<rparr>)"

definition publishToSubs :: "change \<Rightarrow> 'b syncer \<Rightarrow> 'b syncer" where
  "publishToSubs ch s = fold (send_or_drop ch) (s_subs s) s"

text \<open>\<^verbatim>\<open>Subscribe\<close>: the snapshot and the registration are one critical section. \<open>c\<close> is the new
  channel.\<close>

definition Subscribe :: "nat \<Rightarrow> 'b syncer \<Rightarrow> state \<times> 'b syncer" where
  "Subscribe c s =
     (s_cur s, s\<lparr>s_subs := c # s_subs s,
                s_chans := m_put c \<lparr>ch_buf = [], ch_closed = False\<rparr> (s_chans s)\<rparr>)"

definition cancelSub :: "nat \<Rightarrow> 'b syncer \<Rightarrow> 'b syncer" where
  "cancelSub c s =
     (if c \<in> set (s_subs s)
      then s\<lparr>s_subs := removeAll c (s_subs s),
             s_chans := (case m_get (s_chans s) c of None \<Rightarrow> s_chans s
                | Some q \<Rightarrow> m_put c (q\<lparr>ch_closed := True\<rparr>) (s_chans s))\<rparr>
      else s)"

section \<open>Switching the backend\<close>

definition switched_state :: "state \<Rightarrow> state" where
  "switched_state cur = cur\<lparr>st_torrents := m_empty, st_ok := False, st_dl := 0, st_up := 0,
     st_free := None, st_app := [], st_api := [], st_conn := [], st_err := StatusLoading,
     st_gen := Suc (st_gen cur)\<rparr>"

definition SwitchBackend :: "'b \<Rightarrow> 'b syncer \<Rightarrow> 'b syncer" where
  "SwitchBackend b s =
     (let removed = m_keys (st_torrents (s_cur s));
          nxt = switched_state (s_cur s);
          s1 = s\<lparr>s_backend := b, s_epoch := Suc (s_epoch s), s_rid := 0, s_ver := False,
                 s_authFails := 0, s_sticky := False, s_cur := nxt\<rparr>;
          s2 = (if removed \<noteq> []
                then publishToSubs \<lparr>ch_seq = st_gen nxt, ch_changed = [], ch_removed = removed\<rparr> s1
                else s1)
      in s2\<lparr>s_kick := True\<rparr>)"

section \<open>The cycle\<close>

text \<open>What a cycle captures under the read lock.\<close>

record 'b capture =
  c_rid :: int
  c_ver :: bool
  c_prev :: state
  c_epoch :: nat
  c_backend :: 'b
  c_sticky :: bool

definition cycle_begin :: "'b syncer \<Rightarrow> 'b capture" where
  "cycle_begin s = \<lparr>c_rid = s_rid s, c_ver = s_ver s, c_prev = s_cur s, c_epoch = s_epoch s,
     c_backend = s_backend s, c_sticky = s_sticky s\<rparr>"

definition note_auth_failure :: "err \<Rightarrow> 'b syncer \<Rightarrow> string \<times> 'b syncer" where
  "note_auth_failure e s =
     (let class = errClass e in
      if class \<noteq> ''auth'' then (class, s)
      else let n = Suc (s_authFails s) in
           (class, s\<lparr>s_authFails := n,
                     s_sticky := (if n \<ge> StickyAuthFails then True else s_sticky s)\<rparr>))"

definition degraded_state :: "err \<Rightarrow> state \<Rightarrow> state" where
  "degraded_state e prev = prev\<lparr>st_ok := False, st_dl := 0, st_up := 0, st_free := None,
     st_err := classify e\<rparr>"

definition commit_degraded_epoch :: "nat \<Rightarrow> err \<Rightarrow> 'b syncer \<Rightarrow> 'b syncer" where
  "commit_degraded_epoch epoch e s =
     (if s_epoch s \<noteq> epoch then s
      else s\<lparr>s_cur := degraded_state e (s_cur s), s_rid := 0, s_ver := False\<rparr>)"

definition login_ok :: "nat \<Rightarrow> 'b syncer \<Rightarrow> 'b syncer" where
  "login_ok epoch s = (if s_epoch s = epoch then s\<lparr>s_authFails := 0\<rparr> else s)"

text \<open>The loop over a full update, in the iteration order of the decoded map.\<close>

fun full_loop :: "('raw \<Rightarrow> partial_torrent option) \<Rightarrow> (string \<times> 'raw) list \<Rightarrow>
    (string, torrent) gomap \<Rightarrow> err + (string, torrent) gomap" where
  "full_loop um [] acc = Inr acc"
| "full_loop um ((h, raw) # rest) acc =
     (if \<not> validHash h then Inl (Opaque ''malformed full update: bad hash'')
      else case decodeFull um raw of
             None \<Rightarrow> Inl (Opaque ''malformed full update'')
           | Some t \<Rightarrow> full_loop um rest (m_put h (t\<lparr>t_hash := h\<rparr>) acc))"

text \<open>The two diff loops after a full update.\<close>

definition full_removed :: "(string, torrent) gomap \<Rightarrow> (string, torrent) gomap \<Rightarrow> string list" where
  "full_removed prev nxt = filter (\<lambda>h. m_get nxt h = None) (m_keys prev)"

definition full_changed :: "(string, torrent) gomap \<Rightarrow> (string, torrent) gomap \<Rightarrow> torrent list" where
  "full_changed prev nxt =
     filter (\<lambda>t. case m_get prev (t_hash t) of None \<Rightarrow> True | Some pt \<Rightarrow> pt \<noteq> t) (List.map snd nxt)"

fun delta_loop :: "('raw \<Rightarrow> partial_torrent option) \<Rightarrow> (string \<times> 'raw) list \<Rightarrow>
    (string, torrent) gomap \<times> torrent list \<Rightarrow>
    err + ((string, torrent) gomap \<times> torrent list)" where
  "delta_loop um [] acc = Inr acc"
| "delta_loop um ((h, raw) # rest) (nxt, changed) =
     (if \<not> validHash h then Inl (Opaque ''malformed delta: bad hash'')
      else case um raw of
             None \<Rightarrow> Inl (Opaque ''malformed delta'')
           | Some p \<Rightarrow>
               let t0 = (case m_get nxt h of None \<Rightarrow> zero_torrent | Some t \<Rightarrow> t);
                   t = (apply_partial p t0)\<lparr>t_hash := h\<rparr>
               in delta_loop um rest (m_put h t nxt, changed @ [t]))"

fun removed_loop :: "string list \<Rightarrow> (string, torrent) gomap \<times> string list \<Rightarrow>
    (string, torrent) gomap \<times> string list" where
  "removed_loop [] acc = acc"
| "removed_loop (h # hs) (nxt, removed) =
     (case m_get nxt h of
        None \<Rightarrow> removed_loop hs (nxt, removed)
      | Some _ \<Rightarrow> removed_loop hs (m_del h nxt, removed @ [h]))"

text \<open>The merge of the torrents: the next map, the changed torrents, the removed hashes.\<close>

definition merge_torrents :: "('raw \<Rightarrow> partial_torrent option) \<Rightarrow> (string, torrent) gomap \<Rightarrow>
    'raw maindata \<Rightarrow> err + ((string, torrent) gomap \<times> torrent list \<times> string list)" where
  "merge_torrents um prev md =
     (if md_full md then
        case full_loop um (md_torrents md) m_empty of
          Inl e \<Rightarrow> Inl e
        | Inr nxt \<Rightarrow> Inr (nxt, full_changed prev nxt, full_removed prev nxt)
      else
        case delta_loop um (md_torrents md) (prev, []) of
          Inl e \<Rightarrow> Inl e
        | Inr (nxt, changed) \<Rightarrow>
            let (nxt', removed) = removed_loop (md_removed md) (nxt, [])
            in Inr (nxt', changed, removed))"

definition merge_server :: "server_state option \<Rightarrow> state \<Rightarrow> state \<Rightarrow> state" where
  "merge_server ss prev nxt =
     (let n0 = nxt\<lparr>st_dl := st_dl prev, st_up := st_up prev, st_conn := st_conn prev,
                   st_free := st_free prev\<rparr>
      in case ss of
           None \<Rightarrow> n0
         | Some x \<Rightarrow> n0\<lparr>st_dl := (case ss_dl x of None \<Rightarrow> st_dl prev | Some v \<Rightarrow> v),
                        st_up := (case ss_up x of None \<Rightarrow> st_up prev | Some v \<Rightarrow> v),
                        st_conn := (case ss_conn x of None \<Rightarrow> st_conn prev | Some v \<Rightarrow> v),
                        st_free := (case ss_free x of None \<Rightarrow> st_free prev | Some v \<Rightarrow> Some v)\<rparr>)"

text \<open>The next state before the version probes, or the error of a malformed payload.\<close>

definition build_next :: "('raw \<Rightarrow> partial_torrent option) \<Rightarrow> state \<Rightarrow> 'raw maindata \<Rightarrow>
    err + (state \<times> torrent list \<times> string list)" where
  "build_next um prev md =
     (case merge_torrents um (st_torrents prev) md of
        Inl e \<Rightarrow> Inl e
      | Inr (ts, changed, removed) \<Rightarrow>
          let n0 = zero_state\<lparr>st_torrents := ts, st_app := st_app prev, st_api := st_api prev\<rparr>
          in Inr ((merge_server (md_server md) prev n0)\<lparr>st_ok := True\<rparr>, changed, removed))"

definition needs_probe :: "'b capture \<Rightarrow> bool" where
  "needs_probe c \<longleftrightarrow> \<not> c_ver c \<or> \<not> st_ok (c_prev c) \<or> st_app (c_prev c) = []"

text \<open>The version probes: both answers, or nothing (a failed probe is not an error). The backend
  they ask is the current field \<^verbatim>\<open>s.backend\<close>, not the captured one.\<close>

definition probe_versions :: "err + string \<Rightarrow> err + string \<Rightarrow> state \<Rightarrow> 'b syncer \<Rightarrow>
    state \<times> 'b syncer" where
  "probe_versions app api nxt s =
     (case app of
        Inl _ \<Rightarrow> (nxt, s)
      | Inr a \<Rightarrow>
          (case api of
             Inl _ \<Rightarrow> (nxt, s)
           | Inr w \<Rightarrow> (nxt\<lparr>st_app := a, st_api := w\<rparr>, s\<lparr>s_ver := True\<rparr>)))"

text \<open>The commit: discarded when the epoch moved on, else published under the same lock.\<close>

definition commit :: "'b capture \<Rightarrow> int \<Rightarrow> state \<Rightarrow> torrent list \<Rightarrow> string list \<Rightarrow> 'b syncer \<Rightarrow>
    bool \<times> 'b syncer" where
  "commit c rid nxt changed removed s =
     (let nxt1 = nxt\<lparr>st_gen := Suc (st_gen (c_prev c))\<rparr> in
      if s_epoch s \<noteq> c_epoch c then (False, s)
      else let s1 = s\<lparr>s_cur := nxt1, s_rid := rid\<rparr> in
           (True,
            if changed \<noteq> [] \<or> removed \<noteq> [] \<or> \<not> st_ok (c_prev c)
            then publishToSubs \<lparr>ch_seq = st_gen nxt1, ch_changed = changed, ch_removed = removed\<rparr> s1
            else s1))"

text \<open>
  One whole cycle without interference. The answers of the backend are given; the result is
  whether the cycle succeeded, the syncer after it, and the backend calls made, in order.
\<close>

record 'raw answers =
  an_login :: "err option"
  an_sync :: "err + 'raw maindata"
  an_app :: "err + string"
  an_api :: "err + string"

datatype bcall = CLogin | CSync int | CAppVersion | CWebAPIVersion

definition probe_calls :: "err + string \<Rightarrow> bcall list" where
  "probe_calls app = (case app of Inl _ \<Rightarrow> [CAppVersion] | Inr _ \<Rightarrow> [CAppVersion, CWebAPIVersion])"

definition cycle_sync :: "('raw \<Rightarrow> partial_torrent option) \<Rightarrow> 'raw answers \<Rightarrow> 'b capture \<Rightarrow>
    'b syncer \<Rightarrow> bool \<times> 'b syncer \<times> bcall list" where
  "cycle_sync um an c s =
     (case an_sync an of
        Inl e \<Rightarrow>
          let (class, s1) = note_auth_failure e s in
          (False, (commit_degraded_epoch (c_epoch c) e s1)\<lparr>s_class := class\<rparr>, [CSync (c_rid c)])
      | Inr md \<Rightarrow>
          (case build_next um (c_prev c) md of
             Inl e \<Rightarrow> (False, (commit_degraded_epoch (c_epoch c) e s)\<lparr>s_class := []\<rparr>,
                       [CSync (c_rid c)])
           | Inr (nxt, changed, removed) \<Rightarrow>
               let (nxt1, s1) =
                     (if needs_probe c then probe_versions (an_app an) (an_api an) nxt s else (nxt, s));
                   (ok, s2) = commit c (md_rid md) nxt1 changed removed s1
               in (ok, s2\<lparr>s_class := []\<rparr>,
                   CSync (c_rid c) # (if needs_probe c then probe_calls (an_app an) else []))))"

definition cycle :: "('raw \<Rightarrow> partial_torrent option) \<Rightarrow> 'raw answers \<Rightarrow> 'b syncer \<Rightarrow>
    bool \<times> 'b syncer \<times> bcall list" where
  "cycle um an s =
     (let c = cycle_begin s in
      if c_sticky c then
        (False, (commit_degraded_epoch (c_epoch c) (Opaque ErrClassBadCredentials) s)
                  \<lparr>s_class := ''auth''\<rparr>, [])
      else if \<not> st_ok (c_prev c) then
        (case an_login an of
           Some e \<Rightarrow>
             let (class, s1) = note_auth_failure e s in
             (False, (commit_degraded_epoch (c_epoch c) e s1)\<lparr>s_class := class\<rparr>, [CLogin])
         | None \<Rightarrow>
             let (ok, s1, calls) = cycle_sync um an c (login_ok (c_epoch c) s)
             in (ok, s1, CLogin # calls))
      else cycle_sync um an c s)"

section \<open>The run loop's backoff\<close>

text \<open>Durations are nanoseconds. \<open>next_backoff\<close> is the update of \<^verbatim>\<open>backoff\<close> in \<^verbatim>\<open>Run\<close>.\<close>

record sync_options =
  o_interval :: int
  o_maxBackoff :: int
  o_fetchBg :: int

definition fill_sync_options :: "sync_options \<Rightarrow> sync_options" where
  "fill_sync_options opts =
     \<lparr>o_interval = (if o_interval opts = 0 then 2000000000 else o_interval opts),
      o_maxBackoff = (if o_maxBackoff opts = 0 then 30000000000 else o_maxBackoff opts),
      o_fetchBg = (if o_fetchBg opts = 0 then 4000000000 else o_fetchBg opts)\<rparr>"

definition next_backoff :: "sync_options \<Rightarrow> bool \<Rightarrow> string \<Rightarrow> int \<Rightarrow> int" where
  "next_backoff opts ok class backoff =
     (if ok then o_interval opts
      else if class = ''auth'' then
        (let b = (if backoff < 30000000000 then 30000000000 else wrap64 (backoff * 2))
         in if b > 600000000000 then 600000000000 else b)
      else
        (let b = wrap64 (backoff * 2)
         in if b > o_maxBackoff opts then o_maxBackoff opts else b))"

end
