(* ===== verification/SyncerLemmas.thy ===== *)
theory SyncerLemmas
  imports Syncer
begin

text \<open>
  The facts about the syncer's operations that its properties rest on: what
  \<open>apply_partial\<close> does field by field, the well-formedness of the committed torrents and its
  preservation, reference descriptions of the full-update and the delta merge that mention no
  iteration order, and the replay of a published change on a subscriber's view.
\<close>

section \<open>Normalization\<close>

definition normalized_states :: "string set" where
  "normalized_states = {StateDownloading, StateSeeding, StatePaused, StateQueued, StateChecking,
     StateError, StateMoving, StateOther}"

lemma normalizeState_range: "normalizeState q \<in> normalized_states"
  by (simp add: normalizeState_def normalized_states_def)

definition field_or :: "'a option \<Rightarrow> ('a \<Rightarrow> 'b) \<Rightarrow> 'b \<Rightarrow> 'b" where
  "field_or f g d = (case f of None \<Rightarrow> d | Some v \<Rightarrow> g v)"

lemma set_field_frame: "(\<And>v x. g (upd v x) = g x) \<Longrightarrow> g (set_field f upd t) = g t"
  by (simp add: set_field_def split: option.splits)

lemma set_field_hit:
  "t_name (set_field f (\<lambda>v t. t\<lparr>t_name := v\<rparr>) t) = field_or f id (t_name t)"
  "t_state (set_field f (\<lambda>v t. t\<lparr>t_state := normalizeState v\<rparr>) t) =
     field_or f normalizeState (t_state t)"
  "t_progress (set_field g (\<lambda>v t. t\<lparr>t_progress := v\<rparr>) t) = field_or g id (t_progress t)"
  "t_dl (set_field k (\<lambda>v t. t\<lparr>t_dl := v\<rparr>) t) = field_or k id (t_dl t)"
  "t_up (set_field k (\<lambda>v t. t\<lparr>t_up := v\<rparr>) t) = field_or k id (t_up t)"
  "t_eta (set_field k (\<lambda>v t. t\<lparr>t_eta := if v \<ge> EtaUnknown then EtaUnknown else v\<rparr>) t) =
     field_or k (min EtaUnknown) (t_eta t)"
  "t_ratio (set_field g (\<lambda>v t. t\<lparr>t_ratio := v\<rparr>) t) = field_or g id (t_ratio t)"
  "t_category (set_field f (\<lambda>v t. t\<lparr>t_category := capRunes v CategoryCapRunes\<rparr>) t) =
     field_or f (\<lambda>c. capRunes c CategoryCapRunes) (t_category t)"
  "t_size (set_field k (\<lambda>v t. t\<lparr>t_size := v\<rparr>) t) = field_or k id (t_size t)"
  "t_completed (set_field k (\<lambda>v t. t\<lparr>t_completed := v\<rparr>) t) = field_or k id (t_completed t)"
  by (simp_all add: set_field_def field_or_def min_def split: option.splits)

lemma apply_partial_fields:
  "t_hash (apply_partial p t) = t_hash t"
  "t_name (apply_partial p t) = field_or (p_name p) id (t_name t)"
  "t_state (apply_partial p t) = field_or (p_state p) normalizeState (t_state t)"
  "t_progress (apply_partial p t) = field_or (p_progress p) id (t_progress t)"
  "t_dl (apply_partial p t) = field_or (p_dl p) id (t_dl t)"
  "t_up (apply_partial p t) = field_or (p_up p) id (t_up t)"
  "t_eta (apply_partial p t) = field_or (p_eta p) (min EtaUnknown) (t_eta t)"
  "t_ratio (apply_partial p t) = field_or (p_ratio p) id (t_ratio t)"
  "t_category (apply_partial p t) =
     field_or (p_category p) (\<lambda>c. capRunes c CategoryCapRunes) (t_category t)"
  "t_size (apply_partial p t) = field_or (p_size p) id (t_size t)"
  "t_completed (apply_partial p t) = field_or (p_completed p) id (t_completed t)"
  by (simp_all add: apply_partial_def Let_def set_field_hit set_field_frame[of t_hash] set_field_frame[of t_name] set_field_frame[of t_state]
    set_field_frame[of t_progress] set_field_frame[of t_dl] set_field_frame[of t_up]
    set_field_frame[of t_eta] set_field_frame[of t_ratio] set_field_frame[of t_category]
    set_field_frame[of t_size] set_field_frame[of t_completed])

lemma apply_partial_none: "apply_partial no_fields t = t"
  by (simp add: apply_partial_def no_fields_def set_field_def Let_def)

section \<open>Well-formed torrents\<close>

definition torrent_wf :: "torrent \<Rightarrow> bool" where
  "torrent_wf t \<longleftrightarrow> validHash (t_hash t) \<and> t_state t \<in> insert [] normalized_states
     \<and> t_eta t \<le> EtaUnknown \<and> length (runes (t_category t)) \<le> CategoryCapRunes"

definition torrents_wf :: "(string, torrent) gomap \<Rightarrow> bool" where
  "torrents_wf ts \<longleftrightarrow> m_ok ts \<and> (\<forall>h t. m_get ts h = Some t \<longrightarrow> t_hash t = h \<and> torrent_wf t)"

lemma torrents_wf_empty: "torrents_wf m_empty"
  by (simp add: torrents_wf_def gomap_simps)

lemma torrents_wfD:
  "torrents_wf ts \<Longrightarrow> m_ok ts"
  "torrents_wf ts \<Longrightarrow> m_get ts h = Some t \<Longrightarrow> t_hash t = h"
  "torrents_wf ts \<Longrightarrow> m_get ts h = Some t \<Longrightarrow> torrent_wf t"
  by (simp_all add: torrents_wf_def)

lemma torrents_wf_put:
  "torrents_wf ts \<Longrightarrow> t_hash t = h \<Longrightarrow> torrent_wf t \<Longrightarrow> torrents_wf (m_put h t ts)"
  by (auto simp: torrents_wf_def gomap_simps split: if_splits)

lemma torrents_wf_del: "torrents_wf ts \<Longrightarrow> torrents_wf (m_del h ts)"
  by (auto simp: torrents_wf_def gomap_simps split: if_splits)

lemma torrent_wf_apply:
  assumes "t_state t \<in> insert [] normalized_states" "t_eta t \<le> EtaUnknown"
    "length (runes (t_category t)) \<le> CategoryCapRunes" "validHash h"
  shows "torrent_wf ((apply_partial p t)\<lparr>t_hash := h\<rparr>)"
  using assms normalizeState_range
  by (auto simp: torrent_wf_def apply_partial_fields field_or_def CategoryCapRunes_def
      length_capRunes split: option.splits)

lemma runes_Nil [simp]: "runes [] = []"
  by (simp add: runes_def bytes_def)

lemma zero_torrent_parts:
  "t_state zero_torrent \<in> insert [] normalized_states" "t_eta zero_torrent \<le> EtaUnknown"
  "length (runes (t_category zero_torrent)) \<le> CategoryCapRunes"
  by (simp_all add: zero_torrent_def EtaUnknown_def)

section \<open>The full update\<close>

text \<open>The torrent a full update commits for a hash.\<close>

definition full_torrent :: "('raw \<Rightarrow> partial_torrent option) \<Rightarrow> string \<Rightarrow> 'raw \<Rightarrow> torrent option" where
  "full_torrent um h raw = map_option (\<lambda>t. t\<lparr>t_hash := h\<rparr>) (decodeFull um raw)"

definition payload_ok :: "('raw \<Rightarrow> partial_torrent option) \<Rightarrow> (string, 'raw) gomap \<Rightarrow> bool" where
  "payload_ok um kvs \<longleftrightarrow> (\<forall>(h, raw) \<in> set kvs. validHash h \<and> um raw \<noteq> None)"

lemma full_loop_ok:
  "(\<exists>nxt. full_loop um kvs acc = Inr nxt) \<longleftrightarrow> payload_ok um kvs"
  by (induction um kvs acc rule: full_loop.induct)
    (auto simp: payload_ok_def decodeFull_def split: option.splits)

lemma full_loop_get:
  assumes "full_loop um kvs acc = Inr nxt" "m_ok kvs"
  shows "m_get nxt h =
    (case m_get kvs h of None \<Rightarrow> m_get acc h | Some raw \<Rightarrow> full_torrent um h raw)"
  using assms
proof (induction um kvs acc rule: full_loop.induct)
  case (1 um acc)
  then show ?case by (simp add: m_get_Nil)
next
  case (2 um k raw rest acc)
  from 2(2,3) obtain t where t: "validHash k" "decodeFull um raw = Some t"
    "full_loop um rest (m_put k (t\<lparr>t_hash := k\<rparr>) acc) = Inr nxt" "m_get rest k = None" "m_ok rest"
    by (auto simp: m_ok_Cons split: if_splits option.splits)
  then show ?case
    using 2(1)[OF _ t(2,3,5)]
    by (auto simp: m_get_Cons gomap_simps full_torrent_def split: option.splits)
qed

lemma full_loop_wf:
  assumes "full_loop um kvs acc = Inr nxt" "torrents_wf acc"
  shows "torrents_wf nxt"
  using assms
proof (induction um kvs acc rule: full_loop.induct)
  case (2 um k raw rest acc)
  from 2(2) obtain p where p: "validHash k" "um raw = Some p"
    "full_loop um rest (m_put k ((apply_partial p zero_torrent)\<lparr>t_hash := k\<rparr>) acc) = Inr nxt"
    by (auto simp: decodeFull_def split: if_splits option.splits)
  have "torrents_wf (m_put k ((apply_partial p zero_torrent)\<lparr>t_hash := k\<rparr>) acc)"
    using 2(3) p(1) by (intro torrents_wf_put torrent_wf_apply zero_torrent_parts) simp_all
  then show ?case
    using 2(1)[of "apply_partial p zero_torrent"] p by (simp add: decodeFull_def)
qed simp

section \<open>The delta\<close>

text \<open>The torrent a delta commits for a hash it carries, given what was known of it.\<close>

definition delta_torrent :: "('raw \<Rightarrow> partial_torrent option) \<Rightarrow> torrent option \<Rightarrow> string \<Rightarrow> 'raw \<Rightarrow>
    torrent option" where
  "delta_torrent um old h raw =
     map_option (\<lambda>p. (apply_partial p (case old of None \<Rightarrow> zero_torrent | Some t \<Rightarrow> t))\<lparr>t_hash := h\<rparr>)
       (um raw)"

lemma delta_loop_ok:
  "(\<exists>r. delta_loop um kvs acc = Inr r) \<longleftrightarrow> payload_ok um kvs"
  by (induction um kvs acc rule: delta_loop.induct)
    (auto simp: payload_ok_def Let_def split: option.splits)

lemma delta_loop_get:
  assumes "delta_loop um kvs (prev, ch) = Inr (nxt, ch')" "m_ok kvs"
  shows "m_get nxt h =
    (case m_get kvs h of None \<Rightarrow> m_get prev h
     | Some raw \<Rightarrow> delta_torrent um (m_get prev h) h raw)"
  using assms
proof (induction kvs arbitrary: prev ch)
  case Nil
  then show ?case by (simp add: m_get_Nil)
next
  case (Cons kv rest)
  obtain k raw where kv: "kv = (k, raw)" by force
  from Cons.prems kv obtain p where p: "validHash k" "um raw = Some p" "m_get rest k = None" "m_ok rest"
    by (auto simp: m_ok_Cons split: if_splits option.splits)
  let ?t = "(apply_partial p (case m_get prev k of None \<Rightarrow> zero_torrent | Some t \<Rightarrow> t))\<lparr>t_hash := k\<rparr>"
  have "delta_loop um rest (m_put k ?t prev, ch @ [?t]) = Inr (nxt, ch')"
    using Cons.prems(1) kv p by (simp add: Let_def)
  from Cons.IH[OF this p(4)] show ?case
    using kv p by (auto simp: m_get_Cons gomap_simps delta_torrent_def split: option.splits)
qed

lemma delta_loop_wf:
  assumes "delta_loop um kvs (prev, ch) = Inr (nxt, ch')" "torrents_wf prev"
  shows "torrents_wf nxt"
  using assms
proof (induction kvs arbitrary: prev ch)
  case (Cons kv rest)
  obtain k raw where kv: "kv = (k, raw)" by force
  from Cons.prems kv obtain p where p: "validHash k" "um raw = Some p"
    by (auto split: if_splits option.splits)
  let ?t0 = "case m_get prev k of None \<Rightarrow> zero_torrent | Some t \<Rightarrow> t"
  let ?t = "(apply_partial p ?t0)\<lparr>t_hash := k\<rparr>"
  have rec: "delta_loop um rest (m_put k ?t prev, ch @ [?t]) = Inr (nxt, ch')"
    using Cons.prems(1) kv p by (simp add: Let_def)
  have "torrent_wf ?t"
    using p(1) torrents_wfD(3)[OF Cons.prems(2)] zero_torrent_parts
    by (intro torrent_wf_apply) (auto simp: torrent_wf_def split: option.splits)
  then have "torrents_wf (m_put k ?t prev)"
    using Cons.prems(2) by (intro torrents_wf_put) simp_all
  with rec show ?case by (rule Cons.IH)
qed simp

lemma removed_loop_get:
  "removed_loop hs (nxt, rm) = (nxt', rm') \<Longrightarrow>
     m_get nxt' h = (if h \<in> set hs then None else m_get nxt h)"
proof (induction hs arbitrary: nxt rm)
  case (Cons k hs)
  then show ?case
    by (cases "m_get nxt k") (auto simp: gomap_simps)
qed simp

lemma removed_loop_wf:
  "removed_loop hs (nxt, rm) = (nxt', rm') \<Longrightarrow> torrents_wf nxt \<Longrightarrow> torrents_wf nxt'"
  by (induction hs arbitrary: nxt rm) (auto simp: torrents_wf_del split: option.splits)

section \<open>The merge\<close>

text \<open>
  The reference description of a merge: what is committed for each hash, as a function of
  the previous map and the payload seen as maps. No iteration order occurs in it.
\<close>

definition merge_spec :: "('raw \<Rightarrow> partial_torrent option) \<Rightarrow> (string \<Rightarrow> torrent option) \<Rightarrow>
    'raw maindata \<Rightarrow> string \<Rightarrow> torrent option" where
  "merge_spec um prev md h =
     (if md_full md then
        (case m_get (md_torrents md) h of None \<Rightarrow> None | Some raw \<Rightarrow> full_torrent um h raw)
      else if h \<in> set (md_removed md) then None
      else (case m_get (md_torrents md) h of
              None \<Rightarrow> prev h
            | Some raw \<Rightarrow> delta_torrent um (prev h) h raw))"

lemma merge_torrents_ok:
  "(\<exists>r. merge_torrents um prev md = Inr r) \<longleftrightarrow> payload_ok um (md_torrents md)"
  using full_loop_ok[of um "md_torrents md" m_empty] delta_loop_ok[of um "md_torrents md" "(prev, [])"]
  by (auto simp: merge_torrents_def split: sum.splits prod.splits)

lemma merge_torrents_get:
  assumes "merge_torrents um prev md = Inr (nxt, ch, rm)" "m_ok (md_torrents md)"
  shows "m_get nxt h = merge_spec um (m_get prev) md h"
proof (cases "md_full md")
  case True
  with assms(1) have "full_loop um (md_torrents md) m_empty = Inr nxt"
    by (auto simp: merge_torrents_def split: sum.splits)
  from full_loop_get[OF this assms(2)] True show ?thesis
    by (simp add: merge_spec_def gomap_simps split: option.splits)
next
  case False
  with assms(1) obtain nxt0 where d: "delta_loop um (md_torrents md) (prev, []) = Inr (nxt0, ch)"
    "removed_loop (md_removed md) (nxt0, []) = (nxt, rm)"
    by (auto simp: merge_torrents_def Let_def split: sum.splits prod.splits)
  from removed_loop_get[OF d(2)] delta_loop_get[OF d(1) assms(2)] False show ?thesis
    by (simp add: merge_spec_def)
qed

lemma merge_torrents_wf:
  assumes "merge_torrents um prev md = Inr (nxt, ch, rm)" "torrents_wf prev"
  shows "torrents_wf nxt"
proof (cases "md_full md")
  case True
  with assms(1) have "full_loop um (md_torrents md) m_empty = Inr nxt"
    by (auto simp: merge_torrents_def split: sum.splits)
  then show ?thesis by (rule full_loop_wf) (rule torrents_wf_empty)
next
  case False
  with assms(1) obtain nxt0 where d: "delta_loop um (md_torrents md) (prev, []) = Inr (nxt0, ch)"
    "removed_loop (md_removed md) (nxt0, []) = (nxt, rm)"
    by (auto simp: merge_torrents_def Let_def split: sum.splits prod.splits)
  from delta_loop_wf[OF d(1) assms(2)] show ?thesis
    by (rule removed_loop_wf[OF d(2)])
qed

section \<open>Replaying a change\<close>

text \<open>
  What a subscriber does with a change (docs/IPC.md): the changed torrents overwrite its view,
  then the removed hashes leave it.
\<close>

definition upd_view :: "torrent \<Rightarrow> (string \<Rightarrow> torrent option) \<Rightarrow> (string \<Rightarrow> torrent option)" where
  "upd_view t v = v(t_hash t := Some t)"

definition del_view :: "string \<Rightarrow> (string \<Rightarrow> torrent option) \<Rightarrow> (string \<Rightarrow> torrent option)" where
  "del_view h v = v(h := None)"

definition replay :: "change \<Rightarrow> (string \<Rightarrow> torrent option) \<Rightarrow> (string \<Rightarrow> torrent option)" where
  "replay ch v = fold del_view (ch_removed ch) (fold upd_view (ch_changed ch) v)"

lemma fold_del_view: "fold del_view hs v h = (if h \<in> set hs then None else v h)"
  by (induction hs arbitrary: v) (auto simp: del_view_def)

lemma upd_view_same: "upd_view t v (t_hash t) = Some t"
  by (simp add: upd_view_def)

lemma fold_upd_view_other: "h \<notin> t_hash ` set ts \<Longrightarrow> fold upd_view ts v h = v h"
  by (induction ts arbitrary: v) (auto simp: upd_view_def)

lemma fold_upd_view_mem:
  "distinct (List.map t_hash ts) \<Longrightarrow> t \<in> set ts \<Longrightarrow> fold upd_view ts v (t_hash t) = Some t"
proof (induction ts arbitrary: v)
  case (Cons x ts)
  show ?case
  proof (cases "t = x")
    case True
    with Cons.prems have "t_hash t \<notin> t_hash ` set ts" by auto
    then have "fold upd_view ts (upd_view t v) (t_hash t) = upd_view t v (t_hash t)"
      by (rule fold_upd_view_other)
    then show ?thesis using True by (simp add: upd_view_same)
  next
    case False
    with Cons show ?thesis by simp
  qed
qed simp

lemma map_hash_values: "torrents_wf ts \<Longrightarrow> List.map t_hash (List.map snd ts) = m_keys ts"
  unfolding m_keys_def map_map
proof (rule map_cong[OF refl])
  fix x
  assume wf: "torrents_wf ts" and "x \<in> set ts"
  then have "m_get ts (fst x) = Some (snd x)"
    using m_get_mem[OF torrents_wfD(1)[OF wf], of "fst x" "snd x"] by simp
  with torrents_wfD(2)[OF wf] show "(t_hash \<circ> snd) x = fst x"
    by simp
qed

lemma full_changed_distinct: "torrents_wf nxt \<Longrightarrow> distinct (List.map t_hash (full_changed prev nxt))"
  unfolding full_changed_def
  by (intro distinct_map_filter) (simp only: map_hash_values, simp add: torrents_wf_def gm.ok_keys)

lemma full_changed_mem:
  assumes "torrents_wf nxt"
  shows "t \<in> set (full_changed prev nxt) \<longleftrightarrow>
    m_get nxt (t_hash t) = Some t \<and> m_get prev (t_hash t) \<noteq> Some t"
proof -
  have "t \<in> set (List.map snd nxt) \<longleftrightarrow> m_get nxt (t_hash t) = Some t"
  proof
    assume "t \<in> set (List.map snd nxt)"
    then obtain h where "(h, t) \<in> set nxt" by auto
    then have "m_get nxt h = Some t"
      using m_get_mem[OF torrents_wfD(1)[OF assms]] by simp
    with torrents_wfD(2)[OF assms] show "m_get nxt (t_hash t) = Some t" by simp
  next
    assume "m_get nxt (t_hash t) = Some t"
    then have "(t_hash t, t) \<in> set nxt"
      using m_get_mem[OF torrents_wfD(1)[OF assms]] by simp
    then show "t \<in> set (List.map snd nxt)" by force
  qed
  then show ?thesis
    by (auto simp: full_changed_def split: option.splits)
qed

lemma full_removed_mem: "h \<in> set (full_removed prev nxt) \<longleftrightarrow> m_get prev h \<noteq> None \<and> m_get nxt h = None"
  by (auto simp: full_removed_def gm.in_keys)

lemma full_replay:
  assumes "torrents_wf nxt"
  shows "fold del_view (full_removed prev nxt) (fold upd_view (full_changed prev nxt) (m_get prev))
    = m_get nxt" (is "?l = ?r")
proof
  fix h
  let ?ch = "full_changed prev nxt"
  show "?l h = ?r h"
  proof (cases "\<exists>t \<in> set ?ch. t_hash t = h")
    case True
    then obtain t where t: "t \<in> set ?ch" "t_hash t = h" by blast
    then have "fold upd_view ?ch (m_get prev) h = Some t"
      using fold_upd_view_mem[OF full_changed_distinct[OF assms] t(1)] by simp
    with t show ?thesis
      by (simp add: fold_del_view full_removed_mem full_changed_mem[OF assms])
  next
    case False
    then have keep: "fold upd_view ?ch (m_get prev) h = m_get prev h"
      by (intro fold_upd_view_other) blast
    have same: "m_get prev h = Some t" if n: "m_get nxt h = Some t" for t
    proof (rule ccontr)
      assume "m_get prev h \<noteq> Some t"
      then have "t \<in> set ?ch" "t_hash t = h"
        using n torrents_wfD(2)[OF assms n] by (simp_all add: full_changed_mem[OF assms])
      then show False using False by blast
    qed
    show ?thesis
    proof (cases "m_get nxt h")
      case None
      then show ?thesis by (cases "m_get prev h") (simp_all add: fold_del_view full_removed_mem keep)
    next
      case (Some t)
      with same[OF Some] show ?thesis by (simp add: fold_del_view full_removed_mem keep)
    qed
  qed
qed

lemma m_get_put_fun: "m_get (m_put k v m) = (m_get m)(k := Some v)"
  by (auto simp: gomap_simps)

lemma m_get_del_fun: "m_get (m_del k m) = (m_get m)(k := None)"
  by (auto simp: gomap_simps)

lemma delta_replay:
  assumes "delta_loop um kvs (prev, ch) = Inr (nxt, ch')" "fold upd_view ch v = m_get prev"
  shows "fold upd_view ch' v = m_get nxt"
  using assms
proof (induction kvs arbitrary: prev ch)
  case (Cons kv rest)
  obtain k raw where kv: "kv = (k, raw)" by force
  from Cons.prems kv obtain p where p: "validHash k" "um raw = Some p"
    by (auto split: if_splits option.splits)
  let ?t = "(apply_partial p (case m_get prev k of None \<Rightarrow> zero_torrent | Some t \<Rightarrow> t))\<lparr>t_hash := k\<rparr>"
  have rec: "delta_loop um rest (m_put k ?t prev, ch @ [?t]) = Inr (nxt, ch')"
    using Cons.prems(1) kv p by (simp add: Let_def)
  show ?case
    by (rule Cons.IH[OF rec]) (simp add: Cons.prems(2), simp add: upd_view_def m_get_put_fun)
qed simp

lemma removed_replay:
  assumes "removed_loop hs (nxt, rm) = (nxt', rm')" "fold del_view rm v = m_get nxt"
  shows "fold del_view rm' v = m_get nxt'"
  using assms
proof (induction hs arbitrary: nxt rm)
  case (Cons k hs)
  show ?case
  proof (cases "m_get nxt k")
    case None
    with Cons show ?thesis by simp
  next
    case (Some t)
    then have rec: "removed_loop hs (m_del k nxt, rm @ [k]) = (nxt', rm')"
      using Cons.prems(1) by simp
    show ?thesis
      by (rule Cons.IH[OF rec]) (simp add: Cons.prems(2), simp add: del_view_def m_get_del_fun)
  qed
qed simp

text \<open>The published change takes the previous committed torrents to the next ones.\<close>

lemma merge_replay:
  assumes "merge_torrents um prev md = Inr (nxt, ch, rm)"
  shows "replay \<lparr>ch_seq = n, ch_changed = ch, ch_removed = rm\<rparr> (m_get prev) = m_get nxt"
proof (cases "md_full md")
  case True
  with assms have f: "full_loop um (md_torrents md) m_empty = Inr nxt"
    "ch = full_changed prev nxt" "rm = full_removed prev nxt"
    by (auto simp: merge_torrents_def split: sum.splits)
  from full_replay[OF full_loop_wf[OF f(1) torrents_wf_empty]] f(2,3) show ?thesis
    by (simp add: replay_def)
next
  case False
  with assms obtain nxt0 where d: "delta_loop um (md_torrents md) (prev, []) = Inr (nxt0, ch)"
    "removed_loop (md_removed md) (nxt0, []) = (nxt, rm)"
    by (auto simp: merge_torrents_def Let_def split: sum.splits prod.splits)
  have "fold upd_view ch (m_get prev) = m_get nxt0"
    by (rule delta_replay[OF d(1)]) simp
  with removed_replay[OF d(2), of "fold upd_view ch (m_get prev)"] show ?thesis
    by (simp add: replay_def)
qed

lemma merge_unchanged:
  assumes "merge_torrents um prev md = Inr (nxt, [], [])"
  shows "m_get nxt = m_get prev"
  using merge_replay[OF assms, of 0] by (simp add: replay_def)

section \<open>Frame facts of the steps\<close>

lemma send_or_drop_frame:
  "s_cur (send_or_drop ch c s) = s_cur s" "s_epoch (send_or_drop ch c s) = s_epoch s"
  "s_backend (send_or_drop ch c s) = s_backend s" "s_rid (send_or_drop ch c s) = s_rid s"
  "s_ver (send_or_drop ch c s) = s_ver s" "s_authFails (send_or_drop ch c s) = s_authFails s"
  "s_sticky (send_or_drop ch c s) = s_sticky s" "s_class (send_or_drop ch c s) = s_class s"
  "s_kick (send_or_drop ch c s) = s_kick s"
  by (simp_all add: send_or_drop_def split: option.splits)

lemma fold_send_frame:
  "s_cur (fold (send_or_drop ch) cs s) = s_cur s" "s_epoch (fold (send_or_drop ch) cs s) = s_epoch s"
  "s_backend (fold (send_or_drop ch) cs s) = s_backend s"
  "s_rid (fold (send_or_drop ch) cs s) = s_rid s"
  "s_ver (fold (send_or_drop ch) cs s) = s_ver s"
  "s_authFails (fold (send_or_drop ch) cs s) = s_authFails s"
  "s_sticky (fold (send_or_drop ch) cs s) = s_sticky s"
  "s_class (fold (send_or_drop ch) cs s) = s_class s"
  "s_kick (fold (send_or_drop ch) cs s) = s_kick s"
  by (induction cs arbitrary: s) (simp_all add: send_or_drop_frame)

lemma publish_frame [simp]:
  "s_cur (publishToSubs ch s) = s_cur s" "s_epoch (publishToSubs ch s) = s_epoch s"
  "s_backend (publishToSubs ch s) = s_backend s" "s_rid (publishToSubs ch s) = s_rid s"
  "s_ver (publishToSubs ch s) = s_ver s" "s_authFails (publishToSubs ch s) = s_authFails s"
  "s_sticky (publishToSubs ch s) = s_sticky s" "s_class (publishToSubs ch s) = s_class s"
  "s_kick (publishToSubs ch s) = s_kick s"
  by (simp_all add: publishToSubs_def fold_send_frame)

lemma switch_fields:
  "s_cur (SwitchBackend b s) = switched_state (s_cur s)"
  "s_epoch (SwitchBackend b s) = Suc (s_epoch s)"
  "s_backend (SwitchBackend b s) = b" "s_rid (SwitchBackend b s) = 0"
  "s_ver (SwitchBackend b s) = False" "s_authFails (SwitchBackend b s) = 0"
  "s_sticky (SwitchBackend b s) = False" "s_kick (SwitchBackend b s) = True"
  by (simp_all add: SwitchBackend_def Let_def)

lemma switched_fields:
  "st_torrents (switched_state st) = m_empty" "st_ok (switched_state st) = False"
  "st_gen (switched_state st) = Suc (st_gen st)" "st_err (switched_state st) = StatusLoading"
  "st_free (switched_state st) = None" "st_dl (switched_state st) = 0"
  "st_up (switched_state st) = 0" "st_app (switched_state st) = []"
  by (simp_all add: switched_state_def)

lemma degraded_fields:
  "st_torrents (degraded_state e st) = st_torrents st" "st_ok (degraded_state e st) = False"
  "st_gen (degraded_state e st) = st_gen st" "st_err (degraded_state e st) = classify e"
  "st_free (degraded_state e st) = None" "st_dl (degraded_state e st) = 0"
  "st_up (degraded_state e st) = 0" "st_app (degraded_state e st) = st_app st"
  "st_api (degraded_state e st) = st_api st" "st_conn (degraded_state e st) = st_conn st"
  by (simp_all add: degraded_state_def)

lemma note_frame:
  "note_auth_failure e s = (c, s') \<Longrightarrow> s_cur s' = s_cur s \<and> s_epoch s' = s_epoch s
     \<and> s_backend s' = s_backend s \<and> s_rid s' = s_rid s \<and> s_ver s' = s_ver s
     \<and> s_subs s' = s_subs s \<and> s_chans s' = s_chans s \<and> s_kick s' = s_kick s \<and> c = errClass e"
  by (auto simp: note_auth_failure_def Let_def split: if_splits)

end
