(* ===== verification/SyncMachine.thy ===== *)
theory SyncMachine
  imports SyncerLemmas
begin

text \<open>
  The syncer under concurrency: the critical sections of the running cycle, interleaved in any
  order with backend switches, subscriptions, cancellations and receives. The cycle's program
  counter carries what the goroutine holds between its critical sections. Two ghost fields
  observe the subscribers: \<open>y_view c\<close> is the torrent map a client of channel \<open>c\<close> has built
  (the snapshot of \<open>Subscribe\<close>, then every received change replayed), \<open>y_seen c\<close> the last
  sequence number it received.

  The invariant \<open>sm_inv\<close> says that a cycle of the current epoch still holds the current state,
  and that every registered subscriber, once it has drained its channel, sees exactly the
  committed torrents.
\<close>

section \<open>The machine\<close>

datatype 'b pc =
    Idle
  | Begun "'b capture"
  | LoggedIn "'b capture"
  | Failed "'b capture" err
  | Built "'b capture" int state "torrent list" "string list"

record 'b machine =
  y_s :: "'b syncer"
  y_pc :: "'b pc"
  y_next :: nat
  y_view :: "nat \<Rightarrow> string \<Rightarrow> torrent option"
  y_seen :: "nat \<Rightarrow> nat"

datatype ('b, 'raw) sync_event =
    EBegin
  | ELogin "err option"
  | ESync "err + 'raw maindata"
  | EProbe "err + string" "err + string"
  | ECommit
  | EDegrade
  | ESwitch 'b
  | ESubscribe
  | ECancel nat
  | EReceive nat

definition start_pc :: "'b capture \<Rightarrow> 'b pc" where
  "start_pc c =
     (if c_sticky c then Failed c (Opaque ErrClassBadCredentials)
      else if \<not> st_ok (c_prev c) then Begun c else LoggedIn c)"

definition sm_init :: "'b machine \<Rightarrow> bool" where
  "sm_init y \<longleftrightarrow> (\<exists>b. y_s y = new_syncer b) \<and> y_pc y = Idle \<and> y_next y = 0"

inductive sm_step :: "('raw \<Rightarrow> partial_torrent option) \<Rightarrow> 'b machine \<Rightarrow> ('b, 'raw) sync_event \<Rightarrow>
    'b machine \<Rightarrow> bool" for um where
  sm_begin: "y_pc y = Idle \<Longrightarrow>
     sm_step um y EBegin (y\<lparr>y_pc := start_pc (cycle_begin (y_s y))\<rparr>)"
| sm_login_fail: "y_pc y = Begun c \<Longrightarrow> note_auth_failure e (y_s y) = (class, s') \<Longrightarrow>
     sm_step um y (ELogin (Some e)) (y\<lparr>y_s := s', y_pc := Failed c e\<rparr>)"
| sm_login_ok: "y_pc y = Begun c \<Longrightarrow>
     sm_step um y (ELogin None) (y\<lparr>y_s := login_ok (c_epoch c) (y_s y), y_pc := LoggedIn c\<rparr>)"
| sm_sync_fail: "y_pc y = LoggedIn c \<Longrightarrow> note_auth_failure e (y_s y) = (class, s') \<Longrightarrow>
     sm_step um y (ESync (Inl e)) (y\<lparr>y_s := s', y_pc := Failed c e\<rparr>)"
| sm_sync_bad: "y_pc y = LoggedIn c \<Longrightarrow> build_next um (c_prev c) md = Inl e \<Longrightarrow>
     sm_step um y (ESync (Inr md)) (y\<lparr>y_pc := Failed c e\<rparr>)"
| sm_sync_ok: "y_pc y = LoggedIn c \<Longrightarrow> m_ok (md_torrents md) \<Longrightarrow>
     build_next um (c_prev c) md = Inr (nxt, ch, rm) \<Longrightarrow>
     sm_step um y (ESync (Inr md)) (y\<lparr>y_pc := Built c (md_rid md) nxt ch rm\<rparr>)"
| sm_probe: "y_pc y = Built c rid nxt ch rm \<Longrightarrow> needs_probe c \<Longrightarrow>
     probe_versions app api nxt (y_s y) = (nxt', s') \<Longrightarrow>
     sm_step um y (EProbe app api) (y\<lparr>y_s := s', y_pc := Built c rid nxt' ch rm\<rparr>)"
| sm_commit: "y_pc y = Built c rid nxt ch rm \<Longrightarrow> commit c rid nxt ch rm (y_s y) = (ok, s') \<Longrightarrow>
     sm_step um y ECommit (y\<lparr>y_s := s', y_pc := Idle\<rparr>)"
| sm_degrade: "y_pc y = Failed c e \<Longrightarrow>
     sm_step um y EDegrade
       (y\<lparr>y_s := commit_degraded_epoch (c_epoch c) e (y_s y), y_pc := Idle\<rparr>)"
| sm_switch: "sm_step um y (ESwitch b) (y\<lparr>y_s := SwitchBackend b (y_s y)\<rparr>)"
| sm_subscribe: "Subscribe (y_next y) (y_s y) = (st, s') \<Longrightarrow>
     sm_step um y ESubscribe
       (y\<lparr>y_s := s', y_next := Suc (y_next y),
          y_view := (y_view y)(y_next y := m_get (st_torrents st)),
          y_seen := (y_seen y)(y_next y := st_gen st)\<rparr>)"
| sm_cancel: "sm_step um y (ECancel c) (y\<lparr>y_s := cancelSub c (y_s y)\<rparr>)"
| sm_receive: "m_get (s_chans (y_s y)) c = Some q \<Longrightarrow> ch_buf q = x # xs \<Longrightarrow>
     sm_step um y (EReceive c)
       (y\<lparr>y_s := (y_s y)\<lparr>s_chans := m_put c (q\<lparr>ch_buf := xs\<rparr>) (s_chans (y_s y))\<rparr>,
          y_view := (y_view y)(c := replay x (y_view y c)),
          y_seen := (y_seen y)(c := ch_seq x)\<rparr>)"

inductive_cases sm_stepE: "sm_step um y e y'"

section \<open>Publishing\<close>

definition deliver :: "change \<Rightarrow> chan \<Rightarrow> chan" where
  "deliver ch q = (if length (ch_buf q) < chan_cap then q\<lparr>ch_buf := ch_buf q @ [ch]\<rparr>
     else q\<lparr>ch_closed := True\<rparr>)"

definition has_room :: "'b syncer \<Rightarrow> nat \<Rightarrow> bool" where
  "has_room s c = (case m_get (s_chans s) c of None \<Rightarrow> True | Some q \<Rightarrow> length (ch_buf q) < chan_cap)"

lemma send_chans:
  "m_get (s_chans (send_or_drop ch k s)) c =
     (if c = k then map_option (deliver ch) (m_get (s_chans s) c) else m_get (s_chans s) c)"
  by (auto simp: send_or_drop_def deliver_def gomap_simps split: option.splits)

lemma send_subs:
  "s_subs (send_or_drop ch k s) = (if has_room s k then s_subs s else removeAll k (s_subs s))"
  by (auto simp: send_or_drop_def has_room_def split: option.splits)

lemma fold_send_chans:
  "distinct cs \<Longrightarrow> m_get (s_chans (fold (send_or_drop ch) cs s)) c =
     (if c \<in> set cs then map_option (deliver ch) (m_get (s_chans s) c) else m_get (s_chans s) c)"
  by (induction cs arbitrary: s) (auto simp: send_chans)

lemma has_room_other: "c \<noteq> k \<Longrightarrow> has_room (send_or_drop ch k s) c = has_room s c"
  by (simp add: has_room_def send_chans)

lemma fold_send_subs:
  "distinct cs \<Longrightarrow> s_subs (fold (send_or_drop ch) cs s) =
     filter (\<lambda>c. c \<in> set cs \<longrightarrow> has_room s c) (s_subs s)"
proof (induction cs arbitrary: s)
  case (Cons k cs)
  then have "s_subs (fold (send_or_drop ch) (k # cs) s) =
      filter (\<lambda>c. c \<in> set cs \<longrightarrow> has_room (send_or_drop ch k s) c) (s_subs (send_or_drop ch k s))"
    by simp
  moreover have "has_room (send_or_drop ch k s) c = has_room s c" if "c \<in> set cs" for c
    using Cons.prems that by (intro has_room_other) auto
  ultimately have "s_subs (fold (send_or_drop ch) (k # cs) s) =
      filter (\<lambda>c. c \<in> set cs \<longrightarrow> has_room s c) (s_subs (send_or_drop ch k s))"
    by (simp cong: filter_cong)
  also have "\<dots> = filter (\<lambda>c. c \<in> set (k # cs) \<longrightarrow> has_room s c) (s_subs s)"
    using Cons.prems by (auto simp: send_subs removeAll_filter_not_eq intro!: filter_cong)
  finally show ?case .
qed simp

lemma publish_chans:
  "distinct (s_subs s) \<Longrightarrow> m_get (s_chans (publishToSubs ch s)) c =
     (if c \<in> set (s_subs s) then map_option (deliver ch) (m_get (s_chans s) c)
      else m_get (s_chans s) c)"
  by (simp add: publishToSubs_def fold_send_chans)

lemma publish_subs:
  "distinct (s_subs s) \<Longrightarrow> s_subs (publishToSubs ch s) = filter (has_room s) (s_subs s)"
  by (simp add: publishToSubs_def fold_send_subs cong: filter_cong)

section \<open>The invariant\<close>

definition seqs_ok :: "nat \<Rightarrow> change list \<Rightarrow> nat \<Rightarrow> bool" where
  "seqs_ok seen buf gen \<longleftrightarrow> sorted_wrt (<) (seen # List.map ch_seq buf) \<and>
     (\<forall>x \<in> insert seen (ch_seq ` set buf). x \<le> gen)"

definition sub_ok :: "state \<Rightarrow> (string \<Rightarrow> torrent option) \<Rightarrow> nat \<Rightarrow> chan option \<Rightarrow> bool" where
  "sub_ok cur v seen q = (case q of None \<Rightarrow> False | Some q \<Rightarrow>
     \<not> ch_closed q \<and> length (ch_buf q) \<le> chan_cap \<and> seqs_ok seen (ch_buf q) (st_gen cur) \<and>
     fold replay (ch_buf q) v = m_get (st_torrents cur))"

definition capture_ok :: "'b syncer \<Rightarrow> 'b capture \<Rightarrow> bool" where
  "capture_ok s c \<longleftrightarrow> c_epoch c \<le> s_epoch s \<and> (c_epoch c = s_epoch s \<longrightarrow> c_prev c = s_cur s) \<and>
     torrents_wf (st_torrents (c_prev c))"

definition built_ok :: "'b capture \<Rightarrow> state \<Rightarrow> torrent list \<Rightarrow> string list \<Rightarrow> bool" where
  "built_ok c nxt ch rm \<longleftrightarrow> torrents_wf (st_torrents nxt) \<and>
     (\<forall>n. replay \<lparr>ch_seq = n, ch_changed = ch, ch_removed = rm\<rparr> (m_get (st_torrents (c_prev c)))
        = m_get (st_torrents nxt))"

fun pc_ok :: "'b syncer \<Rightarrow> 'b pc \<Rightarrow> bool" where
  "pc_ok s Idle = True"
| "pc_ok s (Begun c) = capture_ok s c"
| "pc_ok s (LoggedIn c) = capture_ok s c"
| "pc_ok s (Failed c e) = capture_ok s c"
| "pc_ok s (Built c rid nxt ch rm) = (capture_ok s c \<and> built_ok c nxt ch rm)"

definition sm_inv :: "'b machine \<Rightarrow> bool" where
  "sm_inv y \<longleftrightarrow> torrents_wf (st_torrents (s_cur (y_s y))) \<and> pc_ok (y_s y) (y_pc y)
     \<and> distinct (s_subs (y_s y))
     \<and> (\<forall>c \<in> set (s_subs (y_s y)). c < y_next y \<and>
          sub_ok (s_cur (y_s y)) (y_view y c) (y_seen y c) (m_get (s_chans (y_s y)) c))"

lemma sm_invD:
  assumes "sm_inv y"
  shows "torrents_wf (st_torrents (s_cur (y_s y)))" "pc_ok (y_s y) (y_pc y)"
    "distinct (s_subs (y_s y))"
    "c \<in> set (s_subs (y_s y)) \<Longrightarrow> c < y_next y"
    "c \<in> set (s_subs (y_s y)) \<Longrightarrow>
       sub_ok (s_cur (y_s y)) (y_view y c) (y_seen y c) (m_get (s_chans (y_s y)) c)"
  using assms by (auto simp: sm_inv_def)

text \<open>A step that moves neither the state, the epoch nor the subscribers keeps the invariant.\<close>

lemma sm_inv_same:
  assumes "sm_inv y" "s_cur s' = s_cur (y_s y)" "s_epoch s' = s_epoch (y_s y)"
    "s_subs s' = s_subs (y_s y)" "s_chans s' = s_chans (y_s y)" "pc_ok (y_s y) p"
  shows "sm_inv (y\<lparr>y_s := s', y_pc := p\<rparr>)"
proof -
  have "pc_ok s' p"
    using assms(2,3,6) by (cases p) (auto simp: capture_ok_def)
  then show ?thesis
    using assms(1-5) by (simp add: sm_inv_def)
qed

text \<open>Committing a state whose difference is published (or empty) keeps every view.\<close>

lemma sub_ok_publish:
  assumes sub: "sub_ok cur v seen (Some q)"
    and rep: "replay ch (m_get (st_torrents cur)) = m_get (st_torrents nxt)"
    and seq: "ch_seq ch = Suc (st_gen cur)" "st_gen nxt = Suc (st_gen cur)"
    and room: "length (ch_buf q) < chan_cap"
  shows "sub_ok nxt v seen (Some (deliver ch q))"
  using assms
  by (auto simp: sub_ok_def deliver_def seqs_ok_def sorted_wrt_append less_Suc_eq_le intro: le_SucI)

lemma sub_ok_silent:
  assumes "sub_ok cur v seen q" "m_get (st_torrents nxt) = m_get (st_torrents cur)"
    "st_gen cur \<le> st_gen nxt"
  shows "sub_ok nxt v seen q"
  using assms by (auto simp: sub_ok_def seqs_ok_def split: option.splits intro: le_trans)

definition advance_ok :: "state \<Rightarrow> state \<Rightarrow> torrent list \<Rightarrow> string list \<Rightarrow> bool" where
  "advance_ok cur nxt ch rm \<longleftrightarrow> torrents_wf (st_torrents nxt) \<and> st_gen nxt = Suc (st_gen cur) \<and>
     replay \<lparr>ch_seq = st_gen nxt, ch_changed = ch, ch_removed = rm\<rparr> (m_get (st_torrents cur))
       = m_get (st_torrents nxt)"

lemma sm_inv_publish:
  assumes inv: "sm_inv y" and s': "s_cur s' = nxt" "s_subs s' = s_subs (y_s y)"
    "s_chans s' = s_chans (y_s y)" and adv: "advance_ok (s_cur (y_s y)) nxt ch rm"
    and pc: "pc_ok (publishToSubs \<lparr>ch_seq = st_gen nxt, ch_changed = ch, ch_removed = rm\<rparr> s') p"
  shows "sm_inv (y\<lparr>y_s := publishToSubs \<lparr>ch_seq = st_gen nxt, ch_changed = ch, ch_removed = rm\<rparr> s',
      y_pc := p\<rparr>)"
    (is "sm_inv (y\<lparr>y_s := ?s, y_pc := p\<rparr>)")
proof -
  let ?ch = "\<lparr>ch_seq = st_gen nxt, ch_changed = ch, ch_removed = rm\<rparr>"
  have d: "distinct (s_subs s')"
    using sm_invD(3)[OF inv] s'(2) by simp
  have "sub_ok nxt (y_view y c) (y_seen y c) (m_get (s_chans ?s) c)" if "c \<in> set (s_subs ?s)" for c
  proof -
    have c: "c \<in> set (s_subs (y_s y))" "has_room s' c"
      using that d s'(2) by (auto simp: publish_subs)
    with sm_invD(5)[OF inv c(1)] obtain q where q: "m_get (s_chans (y_s y)) c = Some q"
      by (auto simp: sub_ok_def split: option.splits)
    have "sub_ok nxt (y_view y c) (y_seen y c) (Some (deliver ?ch q))"
      using sm_invD(5)[OF inv c(1)] q adv c(2) s'(3)
      by (intro sub_ok_publish[where cur = "s_cur (y_s y)"])
        (auto simp: advance_ok_def has_room_def)
    then show ?thesis
      using c q d s'(2,3) by (simp add: publish_chans)
  qed
  moreover have "c < y_next y" if "c \<in> set (s_subs ?s)" for c
    using that d s'(2) sm_invD(4)[OF inv] by (auto simp: publish_subs)
  moreover have "torrents_wf (st_torrents nxt)"
    using adv by (simp add: advance_ok_def)
  ultimately show ?thesis
    using pc d s'(1) by (simp add: sm_inv_def publish_subs)
qed

lemma sm_inv_silent:
  assumes inv: "sm_inv y" and s': "s_cur s' = nxt" "s_subs s' = s_subs (y_s y)"
    "s_chans s' = s_chans (y_s y)"
    and cur: "torrents_wf (st_torrents nxt)" "st_gen (s_cur (y_s y)) \<le> st_gen nxt"
    "m_get (st_torrents nxt) = m_get (st_torrents (s_cur (y_s y)))"
    and pc: "pc_ok s' p"
  shows "sm_inv (y\<lparr>y_s := s', y_pc := p\<rparr>)"
  using sm_invD[OF inv] s' cur pc by (auto simp: sm_inv_def intro: sub_ok_silent)

section \<open>The steps keep the invariant\<close>

lemma capture_begin: "torrents_wf (st_torrents (s_cur s)) \<Longrightarrow> capture_ok s (cycle_begin s)"
  by (simp add: capture_ok_def cycle_begin_def)

lemma build_next_ok:
  assumes "build_next um prev md = Inr (nxt, ch, rm)" "torrents_wf (st_torrents prev)"
  shows "torrents_wf (st_torrents nxt)"
    "replay \<lparr>ch_seq = n, ch_changed = ch, ch_removed = rm\<rparr> (m_get (st_torrents prev))
      = m_get (st_torrents nxt)"
    "st_ok nxt" "st_err nxt = []"
proof -
  from assms(1) obtain ts where ts: "merge_torrents um (st_torrents prev) md = Inr (ts, ch, rm)"
    "st_torrents nxt = ts" "st_ok nxt" "st_err nxt = []"
    by (auto simp: build_next_def merge_server_def zero_state_def Let_def split: sum.splits option.splits)
  show "torrents_wf (st_torrents nxt)" "st_ok nxt" "st_err nxt = []"
    using merge_torrents_wf[OF ts(1) assms(2)] ts by simp_all
  show "replay \<lparr>ch_seq = n, ch_changed = ch, ch_removed = rm\<rparr> (m_get (st_torrents prev))
      = m_get (st_torrents nxt)"
    using merge_replay[OF ts(1)] ts(2) by simp
qed

lemma probe_frame:
  "probe_versions app api nxt s = (nxt', s') \<Longrightarrow> st_torrents nxt' = st_torrents nxt \<and>
     s_cur s' = s_cur s \<and> s_epoch s' = s_epoch s \<and> s_subs s' = s_subs s \<and> s_chans s' = s_chans s
     \<and> st_ok nxt' = st_ok nxt \<and> st_err nxt' = st_err nxt"
  by (auto simp: probe_versions_def split: sum.splits)

lemma pc_ok_switch:
  assumes "pc_ok s p" shows "pc_ok (SwitchBackend b s) p"
  using assms by (cases p) (auto simp: capture_ok_def switch_fields)

lemma switch_replay:
  "replay \<lparr>ch_seq = n, ch_changed = [], ch_removed = m_keys ts\<rparr> (m_get ts) = m_get m_empty"
proof
  fix h
  show "replay \<lparr>ch_seq = n, ch_changed = [], ch_removed = m_keys ts\<rparr> (m_get ts) h = m_get m_empty h"
    using gm.in_keys[of h ts] by (simp add: replay_def fold_del_view gomap_simps)
qed

lemma sm_inv_kick:
  assumes "sm_inv y" shows "sm_inv (y\<lparr>y_s := (y_s y)\<lparr>s_kick := k\<rparr>\<rparr>)"
proof -
  have "pc_ok ((y_s y)\<lparr>s_kick := k\<rparr>) (y_pc y)"
    using sm_invD(2)[OF assms] by (cases "y_pc y") (auto simp: capture_ok_def)
  then show ?thesis
    using assms by (simp add: sm_inv_def)
qed

lemma sm_switch_inv:
  assumes "sm_inv y" shows "sm_inv (y\<lparr>y_s := SwitchBackend b (y_s y)\<rparr>)"
proof -
  let ?s = "y_s y"
  let ?nxt = "switched_state (s_cur ?s)"
  let ?s1 = "?s\<lparr>s_backend := b, s_epoch := Suc (s_epoch ?s), s_rid := 0, s_ver := False,
      s_authFails := 0, s_sticky := False, s_cur := ?nxt\<rparr>"
  let ?rm = "m_keys (st_torrents (s_cur ?s))"
  let ?s2 = "if ?rm \<noteq> [] then publishToSubs \<lparr>ch_seq = st_gen ?nxt, ch_changed = [], ch_removed = ?rm\<rparr> ?s1
             else ?s1"
  have pc: "pc_ok ?s2 (y_pc y)"
    using sm_invD(2)[OF assms] by (cases "y_pc y") (auto simp: capture_ok_def)
  have "sm_inv (y\<lparr>y_s := ?s2, y_pc := y_pc y\<rparr>)"
  proof (cases "?rm = []")
    case True
    then have "st_torrents (s_cur ?s) = m_empty"
      by (simp add: m_keys_def m_empty_def)
    with True pc sm_inv_silent[OF assms, of ?s1 ?nxt "y_pc y"] show ?thesis
      by (simp add: switched_fields torrents_wf_empty)
  next
    case False
    with pc sm_inv_publish[OF assms, of ?s1 ?nxt "[]" ?rm "y_pc y"] show ?thesis
      by (simp add: advance_ok_def switched_fields torrents_wf_empty switch_replay)
  qed
  then have "sm_inv (y\<lparr>y_s := ?s2\<rparr>)" by simp
  from sm_inv_kick[OF this, of True] show ?thesis
    by (simp add: SwitchBackend_def Let_def)
qed

lemma commit_stale: "s_epoch s \<noteq> c_epoch c \<Longrightarrow> commit c rid nxt ch rm s = (False, s)"
  by (simp add: commit_def Let_def)

lemma sm_commit_inv:
  assumes inv: "sm_inv y" and pc: "y_pc y = Built c rid nxt ch rm"
    and cm: "commit c rid nxt ch rm (y_s y) = (ok, s')"
  shows "sm_inv (y\<lparr>y_s := s', y_pc := Idle\<rparr>)"
proof (cases "s_epoch (y_s y) = c_epoch c")
  case False
  with cm have "s' = y_s y" by (simp add: commit_stale)
  then show ?thesis
    by (intro sm_inv_same[OF inv]) simp_all
next
  case True
  let ?n = "nxt\<lparr>st_gen := Suc (st_gen (c_prev c))\<rparr>"
  let ?s1 = "(y_s y)\<lparr>s_cur := ?n, s_rid := rid\<rparr>"
  have prev: "c_prev c = s_cur (y_s y)" and built: "built_ok c nxt ch rm"
    using sm_invD(2)[OF inv] pc True by (simp_all add: capture_ok_def)
  have adv: "advance_ok (s_cur (y_s y)) ?n ch rm"
    using built prev by (simp add: built_ok_def advance_ok_def)
  show ?thesis
  proof (cases "ch \<noteq> [] \<or> rm \<noteq> [] \<or> \<not> st_ok (c_prev c)")
    case True
    with cm \<open>s_epoch (y_s y) = c_epoch c\<close>
    have "s' = publishToSubs \<lparr>ch_seq = st_gen ?n, ch_changed = ch, ch_removed = rm\<rparr> ?s1"
      by (auto simp: commit_def Let_def)
    then show ?thesis
      using sm_inv_publish[OF inv _ _ _ adv, of ?s1 Idle] by simp
  next
    case False
    with cm \<open>s_epoch (y_s y) = c_epoch c\<close> have "s' = ?s1"
      by (auto simp: commit_def Let_def)
    moreover have "m_get (st_torrents ?n) = m_get (st_torrents (s_cur (y_s y)))"
      using adv False by (simp add: advance_ok_def replay_def)
    ultimately show ?thesis
      using adv sm_inv_silent[OF inv, of s' ?n Idle] by (simp add: advance_ok_def)
  qed
qed

lemma sm_degrade_inv:
  assumes inv: "sm_inv y"
  shows "sm_inv (y\<lparr>y_s := commit_degraded_epoch ep e (y_s y), y_pc := Idle\<rparr>)"
proof (cases "s_epoch (y_s y) = ep")
  case True
  then show ?thesis
    using sm_invD(1)[OF inv]
      sm_inv_silent[OF inv, of "commit_degraded_epoch ep e (y_s y)" "degraded_state e (s_cur (y_s y))" Idle]
    by (simp add: commit_degraded_epoch_def degraded_fields)
next
  case False
  then show ?thesis
    by (intro sm_inv_same[OF inv]) (auto simp: commit_degraded_epoch_def)
qed

lemma sm_subscribe_inv:
  assumes inv: "sm_inv y" and sub: "Subscribe (y_next y) (y_s y) = (st, s')"
  shows "sm_inv (y\<lparr>y_s := s', y_next := Suc (y_next y),
          y_view := (y_view y)(y_next y := m_get (st_torrents st)),
          y_seen := (y_seen y)(y_next y := st_gen st)\<rparr>)"
proof -
  have st: "st = s_cur (y_s y)" and s': "s' = (y_s y)\<lparr>s_subs := y_next y # s_subs (y_s y),
      s_chans := m_put (y_next y) \<lparr>ch_buf = [], ch_closed = False\<rparr> (s_chans (y_s y))\<rparr>"
    using sub by (auto simp: Subscribe_def)
  have "pc_ok s' (y_pc y)"
    using sm_invD(2)[OF inv] s' by (cases "y_pc y") (auto simp: capture_ok_def)
  moreover have "y_next y \<notin> set (s_subs (y_s y))"
    using sm_invD(4)[OF inv] by blast
  ultimately show ?thesis
    using sm_invD[OF inv] st s'
    by (auto simp: sm_inv_def gomap_simps sub_ok_def seqs_ok_def less_Suc_eq)
qed

lemma sm_cancel_inv:
  assumes inv: "sm_inv y" shows "sm_inv (y\<lparr>y_s := cancelSub c (y_s y)\<rparr>)"
proof -
  have "pc_ok (cancelSub c (y_s y)) (y_pc y)"
    using sm_invD(2)[OF inv] by (cases "y_pc y") (auto simp: capture_ok_def cancelSub_def)
  then show ?thesis
    using sm_invD[OF inv]
    by (auto simp: sm_inv_def cancelSub_def gomap_simps distinct_removeAll split: option.splits)
qed

lemma sm_receive_inv:
  assumes inv: "sm_inv y" and q: "m_get (s_chans (y_s y)) c = Some q" "ch_buf q = x # xs"
  shows "sm_inv (y\<lparr>y_s := (y_s y)\<lparr>s_chans := m_put c (q\<lparr>ch_buf := xs\<rparr>) (s_chans (y_s y))\<rparr>,
          y_view := (y_view y)(c := replay x (y_view y c)),
          y_seen := (y_seen y)(c := ch_seq x)\<rparr>)"
proof -
  have "pc_ok ((y_s y)\<lparr>s_chans := m_put c (q\<lparr>ch_buf := xs\<rparr>) (s_chans (y_s y))\<rparr>) (y_pc y)"
    using sm_invD(2)[OF inv] by (cases "y_pc y") (auto simp: capture_ok_def)
  moreover have "sub_ok (s_cur (y_s y)) (replay x (y_view y c)) (ch_seq x) (Some (q\<lparr>ch_buf := xs\<rparr>))"
    if "c \<in> set (s_subs (y_s y))"
    using sm_invD(5)[OF inv that] q by (auto simp: sub_ok_def seqs_ok_def)
  ultimately show ?thesis
    using sm_invD[OF inv] by (auto simp: sm_inv_def gomap_simps)
qed

lemma sm_init_inv: "sm_init y \<Longrightarrow> sm_inv y"
  by (auto simp: sm_init_def sm_inv_def new_syncer_def zero_state_def torrents_wf_empty)

lemma sm_step_inv:
  assumes step: "sm_step um y e y'" and inv: "sm_inv y"
  shows "sm_inv y'"
  using step
proof cases
  case sm_begin
  then show ?thesis
    using capture_begin[OF sm_invD(1)[OF inv]] sm_inv_same[OF inv, of "y_s y" "start_pc (cycle_begin (y_s y))"]
    by (simp add: start_pc_def)
next
  case (sm_login_fail c e cl s')
  then show ?thesis
    using note_frame[OF sm_login_fail(4)] sm_invD(2)[OF inv] sm_inv_same[OF inv, of s' "Failed c e"]
    by simp
next
  case (sm_login_ok c)
  then show ?thesis
    using sm_invD(2)[OF inv] sm_inv_same[OF inv, of "login_ok (c_epoch c) (y_s y)" "LoggedIn c"]
    by (simp add: login_ok_def)
next
  case (sm_sync_fail c e cl s')
  then show ?thesis
    using note_frame[OF sm_sync_fail(4)] sm_invD(2)[OF inv] sm_inv_same[OF inv, of s' "Failed c e"]
    by simp
next
  case (sm_sync_bad c md e)
  then show ?thesis
    using sm_invD(2)[OF inv] sm_inv_same[OF inv, of "y_s y" "Failed c e"] by simp
next
  case (sm_sync_ok c md nxt ch rm)
  then have "built_ok c nxt ch rm"
    using build_next_ok[OF sm_sync_ok(5)] sm_invD(2)[OF inv] by (simp add: built_ok_def capture_ok_def)
  then show ?thesis
    using sm_sync_ok sm_invD(2)[OF inv] sm_inv_same[OF inv, of "y_s y"] by simp
next
  case (sm_probe c rid nxt ch rm app api nxt' s')
  then show ?thesis
    using probe_frame[OF sm_probe(5)] sm_invD(2)[OF inv]
      sm_inv_same[OF inv, of s' "Built c rid nxt' ch rm"]
    by (simp add: built_ok_def)
next
  case (sm_commit c rid nxt ch rm ok s')
  then show ?thesis using sm_commit_inv[OF inv] by simp
next
  case (sm_degrade c e)
  then show ?thesis using sm_degrade_inv[OF inv] by simp
next
  case (sm_switch b)
  then show ?thesis using sm_switch_inv[OF inv] by simp
next
  case (sm_subscribe st s')
  then show ?thesis using sm_subscribe_inv[OF inv] by simp
next
  case (sm_cancel c)
  then show ?thesis using sm_cancel_inv[OF inv] by simp
next
  case (sm_receive c q x xs)
  then show ?thesis using sm_receive_inv[OF inv] by simp
qed

interpretation sm: transition sm_init "sm_step um" sm_inv
  for um :: "'raw \<Rightarrow> partial_torrent option"
  by unfold_locales (auto intro: sm_init_inv sm_step_inv)

end
