(* ===== verification/SyncProps.thy ===== *)
theory SyncProps
  imports SyncMachine
begin

text \<open>
  The properties of the synchronization: what one whole cycle does on success and on every
  failure, that the committed torrents do not depend on Go's map iteration order, the
  subscribers' view under every interleaving, the discarded stale-epoch commits, and the
  authentication frugality with its two gaps.
\<close>

section \<open>One cycle\<close>

lemma commit_now:
  "c_epoch c = s_epoch s \<Longrightarrow> commit c rid nxt ch rm s = (ok, s') \<Longrightarrow>
     ok \<and> s_cur s' = nxt\<lparr>st_gen := Suc (st_gen (c_prev c))\<rparr> \<and> s_rid s' = rid \<and> s_epoch s' = s_epoch s
     \<and> s_authFails s' = s_authFails s \<and> s_sticky s' = s_sticky s"
  by (auto simp: commit_def Let_def split: if_splits)

lemma probe_fields:
  "probe_versions app api nxt s = (nxt', s') \<Longrightarrow> s_authFails s' = s_authFails s \<and>
     s_sticky s' = s_sticky s \<and> st_dl nxt' = st_dl nxt \<and> st_up nxt' = st_up nxt \<and>
     st_free nxt' = st_free nxt \<and> st_conn nxt' = st_conn nxt"
  by (auto simp: probe_versions_def split: sum.splits)

lemma login_ok_frame:
  "s_cur (login_ok ep s) = s_cur s" "s_epoch (login_ok ep s) = s_epoch s"
  "s_subs (login_ok ep s) = s_subs s" "s_chans (login_ok ep s) = s_chans s"
  "s_sticky (login_ok ep s) = s_sticky s" "s_rid (login_ok ep s) = s_rid s"
  "s_ver (login_ok ep s) = s_ver s"
  by (simp_all add: login_ok_def)

definition failed_from :: "'b syncer \<Rightarrow> 'b syncer \<Rightarrow> bool" where
  "failed_from s s' \<longleftrightarrow> (\<exists>e. s_cur s' = degraded_state e (s_cur s)) \<and> s_rid s' = 0 \<and> \<not> s_ver s'
     \<and> s_epoch s' = s_epoch s \<and> s_subs s' = s_subs s \<and> s_chans s' = s_chans s"

text \<open>The versions after a successful cycle: two answered probes, where a probe is due, else the known ones.\<close>

definition versions_after :: "'raw answers \<Rightarrow> 'b syncer \<Rightarrow> string \<times> string" where
  "versions_after an s =
     (if s_ver s \<and> st_ok (s_cur s) \<and> st_app (s_cur s) \<noteq> [] then (st_app (s_cur s), st_api (s_cur s))
      else case (an_app an, an_api an) of (Inr a, Inr w) \<Rightarrow> (a, w) | _ \<Rightarrow> (st_app (s_cur s), st_api (s_cur s)))"

lemma versions_after_login: "versions_after an (login_ok ep s) = versions_after an s"
  by (cases "an_app an"; cases "an_api an") (auto simp: versions_after_def login_ok_def)

text \<open>A field of the payload's \<open>server_state\<close>, or the previous value where the payload does not have it.\<close>

definition server_value :: "(server_state \<Rightarrow> 'v option) \<Rightarrow> 'raw maindata \<Rightarrow> 'v \<Rightarrow> 'v" where
  "server_value field md old = (case Option.bind (md_server md) field of None \<Rightarrow> old | Some v \<Rightarrow> v)"

definition committed_from :: "('raw \<Rightarrow> partial_torrent option) \<Rightarrow> 'raw answers \<Rightarrow> 'b syncer \<Rightarrow>
    'b syncer \<Rightarrow> bool" where
  "committed_from um an s s' \<longleftrightarrow>
     (\<exists>md nxt ch rm. an_sync an = Inr md \<and> build_next um (s_cur s) md = Inr (nxt, ch, rm)
       \<and> st_torrents (s_cur s') = st_torrents nxt \<and> st_gen (s_cur s') = Suc (st_gen (s_cur s))
       \<and> st_ok (s_cur s') \<and> st_err (s_cur s') = [] \<and> s_rid s' = md_rid md
       \<and> st_dl (s_cur s') = st_dl nxt \<and> st_up (s_cur s') = st_up nxt
       \<and> st_free (s_cur s') = st_free nxt \<and> st_conn (s_cur s') = st_conn nxt
       \<and> (st_app (s_cur s'), st_api (s_cur s')) = versions_after an s)"

lemma degrade_now:
  "s_epoch s = ep \<Longrightarrow> commit_degraded_epoch ep e s =
     s\<lparr>s_cur := degraded_state e (s_cur s), s_rid := 0, s_ver := False\<rparr>"
  by (simp add: commit_degraded_epoch_def)

lemma cycle_sync_cases:
  assumes "cycle_sync um an c s = (ok, s', calls)" "c_prev c = s_cur s" "c_epoch c = s_epoch s" "c_ver c = s_ver s"
  shows "if ok then committed_from um an s s' else failed_from s s'"
proof (cases "an_sync an")
  case (Inl e)
  then show ?thesis
    using assms by (auto simp: cycle_sync_def failed_from_def degrade_now dest!: note_frame
        split: prod.splits)
next
  case (Inr md)
  show ?thesis
  proof (cases "build_next um (c_prev c) md")
    case (Inl e)
    with Inr show ?thesis
      using assms by (auto simp: cycle_sync_def failed_from_def degrade_now)
  next
    case b: (Inr r)
    obtain nxt ch rm where r: "r = (nxt, ch, rm)" by (cases r)
    obtain nxt1 s1 where p: "(if needs_probe c then probe_versions (an_app an) (an_api an) nxt s
        else (nxt, s)) = (nxt1, s1)" by force
    obtain ok2 s2 where cm: "commit c (md_rid md) nxt1 ch rm s1 = (ok2, s2)" by force
    have pf: "st_torrents nxt1 = st_torrents nxt" "s_epoch s1 = s_epoch s" "st_ok nxt1 = st_ok nxt"
      "st_err nxt1 = st_err nxt" "st_dl nxt1 = st_dl nxt" "st_up nxt1 = st_up nxt"
      "st_free nxt1 = st_free nxt" "st_conn nxt1 = st_conn nxt"
      using p probe_frame[of "an_app an" "an_api an" nxt s nxt1 s1]
        probe_fields[of "an_app an" "an_api an" nxt s nxt1 s1]
      by (auto split: if_splits)
    have nx: "st_ok nxt" "st_err nxt = []"
      using b r by (auto simp: build_next_def merge_server_def zero_state_def Let_def
          split: sum.splits option.splits)
    have "st_app nxt = st_app (s_cur s)" "st_api nxt = st_api (s_cur s)"
      using b r assms(2) by (auto simp: build_next_def merge_server_def zero_state_def Let_def
          split: sum.splits option.splits)
    then have vs: "(st_app nxt1, st_api nxt1) = versions_after an s"
      using p assms(2,4) by (auto simp: versions_after_def needs_probe_def probe_versions_def split: if_splits sum.splits)
    have "ok = ok2" "s' = s2\<lparr>s_class := []\<rparr>"
      using assms(1) Inr b r p cm by (auto simp: cycle_sync_def)
    then show ?thesis
      using commit_now[OF _ cm] assms(2,3) pf nx vs Inr b r by (auto simp: committed_from_def)
  qed
qed

lemma cycle_cases:
  assumes "cycle um an s = (ok, s', calls)"
  shows "if ok then committed_from um an s s' else failed_from s s'"
proof -
  let ?c = "cycle_begin s"
  have c: "c_prev ?c = s_cur s" "c_epoch ?c = s_epoch s" "c_sticky ?c = s_sticky s" "c_ver ?c = s_ver s"
    by (simp_all add: cycle_begin_def)
  consider (sticky) "s_sticky s" | (login) "\<not> s_sticky s" "\<not> st_ok (s_cur s)"
    | (sync) "\<not> s_sticky s" "st_ok (s_cur s)" by blast
  then show ?thesis
  proof cases
    case sticky
    then show ?thesis
      using assms c by (auto simp: cycle_def Let_def failed_from_def degrade_now)
  next
    case login
    show ?thesis
    proof (cases "an_login an")
      case None
      then obtain calls' where "cycle_sync um an ?c (login_ok (s_epoch s) s) = (ok, s', calls')"
        using assms login c by (auto simp: cycle_def Let_def split: prod.splits)
      from cycle_sync_cases[OF this] c show ?thesis
        by (cases ok) (simp_all add: login_ok_frame committed_from_def failed_from_def versions_after_login)
    next
      case (Some e)
      then show ?thesis
        using assms login c
        by (auto simp: cycle_def Let_def failed_from_def degrade_now dest!: note_frame
            split: prod.splits)
    qed
  next
    case sync
    then have "cycle_sync um an ?c s = (ok, s', calls)"
      using assms c by (simp add: cycle_def Let_def)
    from cycle_sync_cases[OF this] c show ?thesis by simp
  qed
qed

section \<open>A run of cycles against a backend that rejects every login\<close>

fun run_cycles :: "('raw \<Rightarrow> partial_torrent option) \<Rightarrow> 'raw answers list \<Rightarrow> 'b syncer \<Rightarrow>
    'b syncer \<times> bcall list" where
  "run_cycles um [] s = (s, [])"
| "run_cycles um (an # ans) s =
     (let (ok, s1, calls) = cycle um an s; (s2, more) = run_cycles um ans s1
      in (s2, calls @ more))"

definition parked_after :: "nat \<Rightarrow> 'b syncer \<Rightarrow> bool" where
  "parked_after k s \<longleftrightarrow> \<not> st_ok (s_cur s) \<and> s_authFails s = k \<and> (s_sticky s \<longleftrightarrow> StickyAuthFails \<le> k)"

lemma rejected_cycle:
  assumes "parked_after k s" "an_login an = Some e" "errClass e = ''auth''" "k < StickyAuthFails"
  shows "\<exists>s'. cycle um an s = (False, s', [CLogin]) \<and> parked_after (Suc k) s'"
  using assms
  by (auto simp: parked_after_def cycle_def cycle_begin_def Let_def note_auth_failure_def
      degrade_now degraded_fields)

lemma parked_cycle:
  assumes "parked_after k s" "StickyAuthFails \<le> k"
  shows "\<exists>s'. cycle um an s = (False, s', []) \<and> parked_after k s'"
  using assms
  by (auto simp: parked_after_def cycle_def cycle_begin_def Let_def degrade_now degraded_fields)

lemma run_rejected:
  assumes "\<forall>an \<in> set ans. \<exists>e. an_login an = Some e \<and> errClass e = ''auth''" "parked_after k s"
  shows "snd (run_cycles um ans s) = replicate (min (length ans) (StickyAuthFails - k)) CLogin"
  using assms
proof (induction ans arbitrary: k s)
  case (Cons an ans)
  show ?case
  proof (cases "k < StickyAuthFails")
    case True
    then obtain s' where s': "cycle um an s = (False, s', [CLogin])" "parked_after (Suc k) s'"
      using rejected_cycle[OF Cons.prems(2)] Cons.prems(1) by force
    with Cons have "snd (run_cycles um ans s') = replicate (min (length ans) (StickyAuthFails - Suc k)) CLogin"
      by simp
    moreover have "min (length (an # ans)) (StickyAuthFails - k) =
        Suc (min (length ans) (StickyAuthFails - Suc k))"
      using True by simp
    ultimately show ?thesis
      using s' by (simp add: split_beta)
  next
    case False
    then obtain s' where s': "cycle um an s = (False, s', [])" "parked_after k s'"
      using parked_cycle[OF Cons.prems(2)] by force
    with Cons have "snd (run_cycles um ans s') = replicate (min (length ans) (StickyAuthFails - k)) CLogin"
      by simp
    with s' False show ?thesis
      by (simp add: split_beta)
  qed
qed simp

lemma reachable_sm_inv: "reachable sm_init (sm_step um) y \<Longrightarrow> sm_inv y"
  by (rule sm.reachable_inv)

section \<open>Concrete inputs for the witnesses\<close>

definition demo_hash :: string where
  "demo_hash = replicate 40 (CHR ''a'')"

definition demo_md :: "unit maindata" where
  "demo_md = \<lparr>md_rid = 7, md_full = True, md_torrents = [(demo_hash, ())], md_removed = [],
     md_server = None\<rparr>"

definition demo_um :: "unit \<Rightarrow> partial_torrent option" where
  "demo_um _ = Some (no_fields\<lparr>p_state := Some ''uploading''\<rparr>)"

definition demo_answers :: "unit answers" where
  "demo_answers = \<lparr>an_login = None, an_sync = Inr demo_md, an_app = Inr ''v5.2.3'',
     an_api = Inr ''2.15.1''\<rparr>"

definition rejecting_answers :: "unit answers" where
  "rejecting_answers = demo_answers\<lparr>an_login := Some (Wrapped ErrBadCredentials)\<rparr>"

lemma demo_hash_valid: "validHash demo_hash"
  by (simp add: validHash_def demo_hash_def is_hex_def is_lower_hex_def is_digit_def list_all_iff)

lemma demo_build: "\<exists>nxt ch rm. build_next demo_um (s_cur (new_syncer ())) demo_md = Inr (nxt, ch, rm)
    \<and> m_get (st_torrents nxt) demo_hash \<noteq> None"
  by (auto simp: build_next_def merge_torrents_def demo_md_def demo_um_def demo_hash_valid
      decodeFull_def merge_server_def zero_state_def new_syncer_def gomap_simps)

text \<open>A run of the machine in which a subscriber registers and a first cycle commits a torrent.\<close>

lemma demo_run:
  "\<exists>y :: unit machine. reachable sm_init (sm_step demo_um) y \<and> 0 \<in> set (s_subs (y_s y))
     \<and> m_get (st_torrents (s_cur (y_s y))) demo_hash \<noteq> None
     \<and> (\<exists>q. m_get (s_chans (y_s y)) 0 = Some q \<and> length (ch_buf q) = 1)"
proof -
  define y0 :: "unit machine" where
    "y0 = \<lparr>y_s = new_syncer (), y_pc = Idle, y_next = 0, y_view = (\<lambda>_ _. None), y_seen = (\<lambda>_. 0)\<rparr>"
  let ?R = "reachable sm_init (sm_step demo_um)"
  have r0: "?R y0"
    by (rule reach_init) (auto simp: sm_init_def y0_def)
  obtain st s1 where sub: "Subscribe (y_next y0) (y_s y0) = (st, s1)" by force
  define y1 where "y1 = y0\<lparr>y_s := s1, y_next := Suc (y_next y0),
          y_view := (y_view y0)(y_next y0 := m_get (st_torrents st)),
          y_seen := (y_seen y0)(y_next y0 := st_gen st)\<rparr>"
  have r1: "?R y1"
    using reach_step[OF r0, OF sm_subscribe[OF sub]] by (simp only: y1_def)
  define c where "c = cycle_begin (y_s y1)"
  have s1: "s1 = (new_syncer ())\<lparr>s_subs := [0], s_chans := [(0, \<lparr>ch_buf = [], ch_closed = False\<rparr>)]\<rparr>"
    using sub by (auto simp: y0_def Subscribe_def new_syncer_def m_put_def m_empty_def)
  have p1: "y_pc y1 = Idle" "start_pc c = Begun c"
    by (simp_all add: y1_def y0_def c_def start_pc_def cycle_begin_def s1 new_syncer_def zero_state_def)
  have r2: "?R (y1\<lparr>y_pc := Begun c\<rparr>)"
    using reach_step[OF r1, OF sm_begin[OF p1(1)]] p1(2) by (simp add: c_def)
  have r3: "?R (y1\<lparr>y_s := login_ok (c_epoch c) (y_s y1), y_pc := LoggedIn c\<rparr>)"
    using reach_step[OF r2, OF sm_login_ok[where c = c]] by simp
  have prev: "c_prev c = s_cur (new_syncer ())"
    by (simp add: c_def y1_def cycle_begin_def s1)
  obtain nxt ch rm where b: "build_next demo_um (c_prev c) demo_md = Inr (nxt, ch, rm)"
    "m_get (st_torrents nxt) demo_hash \<noteq> None"
    using demo_build prev by metis
  have r4: "?R (y1\<lparr>y_s := login_ok (c_epoch c) (y_s y1), y_pc := Built c (md_rid demo_md) nxt ch rm\<rparr>)"
    using reach_step[OF r3, OF sm_sync_ok[OF _ _ b(1)]] by (simp add: demo_md_def m_ok_Cons m_get_Nil m_ok_Nil)
  obtain ok s' where cm: "commit c (md_rid demo_md) nxt ch rm (login_ok (c_epoch c) (y_s y1)) = (ok, s')"
    by force
  have r5: "?R (y1\<lparr>y_s := s', y_pc := Idle\<rparr>)"
    using reach_step[OF r4, OF sm_commit] cm by simp
  have "0 \<in> set (s_subs s') \<and> m_get (st_torrents (s_cur s')) demo_hash \<noteq> None
     \<and> (\<exists>q. m_get (s_chans s') 0 = Some q \<and> length (ch_buf q) = 1)"
    using cm b(2)
    by (auto simp: commit_def Let_def c_def y1_def cycle_begin_def s1 login_ok_def new_syncer_def
        zero_state_def publish_subs publish_chans has_room_def m_get_Cons m_get_Nil deliver_def chan_cap_def
        split: if_splits)
  with r5 show ?thesis
    by (intro exI[of _ "y1\<lparr>y_s := s', y_pc := Idle\<rparr>"]) simp
qed

section \<open>Properties\<close>

text \<open>
  C1. Whatever the interleaving of sync cycles, backend switches, subscriptions, cancellations
  and receives, a registered subscriber that drains its channel sees exactly the committed
  torrents: the snapshot it got from Subscribe, with every change received and still buffered
  replayed on it, is the current torrent map. In particular no delta is lost between the
  snapshot and the registration, and none of the old backend's rows survive a switch.
\<close>

theorem subscriber_view_is_committed:
  assumes "reachable sm_init (sm_step um) y" "c \<in> set (s_subs (y_s y))"
  shows "\<exists>q. m_get (s_chans (y_s y)) c = Some q \<and> \<not> ch_closed q \<and>
     fold replay (ch_buf q) (y_view y c) = m_get (st_torrents (s_cur (y_s y)))"
  using sm_invD(5)[OF reachable_sm_inv[OF assms(1)] assms(2)]
  by (auto simp: sub_ok_def split: option.splits)

theorem subscriber_view_witness:
  "\<exists>(y :: unit machine) q. reachable sm_init (sm_step demo_um) y \<and> m_get (s_chans (y_s y)) 0 = Some q \<and>
     m_get (st_torrents (s_cur (y_s y))) demo_hash \<noteq> None \<and>
     fold replay (ch_buf q) (y_view y 0) = m_get (st_torrents (s_cur (y_s y)))"
  using demo_run subscriber_view_is_committed[where um = demo_um and c = 0] by metis

text \<open>
  The sequence numbers a subscriber receives are strictly increasing: what it has last seen
  and what its channel still holds form a strictly increasing sequence, bounded by the
  generation of the committed state; and its channel never holds more than its capacity.
\<close>

theorem subscriber_seq_increasing:
  assumes "reachable sm_init (sm_step um) y" "c \<in> set (s_subs (y_s y))"
    "m_get (s_chans (y_s y)) c = Some q"
  shows "sorted_wrt (<) (y_seen y c # List.map ch_seq (ch_buf q))
    \<and> (\<forall>x \<in> set (ch_buf q). ch_seq x \<le> st_gen (s_cur (y_s y)))
    \<and> length (ch_buf q) \<le> chan_cap"
  using sm_invD(5)[OF reachable_sm_inv[OF assms(1)] assms(2)] assms(3)
  by (auto simp: sub_ok_def seqs_ok_def)

theorem subscriber_seq_witness:
  "\<exists>(y :: unit machine) q. reachable sm_init (sm_step demo_um) y \<and> m_get (s_chans (y_s y)) 0 = Some q \<and>
     sorted_wrt (<) (y_seen y 0 # List.map ch_seq (ch_buf q)) \<and> length (ch_buf q) = 1"
  using demo_run subscriber_seq_increasing[where um = demo_um and c = 0] by metis

text \<open>
  Every torrent the service ever commits is normalized, in every reachable state: it is
  stored under its own hash, the hash is a v1 or v2 infohash, the state is one of the eight
  normalized names (or empty, for a torrent whose state was never reported), the eta is at most
  the unknown sentinel and the category at most 128 runes; and no hash occurs twice.
\<close>

theorem committed_torrents_wf:
  assumes "reachable sm_init (sm_step um) y"
  shows "torrents_wf (st_torrents (s_cur (y_s y)))"
  by (rule sm_invD(1)[OF reachable_sm_inv[OF assms]])

theorem committed_torrents_wf_witness:
  "\<exists>(y :: unit machine) t. reachable sm_init (sm_step demo_um) y \<and>
     m_get (st_torrents (s_cur (y_s y))) demo_hash = Some t \<and> torrent_wf t \<and> t_hash t = demo_hash"
  using demo_run committed_torrents_wf[where um = demo_um] torrents_wfD(2,3) by blast

text \<open>
  The steps after a switch, up to the first commit of a cycle that began after it: the rest of a cycle
  that straddles the switch, new cycles that log in, fetch, probe or fail, and subscribers. The flag says
  whether a cycle has begun since the switch. Only one cycle runs at a time, so from then on the running
  cycle, whose commit ends the run, is a new one.
\<close>

inductive before_commit :: "('raw \<Rightarrow> partial_torrent option) \<Rightarrow> 'b machine \<Rightarrow> bool \<Rightarrow> 'b machine \<Rightarrow> bool" for um y where
  bc_here: "before_commit um y False y"
| bc_step: "before_commit um y began y1 \<Longrightarrow> sm_step um y1 e y2 \<Longrightarrow> \<forall>b. e \<noteq> ESwitch b \<Longrightarrow>
     \<not> (began \<and> e = ECommit) \<Longrightarrow> before_commit um y (began \<or> e = EBegin) y2"

fun pc_capture :: "'b pc \<Rightarrow> 'b capture option" where
  "pc_capture Idle = None"
| "pc_capture (Begun c) = Some c"
| "pc_capture (LoggedIn c) = Some c"
| "pc_capture (Failed c e) = Some c"
| "pc_capture (Built c rid nxt ch rm) = Some c"

lemma pc_capture_old: "sm_inv y \<Longrightarrow> pc_capture (y_pc y) = Some c \<Longrightarrow> c_epoch c \<le> s_epoch (y_s y)"
  using sm_invD(2)[of y] by (cases "y_pc y") (auto simp: capture_ok_def)

text \<open>What holds of a machine while only the empty state of the switch has been committed.\<close>

definition fresh_after :: "state \<Rightarrow> 'b syncer \<Rightarrow> bool \<Rightarrow> 'b machine \<Rightarrow> bool" where
  "fresh_after nxt s began y \<longleftrightarrow>
     (\<exists>er. s_cur (y_s y) = nxt\<lparr>st_err := er\<rparr> \<and> (\<not> began \<longrightarrow> er = StatusLoading)) \<and>
     s_backend (y_s y) = s_backend s \<and> s_epoch (y_s y) = s_epoch s \<and>
     (\<not> began \<longrightarrow> (\<forall>c. pc_capture (y_pc y) = Some c \<longrightarrow> c_epoch c < s_epoch (y_s y)))"

lemma quiet_step:
  assumes "sm_step um y e y'" "\<forall>b. e \<noteq> ESwitch b" "e \<noteq> EDegrade" "e = ECommit \<Longrightarrow> stale"
    and "stale \<Longrightarrow> \<forall>c. pc_capture (y_pc y) = Some c \<longrightarrow> c_epoch c < s_epoch (y_s y)"
  shows "s_cur (y_s y') = s_cur (y_s y) \<and> s_backend (y_s y') = s_backend (y_s y) \<and> s_epoch (y_s y') = s_epoch (y_s y)
    \<and> (stale \<and> e \<noteq> EBegin \<longrightarrow> (\<forall>c. pc_capture (y_pc y') = Some c \<longrightarrow> c_epoch c < s_epoch (y_s y')))"
  using assms
  by (cases rule: sm_stepE) (auto simp: note_auth_failure_def login_ok_def probe_versions_def commit_def
      Subscribe_def cancelSub_def Let_def split: option.splits sum.splits prod.splits if_splits)

lemma degrade_switched:
  "degraded_state e ((switched_state st)\<lparr>st_err := er\<rparr>) = (switched_state st)\<lparr>st_err := classify e\<rparr>"
  by (simp add: degraded_state_def switched_state_def)

lemma fresh_step:
  assumes "sm_step um y e y'" "\<forall>b. e \<noteq> ESwitch b" "\<not> (began \<and> e = ECommit)"
    and fresh: "fresh_after (switched_state st) s began y"
  shows "fresh_after (switched_state st) s (began \<or> e = EBegin) y'"
proof (cases "e = EDegrade")
  case True
  with assms(1) obtain c er where pc: "y_pc y = Failed c er"
    and y': "y' = y\<lparr>y_s := commit_degraded_epoch (c_epoch c) er (y_s y), y_pc := Idle\<rparr>"
    by (auto elim: sm_stepE)
  show ?thesis
    using fresh True pc by (auto simp: y' fresh_after_def commit_degraded_epoch_def degrade_switched)
next
  case False
  have "e = ECommit \<Longrightarrow> \<not> began" using assms(3) by blast
  from quiet_step[OF assms(1,2) False this] fresh show ?thesis
    unfolding fresh_after_def by (cases began) auto
qed

text \<open>
  C8. A switch shows nothing but the new backend. Whatever a cycle that straddles the switch still does
  (log in, fetch, fail, commit), and whatever the new backend's own cycles do short of a commit, in any
  interleaving with subscribers: the committed state stays the empty state of the switch, down and at the
  switch's generation, until a cycle that began after the switch commits. Only its error text may move, and
  only once such a cycle has begun: a failure of the old backend never flags the new one.
\<close>

theorem switch_hides_the_old_backend:
  assumes "reachable sm_init (sm_step um) y" "sm_step um y (ESwitch b) y1" "before_commit um y1 began y2"
  shows "(\<exists>er. s_cur (y_s y2) = (switched_state (s_cur (y_s y)))\<lparr>st_err := er\<rparr> \<and> (\<not> began \<longrightarrow> er = StatusLoading)) \<and>
    st_torrents (s_cur (y_s y2)) = m_empty \<and> \<not> st_ok (s_cur (y_s y2)) \<and>
    s_backend (y_s y2) = b \<and> s_epoch (y_s y2) = Suc (s_epoch (y_s y))"
proof -
  have inv: "sm_inv y" using assms(1) by (rule reachable_sm_inv)
  have y1: "y1 = y\<lparr>y_s := SwitchBackend b (y_s y)\<rparr>" using assms(2) by (auto elim: sm_stepE)
  have "fresh_after (switched_state (s_cur (y_s y))) (y_s y1) began y2"
    using assms(3)
  proof induction
    case bc_here
    have "(switched_state st)\<lparr>st_err := StatusLoading\<rparr> = switched_state st" for st
      by (simp add: switched_state_def)
    then show ?case using pc_capture_old[OF inv] by (auto simp: fresh_after_def y1 switch_fields)
  next
    case (bc_step began z e z')
    from fresh_step[OF bc_step(2-5)] show ?case .
  qed
  then show ?thesis by (auto simp: fresh_after_def y1 switch_fields switched_fields)
qed

text \<open>A login of the old backend fails after the switch; then a cycle of the new one begins and logs in.\<close>

theorem switch_hides_the_old_backend_witness:
  "\<exists>y2 c. before_commit demo_um
       (\<lparr>y_s = SwitchBackend True (new_syncer False), y_pc = start_pc (cycle_begin (new_syncer False)), y_next = 0,
         y_view = (\<lambda>_ _. None), y_seen = (\<lambda>_. 0)\<rparr>) True y2 \<and> s_backend (y_s y2) \<and>
     y_pc y2 = LoggedIn c \<and> c_epoch c = 1 \<and> \<not> st_ok (s_cur (y_s y2))"
proof -
  define y0 where "y0 = \<lparr>y_s = new_syncer False, y_pc = Idle, y_next = 0, y_view = (\<lambda>_ _. None), y_seen = (\<lambda>_. 0 :: nat)\<rparr>"
  define c where "c = cycle_begin (new_syncer False)"
  have r0: "reachable sm_init (sm_step demo_um) y0" by (rule reach_init) (auto simp: sm_init_def y0_def)
  have "sm_step demo_um y0 EBegin (y0\<lparr>y_pc := start_pc c\<rparr>)"
    using sm_begin[of y0 demo_um] by (simp add: y0_def c_def)
  with r0 have r1: "reachable sm_init (sm_step demo_um) (y0\<lparr>y_pc := start_pc c\<rparr>)" by (rule reach_step)
  have sw: "sm_step demo_um (y0\<lparr>y_pc := start_pc c\<rparr>) (ESwitch True) (y0\<lparr>y_pc := start_pc c, y_s := SwitchBackend True (new_syncer False)\<rparr>)"
    using sm_switch[of demo_um "y0\<lparr>y_pc := start_pc c\<rparr>" True] by (simp add: y0_def)
  define y1 where "y1 = y0\<lparr>y_pc := start_pc c, y_s := SwitchBackend True (new_syncer False)\<rparr>"
  have pc: "y_pc y1 = Begun c" by (simp add: y1_def start_pc_def c_def cycle_begin_def new_syncer_def zero_state_def)
  define e where "e = Wrapped ErrBadCredentials"
  define s2 where "s2 = snd (note_auth_failure e (y_s y1))"
  define y2 where "y2 = y1\<lparr>y_s := s2, y_pc := Failed c e\<rparr>"
  have "sm_step demo_um y1 (ELogin (Some e)) y2"
    unfolding y2_def by (rule sm_login_fail[OF pc]) (simp add: s2_def prod_eq_iff[of "note_auth_failure e (y_s y1)"])
  from bc_step[OF bc_here this] have n2: "before_commit demo_um y1 False y2" by simp
  define y3 where "y3 = y2\<lparr>y_s := commit_degraded_epoch (c_epoch c) e (y_s y2), y_pc := Idle\<rparr>"
  have "sm_step demo_um y2 EDegrade y3" unfolding y3_def by (rule sm_degrade) (simp add: y2_def)
  from bc_step[OF n2 this] have n3: "before_commit demo_um y1 False y3" by simp
  define c' where "c' = cycle_begin (y_s y3)"
  define y4 where "y4 = y3\<lparr>y_pc := start_pc c'\<rparr>"
  have "sm_step demo_um y3 EBegin y4" unfolding y4_def c'_def by (rule sm_begin) (simp add: y3_def)
  from bc_step[OF n3 this] have n4: "before_commit demo_um y1 True y4" by simp
  have s3: "y_s y3 = (SwitchBackend True (new_syncer False))\<lparr>s_authFails := 1\<rparr>"
    by (simp add: y3_def y2_def y1_def s2_def e_def note_auth_failure_def errClass_def Let_def switch_fields
        commit_degraded_epoch_def c_def cycle_begin_def new_syncer_def StickyAuthFails_def)
  have c': "c_epoch c' = 1" "y_pc y4 = Begun c'"
    by (simp_all add: y4_def start_pc_def c'_def cycle_begin_def s3 switch_fields switched_fields new_syncer_def)
  define y5 where "y5 = y4\<lparr>y_s := login_ok (c_epoch c') (y_s y4), y_pc := LoggedIn c'\<rparr>"
  have "sm_step demo_um y4 (ELogin None) y5" unfolding y5_def by (rule sm_login_ok[OF c'(2)])
  from bc_step[OF n4 this] have n5: "before_commit demo_um y1 True y5" by simp
  from switch_hides_the_old_backend[OF r1 sw n5[unfolded y1_def]] n5 c' show ?thesis
    by (intro exI[of _ y5] exI[of _ c']) (simp add: y1_def y0_def c_def y5_def)
qed

text \<open>
  The two writes of a cycle check the epoch themselves: once it has moved on, the commit is discarded
  and the degraded commit is ignored.
\<close>

theorem stale_cycle_is_inert:
  assumes "c_epoch c \<noteq> s_epoch s"
  shows "commit c rid nxt ch rm s = (False, s) \<and> commit_degraded_epoch (c_epoch c) e s = s"
  using assms by (simp add: commit_def commit_degraded_epoch_def Let_def)

theorem stale_cycle_is_inert_witness:
  "let s = SwitchBackend True (new_syncer False); c = cycle_begin (new_syncer False)
   in c_epoch c \<noteq> s_epoch s \<and> commit c 3 zero_state [zero_torrent] [] s = (False, s)"
proof -
  have "c_epoch (cycle_begin (new_syncer False)) \<noteq> s_epoch (SwitchBackend True (new_syncer False))"
    by (simp add: cycle_begin_def new_syncer_def switch_fields)
  from stale_cycle_is_inert[OF this] this show ?thesis
    by (simp add: Let_def)
qed

text \<open>
  C28. The merge does not depend on Go's map iteration order: two visits of the same payload in
  different orders both fail or both succeed, and then commit the same torrent for every hash.
\<close>

theorem merge_order_independent:
  assumes "mset kvs = mset kvs'" "m_ok kvs"
  shows "case (merge_torrents um prev (md\<lparr>md_torrents := kvs\<rparr>),
               merge_torrents um prev (md\<lparr>md_torrents := kvs'\<rparr>)) of
           (Inr (nxt, _, _), Inr (nxt', _, _)) \<Rightarrow> m_get nxt = m_get nxt'
         | (Inl _, Inl _) \<Rightarrow> True
         | _ \<Rightarrow> False"
proof -
  have ok': "m_ok kvs'" using assms mset_eq_distinct_keys by blast
  have "payload_ok um kvs = payload_ok um kvs'"
    using mset_eq_setD[OF assms(1)] by (simp add: payload_ok_def)
  moreover have "m_get kvs = m_get kvs'"
    using mset_eq_setD[OF assms(1)] assms(2) ok' by (metis m_get_mem option.exhaust ext)
  ultimately show ?thesis
    using merge_torrents_ok[of um prev "md\<lparr>md_torrents := kvs\<rparr>"]
      merge_torrents_ok[of um prev "md\<lparr>md_torrents := kvs'\<rparr>"]
      merge_torrents_get[of um prev "md\<lparr>md_torrents := kvs\<rparr>"]
      merge_torrents_get[of um prev "md\<lparr>md_torrents := kvs'\<rparr>"] assms(2) ok'
    by (auto simp: merge_spec_def fun_eq_iff split: sum.splits prod.splits)
qed

theorem merge_order_independent_witness:
  "case (merge_torrents demo_um m_empty (demo_md\<lparr>md_torrents := [(demo_hash, ()), ([], ())]\<rparr>),
         merge_torrents demo_um m_empty (demo_md\<lparr>md_torrents := [([], ()), (demo_hash, ())]\<rparr>)) of
     (Inr (nxt, _, _), Inr (nxt', _, _)) \<Rightarrow> m_get nxt = m_get nxt'
   | (Inl _, Inl _) \<Rightarrow> True
   | _ \<Rightarrow> False"
  by (rule merge_order_independent)
    (simp_all add: m_ok_Cons m_get_Cons m_get_Nil m_ok_Nil demo_hash_def)

text \<open>
  Last-known-good: a cycle that fails, at whatever point (login, transport, malformed
  payload, parked), keeps the torrents, the versions, the generation and the subscribers as they
  were; it only marks the backend as down, zeroes the speeds, forgets the free space and forces
  the next success to be a full rebuild.
\<close>

theorem failed_cycle_keeps_last_known_good:
  assumes "cycle um an s = (False, s', calls)"
  shows "st_torrents (s_cur s') = st_torrents (s_cur s) \<and> st_gen (s_cur s') = st_gen (s_cur s)
    \<and> st_app (s_cur s') = st_app (s_cur s) \<and> st_api (s_cur s') = st_api (s_cur s)
    \<and> \<not> st_ok (s_cur s') \<and> st_dl (s_cur s') = 0 \<and> st_up (s_cur s') = 0
    \<and> st_free (s_cur s') = None \<and> s_rid s' = 0 \<and> s_subs s' = s_subs s \<and> s_chans s' = s_chans s"
  using cycle_cases[OF assms] by (auto simp: failed_from_def degraded_fields)

theorem failed_cycle_keeps_last_known_good_witness:
  "\<exists>s' calls. cycle demo_um rejecting_answers (new_syncer ()) = (False, s', calls)
     \<and> \<not> st_ok (s_cur s') \<and> st_gen (s_cur s') = 0"
proof -
  have "parked_after 0 (new_syncer ())"
    by (simp add: parked_after_def new_syncer_def zero_state_def StickyAuthFails_def)
  then obtain s' where s': "cycle demo_um rejecting_answers (new_syncer ()) = (False, s', [CLogin])"
    using rejected_cycle[of 0 "new_syncer ()" rejecting_answers "Wrapped ErrBadCredentials"]
    by (auto simp: rejecting_answers_def errClass_def StickyAuthFails_def)
  from failed_cycle_keeps_last_known_good[OF s'] s' show ?thesis
    by (auto simp: new_syncer_def zero_state_def)
qed

lemma build_next_server:
  assumes "build_next um prev md = Inr (nxt, ch, rm)"
  shows "st_dl nxt = server_value ss_dl md (st_dl prev)" "st_up nxt = server_value ss_up md (st_up prev)"
    "st_conn nxt = server_value ss_conn md (st_conn prev)"
    "st_free nxt = server_value (map_option Some \<circ> ss_free) md (st_free prev)"
  using assms by (auto simp: build_next_def merge_server_def server_value_def zero_state_def Let_def
      split: sum.splits option.splits)

text \<open>
  C27. A cycle that succeeds commits exactly what the payload says: for every hash, the torrent
  of the full update, or the delta merged into the previous torrent, or nothing when the payload
  removed it; the two speeds, the connection status and the free space of its server state, each
  previous value kept where the payload has none; the versions of the two probes where they are due
  and both are answered, else the known ones. The backend is marked up with no error, the rid is the payload's and
  the generation moves on by one.
\<close>

theorem successful_cycle_commits_payload:
  assumes "cycle um an s = (True, s', calls)" "an_sync an = Inr md" "m_ok (md_torrents md)"
  shows "m_get (st_torrents (s_cur s')) h = merge_spec um (m_get (st_torrents (s_cur s))) md h
    \<and> payload_ok um (md_torrents md)
    \<and> st_ok (s_cur s') \<and> st_err (s_cur s') = [] \<and> s_rid s' = md_rid md
    \<and> st_gen (s_cur s') = Suc (st_gen (s_cur s))
    \<and> st_dl (s_cur s') = server_value ss_dl md (st_dl (s_cur s))
    \<and> st_up (s_cur s') = server_value ss_up md (st_up (s_cur s))
    \<and> st_conn (s_cur s') = server_value ss_conn md (st_conn (s_cur s))
    \<and> st_free (s_cur s') = server_value (map_option Some \<circ> ss_free) md (st_free (s_cur s))
    \<and> (st_app (s_cur s'), st_api (s_cur s')) = versions_after an s"
proof -
  from cycle_cases[OF assms(1)] assms(2) obtain nxt ch rm where
    b: "build_next um (s_cur s) md = Inr (nxt, ch, rm)" and
    c: "st_torrents (s_cur s') = st_torrents nxt" "st_gen (s_cur s') = Suc (st_gen (s_cur s))"
      "st_ok (s_cur s')" "st_err (s_cur s') = []" "s_rid s' = md_rid md"
      "(st_app (s_cur s'), st_api (s_cur s')) = versions_after an s" and
    d: "st_dl (s_cur s') = st_dl nxt" "st_up (s_cur s') = st_up nxt" "st_conn (s_cur s') = st_conn nxt"
      "st_free (s_cur s') = st_free nxt"
    by (auto simp: committed_from_def)
  from b obtain ts where ts: "merge_torrents um (st_torrents (s_cur s)) md = Inr (ts, ch, rm)"
    "st_torrents nxt = ts"
    by (auto simp: build_next_def merge_server_def zero_state_def Let_def split: sum.splits option.splits)
  have "m_get (st_torrents (s_cur s')) h = merge_spec um (m_get (st_torrents (s_cur s))) md h"
    "payload_ok um (md_torrents md)"
    using merge_torrents_get[OF ts(1) assms(3)] merge_torrents_ok[of um "st_torrents (s_cur s)" md] ts c(1)
    by auto
  then show ?thesis
    using c d build_next_server[OF b] by simp
qed

lemma demo_cycle: "\<exists>s' calls. cycle demo_um demo_answers (new_syncer ()) = (True, s', calls)"
  using demo_build
  by (auto simp: cycle_def cycle_sync_def cycle_begin_def new_syncer_def zero_state_def
      demo_answers_def login_ok_def probe_versions_def commit_def needs_probe_def Let_def)

theorem successful_cycle_commits_payload_witness:
  "\<exists>s' calls t. cycle demo_um demo_answers (new_syncer ()) = (True, s', calls) \<and>
     m_get (st_torrents (s_cur s')) demo_hash = Some t \<and> t_state t = StateSeeding \<and>
     s_rid s' = 7 \<and> st_ok (s_cur s')"
proof -
  from demo_cycle obtain s' calls where
    cyc: "cycle demo_um demo_answers (new_syncer ()) = (True, s', calls)" by blast
  have md: "an_sync demo_answers = Inr demo_md" "m_ok (md_torrents demo_md)"
    by (simp_all add: demo_answers_def demo_md_def m_ok_Cons m_get_Nil m_ok_Nil)
  from successful_cycle_commits_payload[OF cyc md, of demo_hash] cyc show ?thesis
    by (auto simp: merge_spec_def demo_md_def m_get_Cons full_torrent_def decodeFull_def demo_um_def
        apply_partial_fields field_or_def normalizeState_def)
qed

text \<open>
  Authentication frugality: against a backend that rejects every login, however many cycles
  run, the syncer performs at most three logins and makes no other backend call; afterwards it
  is parked and contacts the backend no more (below qBittorrent's five-attempt ban).
\<close>

theorem rejected_logins_bounded:
  assumes "\<forall>an \<in> set ans. \<exists>e. an_login an = Some e \<and> errClass e = ''auth''"
  shows "snd (run_cycles um ans (new_syncer b)) = replicate (min (length ans) 3) CLogin"
  using run_rejected[OF assms, of 0 "new_syncer b" um]
  by (simp add: parked_after_def new_syncer_def zero_state_def StickyAuthFails_def)

theorem rejected_logins_bounded_witness:
  "snd (run_cycles demo_um (replicate 100 rejecting_answers) (new_syncer ())) = [CLogin, CLogin, CLogin]"
proof -
  have "\<forall>an \<in> set (replicate 100 rejecting_answers). \<exists>e. an_login an = Some e \<and> errClass e = ''auth''"
    by (auto simp: rejecting_answers_def errClass_def)
  from rejected_logins_bounded[OF this] show ?thesis
    by (simp add: numeral_3_eq_3)
qed

text \<open>
  A parked syncer reports the wrong class: a cycle that finds the sticky flag set makes no
  backend call, but the committed error class is \<open>unexpected response\<close>, not
  \<open>bad credentials\<close> - the error it commits carries the class as a message and wraps no sentinel.
\<close>

theorem parked_cycle_reports_unexpected:
  assumes "s_sticky s"
  shows "\<exists>s'. cycle um an s = (False, s', []) \<and> st_err (s_cur s') = ErrClassUnexpected
    \<and> st_err (s_cur s') \<noteq> ErrClassBadCredentials"
  using assms
  by (auto simp: cycle_def cycle_begin_def Let_def degrade_now degraded_fields classify_def class_names)

theorem parked_cycle_reports_unexpected_witness:
  "\<exists>s'. cycle demo_um demo_answers ((new_syncer ())\<lparr>s_sticky := True\<rparr>) = (False, s', [])
     \<and> st_err (s_cur s') = ''unexpected response''"
  using parked_cycle_reports_unexpected[of "(new_syncer ())\<lparr>s_sticky := True\<rparr>" demo_um demo_answers]
  by (auto simp: ErrClassUnexpected_def)

text \<open>
  The authentication counters are not epoch-scoped: a login of the old backend that fails
  after the switch still counts against the new backend, so the new epoch starts with one
  failure on its account and parks after two rejections of its own.
\<close>

theorem stale_login_failure_counts_against_new_epoch:
  assumes "errClass e = ''auth''"
  shows "s_authFails (snd (note_auth_failure e (SwitchBackend b s))) = 1
    \<and> commit_degraded_epoch (s_epoch s) e (snd (note_auth_failure e (SwitchBackend b s)))
      = snd (note_auth_failure e (SwitchBackend b s))"
  using assms by (simp add: note_auth_failure_def Let_def switch_fields commit_degraded_epoch_def)

theorem stale_login_failure_witness:
  "s_authFails (snd (note_auth_failure (Wrapped ErrBanned) (SwitchBackend True (new_syncer False)))) = 1"
  using stale_login_failure_counts_against_new_epoch[of "Wrapped ErrBanned" True "new_syncer False"]
  by (simp add: errClass_def)

text \<open>
  The run loop's delay stays within its bounds with the default options: from any delay
  between the two-second interval and the ten-minute cap, the next delay is again in that range
  (so no doubling ever overflows), it is at least 30 seconds after an authentication failure,
  and at most 30 seconds after any other failure.
\<close>

theorem next_backoff_bounds:
  assumes "opts = fill_sync_options \<lparr>o_interval = 0, o_maxBackoff = 0, o_fetchBg = 0\<rparr>"
    "2000000000 \<le> b" "b \<le> 600000000000"
  shows "2000000000 \<le> next_backoff opts ok class b \<and> next_backoff opts ok class b \<le> 600000000000
    \<and> (\<not> ok \<and> class = ''auth'' \<longrightarrow> 30000000000 \<le> next_backoff opts ok class b)
    \<and> (\<not> ok \<and> class \<noteq> ''auth'' \<longrightarrow> next_backoff opts ok class b \<le> 30000000000)
    \<and> (ok \<longrightarrow> next_backoff opts ok class b = 2000000000)"
proof -
  have "wrap64 (b * 2) = b * 2"
    using assms(2,3) by (intro wrap64_id) (simp add: int64_defs)
  then show ?thesis
    using assms by (simp add: next_backoff_def fill_sync_options_def Let_def)
qed

theorem next_backoff_bounds_witness:
  "next_backoff (fill_sync_options \<lparr>o_interval = 0, o_maxBackoff = 0, o_fetchBg = 0\<rparr>) False ''auth''
     600000000000 \<le> 600000000000"
  using next_backoff_bounds[OF refl, of 600000000000 False "''auth''"] by simp

end
