(* ===== verification/Dashboard.thy ===== *)
theory Dashboard
  imports SyncerLemmas "HOL-Library.Product_Lexorder"
begin

text \<open>
  Dashboard aggregation (internal/state/dashboard.go): counts, saturating sums and the
  "transferring now" list, computed from one committed state. \<open>Aggregate\<close> is the code's single
  pass over the torrent map in iteration order, followed by the stable sort; the lemmas give
  each number a closed form and show that the iteration order does not matter for torrents
  whose sizes are not negative.
\<close>

section \<open>Data and code\<close>

record dashboard_counts =
  dc_total :: nat
  dc_active :: nat
  dc_downloading :: nat
  dc_seeding :: nat
  dc_paused :: nat
  dc_completed :: nat

record dashboard_aggregate =
  da_total :: int
  da_completed :: int
  da_remaining :: int

record active_item =
  ai_name :: string
  ai_state :: string
  ai_progress :: real
  ai_dl :: int
  ai_up :: int

record dashboard =
  d_counts :: dashboard_counts
  d_agg :: dashboard_aggregate
  d_active :: "active_item list"
  d_free :: "int option"

record cand =
  cd_item :: active_item
  cd_hash :: string
  cd_speed :: int

definition ActiveListCap :: nat where
  "ActiveListCap = 5"

definition satAdd :: "int \<Rightarrow> int \<Rightarrow> int" where
  "satAdd a b =
     (if b > 0 \<and> a > wrap64 (max_int64 - b) then max_int64
      else if b < 0 \<and> a < wrap64 (min_int64 - b) then min_int64
      else wrap64 (a + b))"

text \<open>The loop body; \<open>(counts, aggregate, cands)\<close> is what the loop accumulates.\<close>

definition count_step :: "torrent \<Rightarrow> dashboard_counts \<Rightarrow> dashboard_counts" where
  "count_step t c =
     c\<lparr>dc_total := dc_total c + 1,
       dc_downloading := dc_downloading c + (if t_state t = StateDownloading then 1 else 0),
       dc_seeding := dc_seeding c + (if t_state t = StateSeeding then 1 else 0),
       dc_paused := dc_paused c + (if t_state t = StatePaused then 1 else 0),
       dc_completed := dc_completed c + (if t_progress t \<ge> 1 then 1 else 0),
       dc_active := dc_active c + (if t_dl t > 0 \<or> t_up t > 0 then 1 else 0)\<rparr>"

definition sum_step :: "torrent \<Rightarrow> dashboard_aggregate \<Rightarrow> dashboard_aggregate" where
  "sum_step t a =
     a\<lparr>da_total := satAdd (da_total a) (t_size t),
       da_completed := satAdd (da_completed a) (t_completed t),
       da_remaining :=
         (if t_size t > t_completed t
          then satAdd (da_remaining a) (satAdd (t_size t) (wrap64 (- t_completed t)))
          else da_remaining a)\<rparr>"

definition mk_cand :: "string \<Rightarrow> torrent \<Rightarrow> cand" where
  "mk_cand h t = \<lparr>cd_item = \<lparr>ai_name = t_name t, ai_state = t_state t, ai_progress = t_progress t,
      ai_dl = t_dl t, ai_up = t_up t\<rparr>, cd_hash = h, cd_speed = satAdd (t_dl t) (t_up t)\<rparr>"

fun aggregate_loop :: "(string \<times> torrent) list \<Rightarrow>
    dashboard_counts \<times> dashboard_aggregate \<times> cand list \<Rightarrow>
    dashboard_counts \<times> dashboard_aggregate \<times> cand list" where
  "aggregate_loop [] acc = acc"
| "aggregate_loop ((h, t) # rest) (c, a, cs) =
     aggregate_loop rest
       (count_step t c, sum_step t a,
        if t_dl t > 0 \<or> t_up t > 0 then cs @ [mk_cand h t] else cs)"

text \<open>
  The comparison of \<^verbatim>\<open>sort.SliceStable\<close>, and the key whose order it is; the stable sort by that
  key is the library's \<open>sort_key\<close>.
\<close>

definition cand_less :: "cand \<Rightarrow> cand \<Rightarrow> bool" where
  "cand_less x y =
     (if cd_speed x \<noteq> cd_speed y then cd_speed x > cd_speed y
      else if ai_name (cd_item x) \<noteq> ai_name (cd_item y)
        then ai_name (cd_item x) < ai_name (cd_item y)
      else cd_hash x < cd_hash y)"

definition cand_key :: "cand \<Rightarrow> int \<times> string \<times> string" where
  "cand_key x = (- cd_speed x, ai_name (cd_item x), cd_hash x)"

definition no_counts :: dashboard_counts where
  "no_counts = \<lparr>dc_total = 0, dc_active = 0, dc_downloading = 0, dc_seeding = 0, dc_paused = 0,
     dc_completed = 0\<rparr>"

definition no_sums :: dashboard_aggregate where
  "no_sums = \<lparr>da_total = 0, da_completed = 0, da_remaining = 0\<rparr>"

definition Aggregate :: "state \<Rightarrow> dashboard" where
  "Aggregate st =
     (let (c, a, cs) = aggregate_loop (st_torrents st) (no_counts, no_sums, []);
          sorted = sort_key cand_key cs;
          top = (if length sorted > ActiveListCap then take ActiveListCap sorted else sorted)
      in \<lparr>d_counts = c, d_agg = a, d_active = List.map cd_item top, d_free = st_free st\<rparr>)"

section \<open>Saturating addition\<close>

definition clamp64 :: "int \<Rightarrow> int" where
  "clamp64 x = max min_int64 (min max_int64 x)"

lemma satAdd_clamp:
  assumes "int64 a" "int64 b"
  shows "satAdd a b = clamp64 (a + b)"
proof -
  have sub: "wrap64 (max_int64 - b) = max_int64 - b" if "b > 0"
    using that assms(2) by (intro wrap64_id) (simp add: int64_defs)
  have sub': "wrap64 (min_int64 - b) = min_int64 - b" if "b < 0"
    using that assms(2) by (intro wrap64_id) (simp add: int64_defs)
  have add: "wrap64 (a + b) = a + b" if "\<not> (b > 0 \<and> a > max_int64 - b)" "\<not> (b < 0 \<and> a < min_int64 - b)"
    using that assms
    by (intro wrap64_id) (cases "0 < b"; cases "b < 0"; simp add: int64_defs)
  show ?thesis
  proof (cases "b > 0")
    case True
    then show ?thesis
      using assms sub add by (simp add: satAdd_def) (simp add: clamp64_def int64_defs)
  next
    case False
    show ?thesis
    proof (cases "b < 0")
      case True
      then show ?thesis
        using assms sub'[OF True] add by (simp add: satAdd_def) (simp add: clamp64_def int64_defs)
    next
      case no: False
      then show ?thesis
        using assms False add by (simp add: satAdd_def) (simp add: clamp64_def int64_defs)
    qed
  qed
qed

lemma clamp64_int64: "int64 (clamp64 x)"
  by (simp add: clamp64_def int64_defs)

lemma satAdd_int64: "int64 (satAdd a b)"
  by (simp add: satAdd_def wrap64_int64) (simp add: int64_defs)

section \<open>Closed forms\<close>

definition is_active :: "torrent \<Rightarrow> bool" where
  "is_active t \<longleftrightarrow> t_dl t > 0 \<or> t_up t > 0"

definition count_of :: "(torrent \<Rightarrow> bool) \<Rightarrow> (string, torrent) gomap \<Rightarrow> nat" where
  "count_of P ts = length (filter (\<lambda>(h, t). P t) ts)"

lemma count_of_simps:
  "count_of P [] = 0"
  "count_of P ((h, t) # ts) = (if P t then 1 else 0) + count_of P ts"
  by (simp_all add: count_of_def)

lemma count_of_mset: "mset xs = mset ys \<Longrightarrow> count_of P xs = count_of P ys"
  unfolding count_of_def by (metis mset_filter size_mset)

definition counts_of :: "(string, torrent) gomap \<Rightarrow> dashboard_counts" where
  "counts_of ts = \<lparr>dc_total = length ts, dc_active = count_of is_active ts,
     dc_downloading = count_of (\<lambda>t. t_state t = StateDownloading) ts,
     dc_seeding = count_of (\<lambda>t. t_state t = StateSeeding) ts,
     dc_paused = count_of (\<lambda>t. t_state t = StatePaused) ts,
     dc_completed = count_of (\<lambda>t. t_progress t \<ge> 1) ts\<rparr>"

definition cands_of :: "(string, torrent) gomap \<Rightarrow> cand list" where
  "cands_of ts = List.map (\<lambda>(h, t). mk_cand h t) (filter (\<lambda>(h, t). is_active t) ts)"

definition add_counts :: "dashboard_counts \<Rightarrow> dashboard_counts \<Rightarrow> dashboard_counts" where
  "add_counts x y = \<lparr>dc_total = dc_total x + dc_total y, dc_active = dc_active x + dc_active y,
     dc_downloading = dc_downloading x + dc_downloading y, dc_seeding = dc_seeding x + dc_seeding y,
     dc_paused = dc_paused x + dc_paused y, dc_completed = dc_completed x + dc_completed y\<rparr>"

definition sums_of :: "(string, torrent) gomap \<Rightarrow> dashboard_aggregate \<Rightarrow> dashboard_aggregate" where
  "sums_of ts a = fold (\<lambda>(h, t). sum_step t) ts a"

lemma add_counts_step:
  "add_counts (count_step t c) (counts_of ts) = add_counts c (counts_of ((h, t) # ts))"
  by (simp add: add_counts_def count_step_def counts_of_def count_of_simps is_active_def)

lemma aggregate_loop_closed:
  "aggregate_loop ts (c, a, cs) = (add_counts c (counts_of ts), sums_of ts a, cs @ cands_of ts)"
proof (induction ts arbitrary: c a cs)
  case Nil
  then show ?case
    by (simp add: add_counts_def counts_of_def count_of_simps sums_of_def cands_of_def)
next
  case (Cons x ts)
  obtain h t where x: "x = (h, t)" by force
  show ?case
    using Cons.IH[of "count_step t c" "sum_step t a"]
    by (simp add: x add_counts_step[of t c ts h]) (simp add: sums_of_def cands_of_def is_active_def)
qed

lemma add_no_counts: "add_counts no_counts c = c"
  by (simp add: add_counts_def no_counts_def)

lemma Aggregate_closed:
  "Aggregate st = \<lparr>d_counts = counts_of (st_torrents st), d_agg = sums_of (st_torrents st) no_sums,
     d_active = List.map cd_item (take ActiveListCap (sort_key cand_key (cands_of (st_torrents st)))),
     d_free = st_free st\<rparr>"
  by (simp add: Aggregate_def aggregate_loop_closed add_no_counts Let_def)

section \<open>The sums\<close>

definition sane_torrent :: "torrent \<Rightarrow> bool" where
  "sane_torrent t \<longleftrightarrow> int64 (t_size t) \<and> int64 (t_completed t) \<and> 0 \<le> t_size t \<and> 0 \<le> t_completed t"

definition sane :: "(string, torrent) gomap \<Rightarrow> bool" where
  "sane ts \<longleftrightarrow> (\<forall>(h, t) \<in> set ts. sane_torrent t)"

definition total_of :: "(torrent \<Rightarrow> int) \<Rightarrow> (string, torrent) gomap \<Rightarrow> int" where
  "total_of f ts = sum_list (List.map (\<lambda>(h, t). f t) ts)"

definition remaining :: "torrent \<Rightarrow> int" where
  "remaining t = max 0 (t_size t - t_completed t)"

lemma total_of_simps:
  "total_of f [] = 0"
  "total_of f ((h, t) # ts) = f t + total_of f ts"
  by (simp_all add: total_of_def)

lemma total_of_mset: "mset xs = mset ys \<Longrightarrow> total_of f xs = total_of f ys"
  unfolding total_of_def by (metis mset_map sum_mset_sum_list)

lemma total_of_nonneg: "(\<And>h t. (h, t) \<in> set ts \<Longrightarrow> 0 \<le> f t) \<Longrightarrow> 0 \<le> total_of f ts"
  unfolding total_of_def by (rule sum_list_nonneg) auto

definition cap64 :: "int \<Rightarrow> int" where
  "cap64 x = min max_int64 x"

lemma satAdd_cap: "0 \<le> x \<Longrightarrow> 0 \<le> b \<Longrightarrow> int64 b \<Longrightarrow> satAdd (cap64 x) b = cap64 (x + b)"
  by (subst satAdd_clamp) (auto simp: int64_defs clamp64_def cap64_def)

lemma remaining_part:
  assumes "sane_torrent t" "t_size t > t_completed t"
  shows "satAdd (t_size t) (wrap64 (- t_completed t)) = remaining t \<and> int64 (remaining t)"
proof -
  have w: "wrap64 (- t_completed t) = - t_completed t"
    using assms by (intro wrap64_id) (simp add: sane_torrent_def int64_defs)
  have i: "int64 (t_size t)" "int64 (- t_completed t)"
    using assms by (simp_all add: sane_torrent_def int64_defs)
  show ?thesis
    using assms by (simp add: w satAdd_clamp[OF i]) (simp add: clamp64_def remaining_def sane_torrent_def int64_defs)
qed

lemma sum_step_cap:
  assumes "sane_torrent t" "0 \<le> x" "0 \<le> y" "0 \<le> z"
  shows "sum_step t \<lparr>da_total = cap64 x, da_completed = cap64 y, da_remaining = cap64 z\<rparr> =
    \<lparr>da_total = cap64 (x + t_size t), da_completed = cap64 (y + t_completed t),
     da_remaining = cap64 (z + remaining t)\<rparr>"
proof -
  have "0 \<le> remaining t" by (simp add: remaining_def)
  then show ?thesis
    using assms remaining_part[OF assms(1)]
    by (auto simp: sum_step_def satAdd_cap sane_torrent_def) (simp add: remaining_def)
qed

lemma sums_of_cap:
  assumes "sane ts" "0 \<le> x" "0 \<le> y" "0 \<le> z"
  shows "sums_of ts \<lparr>da_total = cap64 x, da_completed = cap64 y, da_remaining = cap64 z\<rparr> =
    \<lparr>da_total = cap64 (x + total_of t_size ts), da_completed = cap64 (y + total_of t_completed ts),
     da_remaining = cap64 (z + total_of remaining ts)\<rparr>"
  using assms
proof (induction ts arbitrary: x y z)
  case Nil
  then show ?case by (simp add: sums_of_def total_of_simps)
next
  case (Cons p ts)
  obtain h t where p: "p = (h, t)" by force
  have t: "sane_torrent t" "sane ts"
    using Cons.prems(1) p by (auto simp: sane_def)
  have pos: "0 \<le> x + t_size t" "0 \<le> y + t_completed t" "0 \<le> z + remaining t"
    using Cons.prems t(1) by (simp_all add: sane_torrent_def remaining_def)
  show ?case
    using Cons.IH[OF t(2) pos] sum_step_cap[OF t(1) Cons.prems(2-4)]
    by (simp add: p sums_of_def total_of_simps add.assoc)
qed

text \<open>On torrents without negative sizes each sum is the true sum, capped at the largest int64.\<close>

lemma sums_of_sane:
  assumes "sane ts"
  shows "sums_of ts no_sums = \<lparr>da_total = cap64 (total_of t_size ts),
    da_completed = cap64 (total_of t_completed ts), da_remaining = cap64 (total_of remaining ts)\<rparr>"
proof -
  have "no_sums = \<lparr>da_total = cap64 0, da_completed = cap64 0, da_remaining = cap64 0\<rparr>"
    by (simp add: no_sums_def cap64_def max_int64_def)
  then show ?thesis
    using sums_of_cap[OF assms, of 0 0 0] by simp
qed

lemma sane_mset: "mset xs = mset ys \<Longrightarrow> sane xs \<Longrightarrow> sane ys"
  by (drule mset_eq_setD) (simp add: sane_def)

section \<open>The active list\<close>

lemma lex3_less:
  fixes a a' :: int and b b' :: "'b :: linorder" and c c' :: "'c :: linorder"
  shows "(a, b, c) < (a', b', c') \<longleftrightarrow>
    (if a \<noteq> a' then a < a' else if b \<noteq> b' then b < b' else c < c')"
  by (cases a a' rule: linorder_cases; cases b b' rule: linorder_cases) (auto simp: less_prod_simp)

lemma cand_less_key: "cand_less x y \<longleftrightarrow> cand_key x < cand_key y"
  by (simp only: cand_less_def cand_key_def lex3_less) simp

lemma mset_cands_of: "mset xs = mset ys \<Longrightarrow> mset (cands_of xs) = mset (cands_of ys)"
  by (simp add: cands_of_def)

lemma cand_key_inj: "m_ok ts \<Longrightarrow> inj_on cand_key (set (cands_of ts))"
proof (rule inj_onI)
  fix x y
  assume ok: "m_ok ts" and xy: "x \<in> set (cands_of ts)" "y \<in> set (cands_of ts)"
    and key: "cand_key x = cand_key y"
  from xy obtain h t h' t' where ht: "(h, t) \<in> set ts" "x = mk_cand h t"
    "(h', t') \<in> set ts" "y = mk_cand h' t'"
    by (auto simp: cands_of_def)
  with key have "h = h'" by (simp add: cand_key_def mk_cand_def)
  with ht ok show "x = y" by (simp add: m_get_mem)
qed

lemma sorted_cands_unique:
  assumes "mset xs = mset ys" "m_ok xs"
  shows "sort_key cand_key (cands_of xs) = sort_key cand_key (cands_of ys)"
proof (rule sort_key_inj_key_eq)
  show "mset (cands_of xs) = mset (sort_key cand_key (cands_of ys))"
    using mset_cands_of[OF assms(1)] by simp
  show "inj_on cand_key (set (cands_of xs))"
    by (rule cand_key_inj[OF assms(2)])
  show "sorted (List.map cand_key (sort_key cand_key (cands_of ys)))"
    by simp
qed

lemma sorted_key_cand_less:
  assumes "sorted (List.map cand_key xs)" "distinct xs" "inj_on cand_key (set xs)"
  shows "sorted_wrt cand_less xs"
  using assms
proof (induction xs)
  case Nil
  then show ?case by simp
next
  case (Cons x xs)
  have "cand_less x y" if "y \<in> set xs" for y
  proof -
    have "cand_key x \<le> cand_key y" "x \<noteq> y"
      using Cons.prems that by auto
    moreover have "cand_key x \<noteq> cand_key y"
      using Cons.prems(3) that \<open>x \<noteq> y\<close> by (auto dest: inj_onD)
    ultimately show ?thesis
      by (simp only: cand_less_key less_le not_False_eq_True simp_thms)
  qed
  then show ?case
    using Cons by simp
qed

lemma distinct_cands_of: "m_ok ts \<Longrightarrow> distinct (cands_of ts)"
proof (induction ts)
  case Nil
  then show ?case by (simp add: cands_of_def)
next
  case (Cons p ts)
  obtain h t where p: "p = (h, t)" by force
  have ok: "m_get ts h = None" "m_ok ts"
    using Cons.prems by (simp_all add: p m_ok_Cons)
  then have "mk_cand h t \<notin> set (cands_of ts)"
    by (auto simp: cands_of_def mk_cand_def m_get_mem)
  with Cons.IH[OF ok(2)] show ?case
    by (simp add: p cands_of_def)
qed

lemma sorted_cands:
  assumes "m_ok ts"
  shows "sorted_wrt cand_less (sort_key cand_key (cands_of ts))"
  by (rule sorted_key_cand_less)
    (simp_all add: distinct_cands_of[OF assms] cand_key_inj[OF assms])

lemma sorted_wrt_take_drop:
  assumes "sorted_wrt P xs" "x \<in> set (take n xs)" "y \<in> set (drop n xs)"
  shows "P x y"
  using assms by (metis append_take_drop_id sorted_wrt_append)

section \<open>Properties\<close>

text \<open>
  C32. On torrents without negative byte counts the dashboard's three sums are exactly the true
  sums (the remaining bytes clamped at zero per torrent), capped at the largest int64: no sum
  ever wraps.
\<close>

theorem dashboard_sums_exact:
  assumes "sane (st_torrents st)"
  shows "d_agg (Aggregate st) = \<lparr>da_total = min max_int64 (total_of t_size (st_torrents st)),
    da_completed = min max_int64 (total_of t_completed (st_torrents st)),
    da_remaining = min max_int64 (total_of remaining (st_torrents st))\<rparr>"
  by (simp add: Aggregate_closed sums_of_sane[OF assms] cap64_def)

text \<open>
  The dashboard does not depend on the order in which Go's runtime visits the torrent map:
  two enumerations of the same torrents give the same payload, the active list included.
\<close>

theorem dashboard_order_independent:
  assumes "m_ok (st_torrents st)" "mset ts = mset (st_torrents st)" "sane (st_torrents st)"
  shows "Aggregate (st\<lparr>st_torrents := ts\<rparr>) = Aggregate st"
proof -
  let ?o = "st_torrents st"
  have "sane ts"
    by (rule sane_mset[OF assms(2)[symmetric] assms(3)])
  then have "sums_of ts no_sums = sums_of ?o no_sums"
    by (simp add: sums_of_sane assms(3) total_of_mset[OF assms(2)])
  moreover have "counts_of ts = counts_of ?o"
    by (simp add: counts_of_def count_of_mset[OF assms(2)] mset_eq_length[OF assms(2)])
  moreover have "sort_key cand_key (cands_of ts) = sort_key cand_key (cands_of ?o)"
    by (rule sorted_cands_unique[OF assms(2)[symmetric] assms(1), symmetric])
  ultimately show ?thesis
    by (simp add: Aggregate_closed)
qed

text \<open>
  The "transferring now" list is the top of the transferring torrents: it is strictly
  ordered by speed descending, then name, then hash, holds at most five entries, and a
  transferring torrent is left out only when five others come before it.
\<close>

theorem dashboard_active_top:
  assumes "m_ok (st_torrents st)"
  shows "\<exists>top. d_active (Aggregate st) = List.map cd_item top \<and> sorted_wrt cand_less top \<and>
    length top \<le> ActiveListCap \<and> set top \<subseteq> set (cands_of (st_torrents st)) \<and>
    (\<forall>x \<in> set (cands_of (st_torrents st)) - set top.
       length top = ActiveListCap \<and> (\<forall>y \<in> set top. cand_less y x))"
proof -
  let ?s = "sort_key cand_key (cands_of (st_torrents st))"
  let ?top = "take ActiveListCap ?s"
  have out: "length ?top = ActiveListCap \<and> (\<forall>y \<in> set ?top. cand_less y x)"
    if "x \<in> set (cands_of (st_torrents st)) - set ?top" for x
  proof -
    have "x \<in> set ?s"
      using that by simp
    then have "x \<in> set (take ActiveListCap ?s) \<union> set (drop ActiveListCap ?s)"
      by (metis append_take_drop_id set_append)
    then have x: "x \<in> set (drop ActiveListCap ?s)"
      using that by blast
    then have "length ?s > ActiveListCap"
      by (metis drop_all empty_iff list.set(1) not_le)
    then show ?thesis
      using sorted_wrt_take_drop[OF sorted_cands[OF assms] _ x] by simp
  qed
  have "sorted_wrt cand_less ?top"
    by (rule sorted_wrt_take[OF sorted_cands[OF assms]])
  moreover have "set ?top \<subseteq> set (cands_of (st_torrents st))"
    using set_take_subset[of ActiveListCap ?s] by simp
  ultimately show ?thesis
    using out by (intro exI[of _ ?top]) (simp add: Aggregate_closed)
qed

text \<open>
  The counts are those of the panel's filters: every torrent is counted once in the total,
  the three state counts are disjoint, and "active" counts exactly the torrents that qualify
  for the active list.
\<close>

theorem dashboard_counts_consistent:
  "let c = d_counts (Aggregate st); ts = st_torrents st in
     dc_total c = m_len ts \<and> dc_downloading c + dc_seeding c + dc_paused c \<le> dc_total c \<and>
     dc_completed c \<le> dc_total c \<and> dc_active c = length (cands_of ts) \<and>
     length (d_active (Aggregate st)) = min ActiveListCap (dc_active c)"
proof -
  have le: "count_of (\<lambda>t. t_state t = StateDownloading) ts +
      count_of (\<lambda>t. t_state t = StateSeeding) ts + count_of (\<lambda>t. t_state t = StatePaused) ts
      \<le> length ts" for ts
    by (induction ts)
      (auto simp: count_of_simps StateDownloading_def StateSeeding_def StatePaused_def)
  have "count_of is_active ts = length (cands_of ts)" for ts
    by (simp add: count_of_def cands_of_def)
  then show ?thesis
    using le[of "st_torrents st"]
    by (simp add: Aggregate_closed counts_of_def m_len_def Let_def)
      (simp add: count_of_def)
qed

definition extreme_torrent :: torrent where
  "extreme_torrent = \<lparr>t_hash = [], t_name = [], t_state = StateOther, t_progress = 0, t_dl = 0,
     t_up = 0, t_eta = 0, t_ratio = 0, t_category = [], t_size = 0, t_completed = min_int64\<rparr>"

text \<open>
  The saturating subtraction \<^verbatim>\<open>satAdd(Size, -Completed)\<close> does not saturate when
  \<^verbatim>\<open>Completed\<close> is the smallest int64: its negation wraps to itself, and the remaining
  bytes of the dashboard become negative.
\<close>

theorem dashboard_remaining_negative:
  "da_remaining (d_agg (Aggregate (st\<lparr>st_torrents := [(h, extreme_torrent)]\<rparr>))) = min_int64"
  by (simp add: Aggregate_closed sums_of_def sum_step_def extreme_torrent_def no_sums_def)
    (simp add: satAdd_def wrap64_def int64_defs)

section \<open>Witnesses\<close>

definition ws_torrent :: "string \<Rightarrow> int \<Rightarrow> torrent" where
  "ws_torrent n speed = extreme_torrent\<lparr>t_name := n, t_dl := speed, t_size := 10,
     t_completed := 4\<rparr>"

definition ws_state :: state where
  "ws_state = \<lparr>st_ok = True, st_app = [], st_api = [], st_dl = 0, st_up = 0, st_conn = [],
     st_torrents = [(''a'', ws_torrent ''x'' 3), (''b'', ws_torrent ''y'' 7)], st_err = [],
     st_free = None, st_gen = 0\<rparr>"

lemma ws_state_ok: "m_ok (st_torrents ws_state)" "sane (st_torrents ws_state)"
  by (simp_all add: ws_state_def ws_torrent_def extreme_torrent_def sane_def sane_torrent_def
      int64_defs m_ok_def m_keys_def)

theorem dashboard_sums_exact_witness: "da_remaining (d_agg (Aggregate ws_state)) = 12"
  using dashboard_sums_exact[OF ws_state_ok(2)]
  by (simp add: ws_state_def ws_torrent_def extreme_torrent_def total_of_def remaining_def
      max_int64_def)

theorem dashboard_order_independent_witness:
  "Aggregate (ws_state\<lparr>st_torrents := [(''b'', ws_torrent ''y'' 7), (''a'', ws_torrent ''x'' 3)]\<rparr>) =
   Aggregate ws_state"
  by (rule dashboard_order_independent[OF ws_state_ok(1) _ ws_state_ok(2)])
    (simp add: ws_state_def)

theorem dashboard_active_top_witness:
  "\<exists>top. d_active (Aggregate ws_state) = List.map cd_item top \<and> sorted_wrt cand_less top"
  using dashboard_active_top[OF ws_state_ok(1)] by blast

end
