(* ===== verification/Mutator.thy ===== *)
theory Mutator
  imports Syncer
begin

text \<open>
  Mutation orchestration (internal/mutate/mutator.go): validation of a request against the
  committed state, registration under a reference, the call to the backend, replay of known
  references, confirmation from later committed states, and the drain around a backend
  switch. \<open>Submit\<close> and \<open>reconcile\<close> release the lock in between, so each is given by its critical
  sections (\<open>submit_early\<close>, \<open>validate\<close>, \<open>reject\<close>, \<open>register\<close>, \<open>backend_failed\<close>, and
  \<open>reconcile_locked\<close>, \<open>publish_result\<close>) and by their composition without interference. The interleaved
  system is in MutatorMachine.

  Times are nanoseconds, mutation ids and epochs are natural numbers (Go's 64-bit counters,
  incremented by one per mutation or switch). The hash of a request is ASCII (the protocol
  admits hexadecimal digits only), so \<^verbatim>\<open>strings.ToLower\<close> is \<open>to_lower\<close>.
\<close>

section \<open>Vocabulary\<close>

datatype action = Pause | Resume | Add | Remove | OtherAction string

definition CodeStaleTorrent :: string where "CodeStaleTorrent = ''stale_torrent''"
definition CodeInvalidURL :: string where "CodeInvalidURL = ''invalid_url''"
definition CodeDuplicate :: string where "CodeDuplicate = ''duplicate''"
definition CodeBackendRejected :: string where "CodeBackendRejected = ''backend_rejected''"
definition CodeBackendUnavailable :: string where "CodeBackendUnavailable = ''backend_unavailable''"
definition CodeBusy :: string where "CodeBusy = ''busy''"
definition CodeRefConflict :: string where "CodeRefConflict = ''ref_conflict''"
definition OutcomeAccepted :: string where "OutcomeAccepted = ''accepted''"
definition StatusConfirmed :: string where "StatusConfirmed = ''confirmed''"
definition StatusTimeout :: string where "StatusTimeout = ''timeout''"

lemmas code_names = CodeStaleTorrent_def CodeInvalidURL_def CodeDuplicate_def
  CodeBackendRejected_def CodeBackendUnavailable_def CodeBusy_def CodeRefConflict_def
  OutcomeAccepted_def StatusConfirmed_def StatusTimeout_def

record request =
  rq_action :: action
  rq_hash :: string
  rq_url :: string
  rq_delete :: bool
  rq_ref :: string

record result =
  rs_mutation :: nat
  rs_action :: action
  rs_hash :: string
  rs_status :: string

record stage1 =
  s1_outcome :: string
  s1_mutation :: nat
  s1_action :: action
  s1_hash :: string
  s1_replay :: "result option"

record mut_options =
  mo_submit :: nat
  mo_window :: nat
  mo_max :: nat
  mo_ring :: nat

definition fill_mut_options :: "mut_options \<Rightarrow> mut_options" where
  "fill_mut_options opts =
     \<lparr>mo_submit = (if mo_submit opts = 0 then 5000000000 else mo_submit opts),
      mo_window = (if mo_window opts = 0 then 10000000000 else mo_window opts),
      mo_max = (if mo_max opts = 0 then 4 else mo_max opts),
      mo_ring = (if mo_ring opts = 0 then 64 else mo_ring opts)\<rparr>"

record pending =
  pe_mutation :: nat
  pe_action :: action
  pe_hash :: string
  pe_url :: string
  pe_delete :: bool
  pe_deadline :: nat
  pe_epoch :: nat

record ref_record =
  rr_ref :: string
  rr_action :: action
  rr_hash :: string
  rr_url :: string
  rr_delete :: bool
  rr_outcome :: string
  rr_status :: string
  rr_mutation :: nat

text \<open>A results channel: what was sent and not yet received, and whether it was closed.\<close>

record rchan =
  rc_buf :: "result list"
  rc_closed :: bool

record 'b mutator =
  mt_opts :: mut_options
  mt_backend :: 'b
  mt_epoch :: nat
  mt_draining :: bool
  mt_next :: nat
  mt_inflight :: "(string, pending) gomap"
  mt_ring :: "ref_record list"
  mt_subs :: "nat list"
  mt_chans :: "(nat, rchan) gomap"

definition new_mutator :: "'b \<Rightarrow> mut_options \<Rightarrow> 'b mutator" where
  "new_mutator b opts = \<lparr>mt_opts = fill_mut_options opts, mt_backend = b, mt_epoch = 0,
     mt_draining = False, mt_next = 0, mt_inflight = m_empty, mt_ring = [], mt_subs = [],
     mt_chans = m_empty\<rparr>"

section \<open>Switching the backend\<close>

definition BeginSwitch :: "'b mutator \<Rightarrow> bool \<times> 'b mutator" where
  "BeginSwitch m =
     (if mt_draining m then (False, m)
      else if m_len (mt_inflight m) > 0 then (False, m)
      else (True, m\<lparr>mt_draining := True\<rparr>))"

definition CommitSwap :: "'b \<Rightarrow> 'b mutator \<Rightarrow> 'b mutator" where
  "CommitSwap b m = m\<lparr>mt_draining := False, mt_backend := b, mt_epoch := Suc (mt_epoch m)\<rparr>"

definition AbortSwitch :: "'b mutator \<Rightarrow> 'b mutator" where
  "AbortSwitch m = m\<lparr>mt_draining := False\<rparr>"

definition mut_SwitchBackend :: "'b \<Rightarrow> 'b mutator \<Rightarrow> bool \<times> 'b mutator" where
  "mut_SwitchBackend b m =
     (let (ok, m1) = BeginSwitch m in if \<not> ok then (False, m1) else (True, CommitSwap b m1))"

definition InFlight :: "'b mutator \<Rightarrow> nat" where
  "InFlight m = m_len (mt_inflight m)"

section \<open>Magnet links and versions\<close>

fun first_btih :: "string list \<Rightarrow> string option" where
  "first_btih [] = None"
| "first_btih (kv # kvs) =
     (case cut_prefix ''xt=urn:btih:'' kv of
        None \<Rightarrow> first_btih kvs
      | Some v \<Rightarrow> if validHash v then Some (to_lower v) else first_btih kvs)"

definition ParseMagnetHash :: "string \<Rightarrow> string option" where
  "ParseMagnetHash u =
     (if \<not> has_prefix ''magnet:?'' u then None
      else first_btih (split_on (CHR ''&'') (drop (length ''magnet:?'') u)))"

fun parse_nums :: "string list \<Rightarrow> int list option" where
  "parse_nums [] = Some []"
| "parse_nums (p # ps) =
     (case atoi p of None \<Rightarrow> None
      | Some n \<Rightarrow> (case parse_nums ps of None \<Rightarrow> None | Some ns \<Rightarrow> Some (n # ns)))"

definition webapiAtLeast :: "string \<Rightarrow> int \<Rightarrow> int \<Rightarrow> int \<Rightarrow> bool" where
  "webapiAtLeast v major minor patch =
     (let parts = splitN (CHR ''.'') 3 (trim_space v) in
      if parts = [] then False
      else case parse_nums parts of
             None \<Rightarrow> False
           | Some ns \<Rightarrow>
               let nums = take 3 (ns @ [0, 0, 0]) in
               if nums ! 0 \<noteq> major then nums ! 0 > major
               else if nums ! 1 \<noteq> minor then nums ! 1 > minor
               else nums ! 2 \<ge> patch)"

section \<open>References\<close>

definition rr_matches :: "ref_record \<Rightarrow> request \<Rightarrow> bool" where
  "rr_matches r req =
     (if rr_action r \<noteq> rq_action req \<or> rr_delete r \<noteq> rq_delete req then False
      else if rr_action r = Add then rr_url r = rq_url req
      else rr_hash r = rq_hash req)"

definition pe_matches :: "pending \<Rightarrow> request \<Rightarrow> bool" where
  "pe_matches p req =
     (if pe_action p \<noteq> rq_action req \<or> pe_delete p \<noteq> rq_delete req then False
      else if pe_action p = Add then pe_url p = rq_url req
      else pe_hash p = rq_hash req)"

text \<open>A \<^verbatim>\<open>Stage1\<close> with only the outcome set, and one with only the replayed result.\<close>

definition outcome_only :: "string \<Rightarrow> stage1" where
  "outcome_only oc = \<lparr>s1_outcome = oc, s1_mutation = 0, s1_action = OtherAction [], s1_hash = [],
     s1_replay = None\<rparr>"

definition replay_of :: "ref_record \<Rightarrow> stage1" where
  "replay_of r = (outcome_only [])\<lparr>s1_replay := Some \<lparr>rs_mutation = rr_mutation r,
     rs_action = rr_action r, rs_hash = rr_hash r, rs_status = rr_status r\<rparr>\<rparr>"

definition accepted :: "nat \<Rightarrow> action \<Rightarrow> string \<Rightarrow> stage1" where
  "accepted mut a h = \<lparr>s1_outcome = OutcomeAccepted, s1_mutation = mut, s1_action = a, s1_hash = h,
     s1_replay = None\<rparr>"

fun lookup_ring :: "ref_record list \<Rightarrow> request \<Rightarrow> stage1 option" where
  "lookup_ring [] req = None"
| "lookup_ring (r # rs) req =
     (if rr_ref r = rq_ref req then
        (if \<not> rr_matches r req then Some (outcome_only CodeRefConflict)
         else if rr_outcome r \<noteq> [] then Some (outcome_only (rr_outcome r))
         else Some (replay_of r))
      else lookup_ring rs req)"

definition lookupRefLocked :: "request \<Rightarrow> 'b mutator \<Rightarrow> stage1 option" where
  "lookupRefLocked req m =
     (case m_get (mt_inflight m) (rq_ref req) of
        Some p \<Rightarrow> if \<not> pe_matches p req then Some (outcome_only CodeRefConflict)
                  else Some (accepted (pe_mutation p) (pe_action p) (pe_hash p))
      | None \<Rightarrow> lookup_ring (mt_ring m) req)"

definition appendRingLocked :: "ref_record \<Rightarrow> 'b mutator \<Rightarrow> 'b mutator" where
  "appendRingLocked rec m =
     (if length (mt_ring m) \<ge> mo_ring (mt_opts m)
      then m\<lparr>mt_ring := tl (mt_ring m) @ [rec]\<rparr>
      else m\<lparr>mt_ring := mt_ring m @ [rec]\<rparr>)"

section \<open>The backend call\<close>

text \<open>The mutation surface of the adapter: one constructor per method of \<^verbatim>\<open>Backend\<close>.\<close>

datatype backend_call =
    StopTorrent string | StartTorrent string | PauseTorrent string | ResumeTorrent string
  | AddMagnet string | DeleteTorrent string bool

text \<open>\<open>exec\<close> is what the backend answers to a call: an error, or the echoed hashes (empty for every
  call but \<^verbatim>\<open>AddMagnet\<close>).\<close>

definition modern_api :: "string \<Rightarrow> bool" where
  "modern_api ver \<longleftrightarrow> ver = [] \<or> webapiAtLeast ver 2 11 0"

definition the_call :: "request \<Rightarrow> string \<Rightarrow> backend_call option" where
  "the_call req ver =
     (case rq_action req of
        Pause \<Rightarrow> Some (if modern_api ver then StopTorrent (rq_hash req) else PauseTorrent (rq_hash req))
      | Resume \<Rightarrow>
          Some (if modern_api ver then StartTorrent (rq_hash req) else ResumeTorrent (rq_hash req))
      | Add \<Rightarrow> Some (AddMagnet (rq_url req))
      | Remove \<Rightarrow> Some (DeleteTorrent (rq_hash req) (rq_delete req))
      | OtherAction _ \<Rightarrow> None)"

text \<open>\<^verbatim>\<open>ParseMagnetHash\<close> yields the empty string where it fails.\<close>

definition magnet_hash :: "string \<Rightarrow> string" where
  "magnet_hash u = (case ParseMagnetHash u of None \<Rightarrow> [] | Some h \<Rightarrow> h)"

definition submitBackend :: "(backend_call \<Rightarrow> err + string list) \<Rightarrow> request \<Rightarrow> string \<Rightarrow> err option" where
  "submitBackend exec req ver =
     (case the_call req ver of
        None \<Rightarrow> Some (Opaque ''unknown action'')
      | Some call \<Rightarrow>
          (case exec call of
             Inl e \<Rightarrow> Some e
           | Inr echo \<Rightarrow>
               if rq_action req = Add \<and> echo \<noteq> [] \<and> hd echo \<noteq> magnet_hash (rq_url req)
               then Some (Opaque ''backend echoed foreign hash'')
               else None))"

definition classifySubmit :: "err \<Rightarrow> string" where
  "classifySubmit e =
     (if errors_Is e ErrUnreachable \<or> errors_Is e ErrBanned \<or> errors_Is e ErrBadCredentials
         \<or> errors_Is e ErrUnauthorized
      then CodeBackendUnavailable
      else if errors_Is e ErrConflict then CodeBackendRejected
      else CodeBackendRejected)"

section \<open>Submit\<close>

text \<open>The first critical section: a known reference, or too many mutations in flight.\<close>

definition submit_early :: "request \<Rightarrow> 'b mutator \<Rightarrow> stage1 option" where
  "submit_early req m =
     (case lookupRefLocked req m of
        Some s1 \<Rightarrow> Some s1
      | None \<Rightarrow> if m_len (mt_inflight m) \<ge> mo_max (mt_opts m) then Some (outcome_only CodeBusy)
                else None)"

text \<open>The validation against a committed state: a rejection code, or the hash to register.\<close>

definition backend_up :: "state \<Rightarrow> string \<Rightarrow> string + string" where
  "backend_up st h = (if \<not> st_ok st then Inl CodeBackendUnavailable else Inr h)"

definition validate :: "request \<Rightarrow> state \<Rightarrow> string + string" where
  "validate req st =
     (case rq_action req of
        Add \<Rightarrow>
          (case ParseMagnetHash (rq_url req) of
             None \<Rightarrow> Inl CodeInvalidURL
           | Some h \<Rightarrow> if m_get (st_torrents st) h \<noteq> None then Inl CodeDuplicate
                       else backend_up st h)
      | OtherAction _ \<Rightarrow> Inl CodeBackendRejected
      | _ \<Rightarrow> if m_get (st_torrents st) (rq_hash req) = None then Inl CodeStaleTorrent
             else backend_up st (rq_hash req))"

definition reject :: "request \<Rightarrow> nat \<Rightarrow> string \<Rightarrow> 'b mutator \<Rightarrow> stage1 \<times> 'b mutator" where
  "reject req mut rcode m =
     (outcome_only rcode,
      appendRingLocked \<lparr>rr_ref = rq_ref req, rr_action = rq_action req, rr_hash = rq_hash req,
        rr_url = rq_url req, rr_delete = rq_delete req, rr_outcome = rcode, rr_status = [],
        rr_mutation = mut\<rparr> m)"

text \<open>The registration: an answer without registration, or the registered mutation.\<close>

definition new_pending :: "request \<Rightarrow> string \<Rightarrow> nat \<Rightarrow> 'b mutator \<Rightarrow> pending" where
  "new_pending req h now m = \<lparr>pe_mutation = Suc (mt_next m), pe_action = rq_action req, pe_hash = h,
     pe_url = rq_url req, pe_delete = rq_delete req,
     pe_deadline = now + mo_window (mt_opts m), pe_epoch = mt_epoch m\<rparr>"

definition register :: "request \<Rightarrow> string \<Rightarrow> nat \<Rightarrow> 'b mutator \<Rightarrow> (stage1 + pending) \<times> 'b mutator" where
  "register req h now m =
     (if mt_draining m then (Inl (outcome_only CodeBusy), m)
      else case lookupRefLocked req m of
             Some s1 \<Rightarrow> (Inl s1, m)
           | None \<Rightarrow>
               if m_len (mt_inflight m) \<ge> mo_max (mt_opts m) then (Inl (outcome_only CodeBusy), m)
               else let p = new_pending req h now m in
                    (Inr p, m\<lparr>mt_next := Suc (mt_next m),
                              mt_inflight := m_put (rq_ref req) p (mt_inflight m)\<rparr>))"

definition backend_failed :: "request \<Rightarrow> string \<Rightarrow> err \<Rightarrow> 'b mutator \<Rightarrow> stage1 \<times> 'b mutator" where
  "backend_failed req h e m =
     (outcome_only (classifySubmit e),
      appendRingLocked \<lparr>rr_ref = rq_ref req, rr_action = rq_action req, rr_hash = h,
        rr_url = rq_url req, rr_delete = rq_delete req, rr_outcome = classifySubmit e,
        rr_status = [], rr_mutation = 0\<rparr>
        (m\<lparr>mt_inflight := m_del (rq_ref req) (mt_inflight m)\<rparr>))"

text \<open>
  \<^verbatim>\<open>Submit\<close> without interference: the answer, the mutator after it, and the backend call that was
  made, with the backend it went to.
\<close>

definition lower_hash :: "request \<Rightarrow> request" where
  "lower_hash req = req\<lparr>rq_hash := to_lower (rq_hash req)\<rparr>"

definition Submit :: "('b \<Rightarrow> backend_call \<Rightarrow> err + string list) \<Rightarrow> request \<Rightarrow> state \<Rightarrow> nat \<Rightarrow>
    'b mutator \<Rightarrow> stage1 \<times> 'b mutator \<times> ('b \<times> backend_call) option" where
  "Submit exec req0 st now m =
     (let req = lower_hash req0 in
      case submit_early req m of
        Some s1 \<Rightarrow> (s1, m, None)
      | None \<Rightarrow>
          (case validate req st of
             Inl rcode \<Rightarrow> (let (s1, m1) = reject req 0 rcode m in (s1, m1, None))
           | Inr h \<Rightarrow>
               (case register req h now m of
                  (Inl s1, m1) \<Rightarrow> (s1, m1, None)
                | (Inr p, m1) \<Rightarrow>
                    let called = map_option (Pair (mt_backend m)) (the_call req (st_api st)) in
                    (case submitBackend (exec (mt_backend m)) req (st_api st) of
                       Some e \<Rightarrow> (let (s1, m2) = backend_failed req h e m1 in (s1, m2, called))
                     | None \<Rightarrow> (accepted (pe_mutation p) (rq_action req) h, m1, called)))))"

section \<open>Reconciliation\<close>

definition checkIntent :: "pending \<Rightarrow> state \<Rightarrow> string option" where
  "checkIntent p st =
     (if \<not> st_ok st then None
      else case pe_action p of
        Pause \<Rightarrow> (case m_get (st_torrents st) (pe_hash p) of
            Some t \<Rightarrow> if t_state t = StatePaused then Some StatusConfirmed else None
          | None \<Rightarrow> None)
      | Resume \<Rightarrow> (case m_get (st_torrents st) (pe_hash p) of
            Some t \<Rightarrow> if t_state t \<noteq> StatePaused then Some StatusConfirmed else None
          | None \<Rightarrow> None)
      | Add \<Rightarrow> (if m_get (st_torrents st) (pe_hash p) \<noteq> None then Some StatusConfirmed else None)
      | Remove \<Rightarrow> (if m_get (st_torrents st) (pe_hash p) = None then Some StatusConfirmed else None)
      | OtherAction _ \<Rightarrow> None)"

definition settle :: "state \<Rightarrow> nat \<Rightarrow> nat \<Rightarrow> pending \<Rightarrow> string option" where
  "settle st now epoch p =
     (if pe_epoch p \<noteq> epoch then Some StatusTimeout
      else case checkIntent p st of
             Some status \<Rightarrow> Some status
           | None \<Rightarrow> if now > pe_deadline p then Some StatusTimeout else None)"

definition result_of :: "pending \<Rightarrow> string \<Rightarrow> result" where
  "result_of p status = \<lparr>rs_mutation = pe_mutation p, rs_action = pe_action p, rs_hash = pe_hash p,
     rs_status = status\<rparr>"

definition record_of :: "string \<Rightarrow> pending \<Rightarrow> string \<Rightarrow> ref_record" where
  "record_of ref p status = \<lparr>rr_ref = ref, rr_action = pe_action p, rr_hash = pe_hash p,
     rr_url = pe_url p, rr_delete = pe_delete p, rr_outcome = [], rr_status = status,
     rr_mutation = pe_mutation p\<rparr>"

text \<open>The loop over the in-flight map, which deletes the entries it settles.\<close>

fun reconcile_loop :: "state \<Rightarrow> nat \<Rightarrow> (string \<times> pending) list \<Rightarrow> result list \<times> 'b mutator \<Rightarrow>
    result list \<times> 'b mutator" where
  "reconcile_loop st now [] acc = acc"
| "reconcile_loop st now ((ref, p) # rest) (finished, m) =
     (case settle st now (mt_epoch m) p of
        None \<Rightarrow> reconcile_loop st now rest (finished, m)
      | Some status \<Rightarrow>
          let m1 = appendRingLocked (record_of ref p status) m;
              m2 = m1\<lparr>mt_inflight := m_del ref (mt_inflight m1)\<rparr>
          in reconcile_loop st now rest (finished @ [result_of p status], m2))"

definition reconcile_locked :: "state \<Rightarrow> nat \<Rightarrow> 'b mutator \<Rightarrow> result list \<times> 'b mutator" where
  "reconcile_locked st now m = reconcile_loop st now (mt_inflight m) ([], m)"

section \<open>Results\<close>

definition rchan_cap :: nat where
  "rchan_cap = 16"

definition Results :: "nat \<Rightarrow> 'b mutator \<Rightarrow> 'b mutator" where
  "Results c m = m\<lparr>mt_subs := c # mt_subs m,
     mt_chans := m_put c \<lparr>rc_buf = [], rc_closed = False\<rparr> (mt_chans m)\<rparr>"

definition close_rchan :: "nat \<Rightarrow> 'b mutator \<Rightarrow> 'b mutator" where
  "close_rchan c m = m\<lparr>mt_subs := removeAll c (mt_subs m),
     mt_chans := (case m_get (mt_chans m) c of None \<Rightarrow> mt_chans m
       | Some q \<Rightarrow> m_put c (q\<lparr>rc_closed := True\<rparr>) (mt_chans m))\<rparr>"

definition cancelResults :: "nat \<Rightarrow> 'b mutator \<Rightarrow> 'b mutator" where
  "cancelResults c m = (if c \<in> set (mt_subs m) then close_rchan c m else m)"

definition offer_result :: "result \<Rightarrow> nat \<Rightarrow> 'b mutator \<Rightarrow> 'b mutator" where
  "offer_result r c m =
     (case m_get (mt_chans m) c of
        None \<Rightarrow> m
      | Some q \<Rightarrow> if length (rc_buf q) < rchan_cap
                  then m\<lparr>mt_chans := m_put c (q\<lparr>rc_buf := rc_buf q @ [r]\<rparr>) (mt_chans m)\<rparr>
                  else close_rchan c m)"

definition publish_result :: "result \<Rightarrow> 'b mutator \<Rightarrow> 'b mutator" where
  "publish_result r m = fold (offer_result r) (mt_subs m) m"

definition reconcile :: "state \<Rightarrow> nat \<Rightarrow> 'b mutator \<Rightarrow> 'b mutator" where
  "reconcile st now m =
     (let (finished, m1) = reconcile_locked st now m in fold publish_result finished m1)"

end
