(* ===== verification/MutatorLemmas.thy ===== *)
theory MutatorLemmas
  imports Mutator
begin

text \<open>
  Lemmas about the mutator's operations: what each critical section changes, the ring as "the
  last \<open>RingSize\<close> records", the result of a reconciliation as a filter over the in-flight map,
  and the well-formedness \<open>mut_wf\<close> that every operation keeps.
\<close>

section \<open>Frames\<close>

named_theorems mut_frame

lemma appendRing_fields [mut_frame]:
  "mt_opts (appendRingLocked r m) = mt_opts m" "mt_backend (appendRingLocked r m) = mt_backend m"
  "mt_epoch (appendRingLocked r m) = mt_epoch m" "mt_draining (appendRingLocked r m) = mt_draining m"
  "mt_next (appendRingLocked r m) = mt_next m" "mt_inflight (appendRingLocked r m) = mt_inflight m"
  "mt_subs (appendRingLocked r m) = mt_subs m" "mt_chans (appendRingLocked r m) = mt_chans m"
  by (simp_all add: appendRingLocked_def)

lemma close_rchan_fields [mut_frame]:
  "mt_opts (close_rchan c m) = mt_opts m" "mt_backend (close_rchan c m) = mt_backend m"
  "mt_epoch (close_rchan c m) = mt_epoch m" "mt_draining (close_rchan c m) = mt_draining m"
  "mt_next (close_rchan c m) = mt_next m" "mt_inflight (close_rchan c m) = mt_inflight m"
  "mt_ring (close_rchan c m) = mt_ring m"
  by (simp_all add: close_rchan_def)

lemma offer_result_fields [mut_frame]:
  "mt_opts (offer_result r c m) = mt_opts m" "mt_backend (offer_result r c m) = mt_backend m"
  "mt_epoch (offer_result r c m) = mt_epoch m" "mt_draining (offer_result r c m) = mt_draining m"
  "mt_next (offer_result r c m) = mt_next m" "mt_inflight (offer_result r c m) = mt_inflight m"
  "mt_ring (offer_result r c m) = mt_ring m"
  by (simp_all add: offer_result_def mut_frame split: option.splits)

lemma fold_offer_fields:
  "mt_opts (fold (offer_result r) cs m) = mt_opts m \<and>
   mt_backend (fold (offer_result r) cs m) = mt_backend m \<and>
   mt_epoch (fold (offer_result r) cs m) = mt_epoch m \<and>
   mt_draining (fold (offer_result r) cs m) = mt_draining m \<and>
   mt_next (fold (offer_result r) cs m) = mt_next m \<and>
   mt_inflight (fold (offer_result r) cs m) = mt_inflight m \<and>
   mt_ring (fold (offer_result r) cs m) = mt_ring m"
  by (induction cs arbitrary: m) (simp_all add: mut_frame)

lemma publish_result_fields [mut_frame]:
  "mt_opts (publish_result r m) = mt_opts m" "mt_backend (publish_result r m) = mt_backend m"
  "mt_epoch (publish_result r m) = mt_epoch m" "mt_draining (publish_result r m) = mt_draining m"
  "mt_next (publish_result r m) = mt_next m" "mt_inflight (publish_result r m) = mt_inflight m"
  "mt_ring (publish_result r m) = mt_ring m"
  using fold_offer_fields[of r "mt_subs m" m] by (simp_all add: publish_result_def)

lemma fold_publish_fields:
  "mt_opts (fold publish_result rs m) = mt_opts m \<and>
   mt_backend (fold publish_result rs m) = mt_backend m \<and>
   mt_epoch (fold publish_result rs m) = mt_epoch m \<and>
   mt_draining (fold publish_result rs m) = mt_draining m \<and>
   mt_next (fold publish_result rs m) = mt_next m \<and>
   mt_inflight (fold publish_result rs m) = mt_inflight m \<and>
   mt_ring (fold publish_result rs m) = mt_ring m"
  by (induction rs arbitrary: m) (simp_all add: mut_frame)

section \<open>The ring\<close>

definition last_n :: "nat \<Rightarrow> 'a list \<Rightarrow> 'a list" where
  "last_n n xs = drop (length xs - n) xs"

lemma length_last_n: "length (last_n n xs) = min n (length xs)"
  by (simp add: last_n_def)

lemma last_n_id: "length xs \<le> n \<Longrightarrow> last_n n xs = xs"
  by (simp add: last_n_def)

lemma last_n_append: "last_n n (last_n n xs @ ys) = last_n n (xs @ ys)"
proof (cases "length xs \<le> n")
  case True
  then show ?thesis by (simp add: last_n_id)
next
  case False
  then have "length (last_n n xs) = n"
    by (simp add: length_last_n)
  with False show ?thesis
    by (simp add: last_n_def) (simp add: drop_drop add.commute)
qed

lemma appendRing_ring:
  assumes "length (mt_ring m) \<le> mo_ring (mt_opts m)" "0 < mo_ring (mt_opts m)"
  shows "mt_ring (appendRingLocked r m) = last_n (mo_ring (mt_opts m)) (mt_ring m @ [r])"
proof (cases "length (mt_ring m) \<ge> mo_ring (mt_opts m)")
  case True
  with assms show ?thesis
    by (cases "mt_ring m") (simp_all add: appendRingLocked_def last_n_def)
next
  case False
  then show ?thesis
    by (simp add: appendRingLocked_def last_n_id)
qed

section \<open>Reconciliation\<close>

definition settled :: "state \<Rightarrow> nat \<Rightarrow> nat \<Rightarrow> (string, pending) gomap \<Rightarrow> (string \<times> pending \<times> string) list" where
  "settled st now epoch ps = List.map_filter
     (\<lambda>(ref, p). map_option (\<lambda>status. (ref, p, status)) (settle st now epoch p)) ps"

lemma settled_simps:
  "settled st now epoch [] = []"
  "settled st now epoch ((ref, p) # ps) =
     (case settle st now epoch p of None \<Rightarrow> settled st now epoch ps
      | Some status \<Rightarrow> (ref, p, status) # settled st now epoch ps)"
  by (simp_all add: settled_def List.map_filter_simps split: option.splits)

lemma reconcile_loop_spec:
  assumes "reconcile_loop st now ps (fin, m) = (fin', m')"
    "length (mt_ring m) \<le> mo_ring (mt_opts m)" "0 < mo_ring (mt_opts m)"
  shows "fin' = fin @ List.map (\<lambda>(ref, p, s). result_of p s) (settled st now (mt_epoch m) ps) \<and>
    m' = m\<lparr>mt_inflight := fold m_del (List.map fst (settled st now (mt_epoch m) ps)) (mt_inflight m),
           mt_ring := last_n (mo_ring (mt_opts m))
             (mt_ring m @ List.map (\<lambda>(ref, p, s). record_of ref p s) (settled st now (mt_epoch m) ps))\<rparr>"
  using assms
proof (induction ps arbitrary: fin m)
  case Nil
  then show ?case by (simp add: settled_simps last_n_id)
next
  case (Cons x ps)
  obtain ref p where x: "x = (ref, p)" by force
  show ?case
  proof (cases "settle st now (mt_epoch m) p")
    case None
    then show ?thesis
      using Cons by (simp add: x settled_simps)
  next
    case (Some s)
    let ?m1 = "appendRingLocked (record_of ref p s) m"
    let ?m2 = "?m1\<lparr>mt_inflight := m_del ref (mt_inflight ?m1)\<rparr>"
    note ring = appendRing_ring[OF Cons.prems(2,3), of "record_of ref p s"]
    have run: "reconcile_loop st now ps (fin @ [result_of p s], ?m2) = (fin', m')"
      using Cons.prems(1) Some by (simp add: x Let_def)
    have m1: "?m1 = m\<lparr>mt_ring := last_n (mo_ring (mt_opts m)) (mt_ring m @ [record_of ref p s])\<rparr>"
      using ring by (simp add: appendRingLocked_def split: if_splits)
    show ?thesis
      using Cons.IH[OF run] Cons.prems(2,3) Some
      by (simp add: x m1 settled_simps length_last_n last_n_append)
  qed
qed

lemma settled_mem:
  "(ref, p, s) \<in> set (settled st now epoch ps) \<longleftrightarrow> (ref, p) \<in> set ps \<and> settle st now epoch p = Some s"
  by (induction ps) (auto simp: settled_simps split: option.splits)

lemma m_get_fold_del: "m_get (fold m_del ks m) k = (if k \<in> set ks then None else m_get m k)"
  by (induction ks arbitrary: m) (auto simp: gomap_simps)

lemma m_ok_fold_del: "m_ok m \<Longrightarrow> m_ok (fold m_del ks m)"
  by (induction ks arbitrary: m) (auto simp: gomap_simps)

lemma m_len_fold_del: "m_ok m \<Longrightarrow> m_len (fold m_del ks m) \<le> m_len m"
proof (induction ks arbitrary: m)
  case (Cons k ks)
  then have "m_len (fold m_del ks (m_del k m)) \<le> m_len (m_del k m)"
    by (simp add: gomap_simps)
  also have "\<dots> \<le> m_len m"
    by (rule gm.len_del_le[OF Cons.prems])
  finally show ?case by simp
qed simp

lemma keys_settled:
  assumes "m_ok ps"
  shows "k \<in> set (List.map fst (settled st now epoch ps)) \<longleftrightarrow>
    (\<exists>p. m_get ps k = Some p \<and> settle st now epoch p \<noteq> None)"
proof -
  have "k \<in> set (List.map fst (settled st now epoch ps)) \<longleftrightarrow>
      (\<exists>p s. (k, p, s) \<in> set (settled st now epoch ps))"
    by force
  then show ?thesis
    by (auto simp: settled_mem m_get_mem[OF assms])
qed

text \<open>What remains in flight after a reconciliation: the entries that did not settle.\<close>

lemma m_get_settled:
  assumes "m_ok ps"
  shows "m_get (fold m_del (List.map fst (settled st now epoch ps)) ps) k =
    (case m_get ps k of None \<Rightarrow> None
     | Some p \<Rightarrow> if settle st now epoch p = None then Some p else None)"
  by (auto simp only: m_get_fold_del keys_settled[OF assms] split: option.splits) auto

section \<open>Well-formedness\<close>

definition mut_ids_ok :: "(string, pending) gomap \<Rightarrow> nat \<Rightarrow> bool" where
  "mut_ids_ok ps n \<longleftrightarrow>
     (\<forall>k p. m_get ps k = Some p \<longrightarrow> 0 < pe_mutation p \<and> pe_mutation p \<le> n) \<and>
     (\<forall>k k' p p'. m_get ps k = Some p \<longrightarrow> m_get ps k' = Some p' \<longrightarrow>
        pe_mutation p = pe_mutation p' \<longrightarrow> k = k')"

definition mut_wf :: "'b mutator \<Rightarrow> bool" where
  "mut_wf m \<longleftrightarrow> m_ok (mt_inflight m) \<and> 0 < mo_max (mt_opts m) \<and> 0 < mo_ring (mt_opts m) \<and>
     m_len (mt_inflight m) \<le> mo_max (mt_opts m) \<and> length (mt_ring m) \<le> mo_ring (mt_opts m) \<and>
     mut_ids_ok (mt_inflight m) (mt_next m) \<and>
     (\<forall>k p. m_get (mt_inflight m) k = Some p \<longrightarrow> pe_epoch p = mt_epoch m) \<and>
     (mt_draining m \<longrightarrow> m_len (mt_inflight m) = 0)"

lemma mut_wfD:
  assumes "mut_wf m"
  shows "m_ok (mt_inflight m)" "0 < mo_max (mt_opts m)" "0 < mo_ring (mt_opts m)"
    "m_len (mt_inflight m) \<le> mo_max (mt_opts m)" "length (mt_ring m) \<le> mo_ring (mt_opts m)"
    "mut_ids_ok (mt_inflight m) (mt_next m)"
    "m_get (mt_inflight m) k = Some p \<Longrightarrow> pe_epoch p = mt_epoch m"
    "mt_draining m \<Longrightarrow> m_len (mt_inflight m) = 0"
  using assms by (auto simp: mut_wf_def)

lemma mut_ids_empty: "mut_ids_ok m_empty n"
  by (simp add: mut_ids_ok_def gomap_simps)

lemma mut_ids_put:
  assumes "mut_ids_ok ps n" "pe_mutation p = Suc n"
  shows "mut_ids_ok (m_put k p ps) (Suc n)"
proof -
  have a: "0 < pe_mutation q \<and> pe_mutation q \<le> n" if "m_get ps j = Some q" for j q
    using assms(1) that unfolding mut_ids_ok_def by blast
  have b: "j = j'" if "m_get ps j = Some q" "m_get ps j' = Some q'" "pe_mutation q = pe_mutation q'"
    for j j' q q'
    using assms(1) that unfolding mut_ids_ok_def by blast
  show ?thesis
    unfolding mut_ids_ok_def
    by (auto simp: gm.get_put assms(2) split: if_splits dest: a intro: b)
qed

lemma mut_ids_sub:
  assumes "mut_ids_ok ps n" "\<And>k p. m_get qs k = Some p \<Longrightarrow> m_get ps k = Some p"
  shows "mut_ids_ok qs n"
  using assms(1) unfolding mut_ids_ok_def by (blast dest: assms(2))

lemma mut_wf_new: "mut_wf (new_mutator b opts)"
  by (simp add: mut_wf_def new_mutator_def fill_mut_options_def mut_ids_empty gomap_simps)

lemma mut_wf_cong:
  assumes "mut_wf m" "mt_opts m' = mt_opts m" "mt_epoch m' = mt_epoch m"
    "mt_draining m' = mt_draining m" "mt_next m' = mt_next m" "mt_inflight m' = mt_inflight m"
    "length (mt_ring m') \<le> mo_ring (mt_opts m)"
  shows "mut_wf m'"
  using assms by (simp add: mut_wf_def)

lemma mut_wf_publish: "mut_wf m \<Longrightarrow> mut_wf (publish_result r m)"
  by (rule mut_wf_cong[of m]) (simp_all add: mut_frame mut_wfD)

lemma mut_wf_subs: "mut_wf m \<Longrightarrow> mut_wf (m\<lparr>mt_subs := s, mt_chans := cs\<rparr>)"
  by (rule mut_wf_cong[of m]) (simp_all add: mut_wfD)

lemma mut_wf_append: "mut_wf m \<Longrightarrow> mut_wf (appendRingLocked r m)"
  by (rule mut_wf_cong[of m]) (simp_all add: mut_frame appendRing_ring mut_wfD length_last_n)

lemma mut_wf_fewer:
  assumes "mut_wf m" "m_ok qs" "\<And>k p. m_get qs k = Some p \<Longrightarrow> m_get (mt_inflight m) k = Some p"
  shows "mut_wf (m\<lparr>mt_inflight := qs\<rparr>)"
proof -
  have "set (m_keys qs) \<subseteq> set (m_keys (mt_inflight m))"
    unfolding subset_iff gm.in_keys using assms(3) by (metis not_None_eq)
  then have "m_len qs \<le> m_len (mt_inflight m)"
    by (simp add: gm.len_card assms(2) mut_wfD(1)[OF assms(1)] card_mono)
  moreover have "mut_ids_ok qs (mt_next m)"
    by (rule mut_ids_sub[OF mut_wfD(6)[OF assms(1)] assms(3)])
  moreover have "pe_epoch p = mt_epoch m" if "m_get qs k = Some p" for k p
    by (rule mut_wfD(7)[OF assms(1) assms(3)[OF that]])
  ultimately show ?thesis
    using assms(1,2) by (auto simp: mut_wf_def)
qed

lemma mut_wf_register:
  assumes "mut_wf m" "register req h now m = (r, m')"
  shows "mut_wf m'"
proof (cases r)
  case (Inl s1)
  then show ?thesis
    using assms by (auto simp: register_def Let_def split: if_splits option.splits)
next
  case (Inr p)
  then have r: "\<not> mt_draining m" "lookupRefLocked req m = None"
    "m_len (mt_inflight m) < mo_max (mt_opts m)" "p = new_pending req h now m"
    "m' = m\<lparr>mt_next := Suc (mt_next m), mt_inflight := m_put (rq_ref req) p (mt_inflight m)\<rparr>"
    using assms(2) by (auto simp: register_def Let_def split: if_splits option.splits)
  have "m_len (m_put (rq_ref req) p (mt_inflight m)) \<le> Suc (m_len (mt_inflight m))"
    by (rule gm.len_put_le[OF mut_wfD(1)[OF assms(1)]])
  moreover have "mut_ids_ok (m_put (rq_ref req) p (mt_inflight m)) (Suc (mt_next m))"
    by (rule mut_ids_put[OF mut_wfD(6)[OF assms(1)]]) (simp add: r(4) new_pending_def)
  moreover have "pe_epoch p = mt_epoch m"
    by (simp add: r(4) new_pending_def)
  ultimately show ?thesis
    using assms(1) r(1,3) by (auto simp: mut_wf_def r(5) gomap_simps)
qed

lemma mut_wf_del: "mut_wf m \<Longrightarrow> mut_wf (m\<lparr>mt_inflight := m_del k (mt_inflight m)\<rparr>)"
  by (rule mut_wf_fewer) (auto simp: gomap_simps mut_wfD split: if_splits)

lemma mut_wf_backend_failed: "mut_wf m \<Longrightarrow> mut_wf (snd (backend_failed req h e m))"
  by (simp add: backend_failed_def mut_wf_append mut_wf_del)

lemma mut_wf_reject: "mut_wf m \<Longrightarrow> mut_wf (snd (reject req k rcode m))"
  by (simp add: reject_def mut_wf_append)

lemma mut_wf_begin: "mut_wf m \<Longrightarrow> mut_wf (snd (BeginSwitch m))"
  by (simp add: BeginSwitch_def mut_wf_def)

lemma mut_wf_abort: "mut_wf m \<Longrightarrow> mut_wf (AbortSwitch m)"
  by (simp add: AbortSwitch_def mut_wf_def)

lemma mut_wf_commit:
  assumes "mut_wf m" "mt_draining m"
  shows "mut_wf (CommitSwap b m)"
proof -
  have "m_get (mt_inflight m) k = None" for k
    by (rule gm.len_zero_get[OF mut_wfD(1)[OF assms(1)] mut_wfD(8)[OF assms]])
  then show ?thesis
    using assms(1) by (simp add: mut_wf_def CommitSwap_def)
qed

text \<open>A reconciliation of a well-formed mutator, in one equation.\<close>

lemma reconcile_locked_spec:
  assumes "mut_wf m" "reconcile_locked st now m = (fin, m')"
  defines "S \<equiv> settled st now (mt_epoch m) (mt_inflight m)"
  shows "fin = List.map (\<lambda>(ref, p, s). result_of p s) S"
    "m' = m\<lparr>mt_inflight := fold m_del (List.map fst S) (mt_inflight m),
       mt_ring := last_n (mo_ring (mt_opts m)) (mt_ring m @ List.map (\<lambda>(ref, p, s). record_of ref p s) S)\<rparr>"
  using reconcile_loop_spec[OF assms(2)[unfolded reconcile_locked_def]
      mut_wfD(5)[OF assms(1)] mut_wfD(3)[OF assms(1)]]
  by (simp_all add: S_def)

lemma mut_wf_reconcile:
  assumes "mut_wf m" "reconcile_locked st now m = (fin, m')"
  shows "mut_wf m'"
proof -
  let ?S = "settled st now (mt_epoch m) (mt_inflight m)"
  let ?qs = "fold m_del (List.map fst ?S) (mt_inflight m)"
  have "mut_wf (m\<lparr>mt_inflight := ?qs\<rparr>)"
    by (rule mut_wf_fewer[OF assms(1)])
      (auto simp: m_ok_fold_del mut_wfD[OF assms(1)] m_get_settled split: option.splits if_splits)
  then show ?thesis
    by (rule mut_wf_cong)
      (simp_all add: reconcile_locked_spec(2)[OF assms] length_last_n)
qed

section \<open>Magnet links\<close>

lemma first_btih_valid: "first_btih ps = Some h \<Longrightarrow> validHash h \<and> to_lower h = h"
  by (induction ps) (auto simp: validHash_to_lower split: option.splits if_splits)

lemma ParseMagnetHash_valid: "ParseMagnetHash u = Some h \<Longrightarrow> validHash h \<and> to_lower h = h"
  by (auto simp: ParseMagnetHash_def first_btih_valid split: if_splits)

lemma validate_hash:
  assumes "validate req st = Inr h"
  shows "st_ok st" "rq_action req = Add \<Longrightarrow> ParseMagnetHash (rq_url req) = Some h \<and>
      m_get (st_torrents st) h = None"
    "rq_action req \<noteq> Add \<Longrightarrow> h = rq_hash req \<and> m_get (st_torrents st) h \<noteq> None"
  using assms
  by (auto simp: validate_def backend_up_def split: action.splits option.splits if_splits)

end
