(* ===== verification/MutatorMachine.thy ===== *)
theory MutatorMachine
  imports MutatorLemmas
begin

text \<open>
  The mutator under concurrency. Any number of \<^verbatim>\<open>Submit\<close> goroutines (one program counter per
  thread), the reconciler and one backend switch at a time run their critical sections in any
  order; the syncer's committed state changes underneath them. A switch follows the order of
  \<^verbatim>\<open>Manager.Configure\<close>: \<open>BeginSwitch\<close>, the syncer's \<open>SwitchBackend\<close>, \<open>CommitSwap\<close> (or
  \<open>AbortSwitch\<close> before the syncer was switched). Two fields are ghosts: \<open>z_results\<close> lists every terminal
  result that a reconciliation has produced, and \<open>z_homes\<close> every mutation that was registered, with the
  backend that its call goes to.
\<close>

section \<open>The machine\<close>

datatype 'b submit_pc =
    SIdle
  | SEarly request
  | SRejecting request string
  | SValidated request string string
  | SRegistered request string pending 'b string
  | SFailing request string err
  | SAnswered stage1

datatype reconcile_pc = RIdle | RRead state | RPublish "result list"

datatype 'b switch_pc = WIdle | WBegun | WSwitched 'b

record 'b mmachine =
  z_m :: "'b mutator"
  z_sync :: "'b syncer"
  z_sub :: "nat \<Rightarrow> 'b submit_pc"
  z_rec :: reconcile_pc
  z_sw :: "'b switch_pc"
  z_results :: "result list"
  z_homes :: "(nat \<times> 'b) list"

datatype 'b mut_event =
    MSubmit nat request | MValidate nat | MReject nat | MRegister nat nat
  | MBackend nat "err + string list" | MFail nat
  | MRead | MReconcile nat | MPublish
  | MBegin | MAbort | MSyncSwitch 'b | MCommit
  | MState state | MResults nat | MCancel nat

definition mm_init :: "'b mmachine \<Rightarrow> bool" where
  "mm_init z \<longleftrightarrow> (\<exists>b opts. z_m z = new_mutator b opts \<and> z_sync z = new_syncer b) \<and>
     z_sub z = (\<lambda>_. SIdle) \<and> z_rec z = RIdle \<and> z_sw z = WIdle \<and> z_results z = [] \<and> z_homes z = []"

definition early_pc :: "request \<Rightarrow> 'b mutator \<Rightarrow> 'b submit_pc" where
  "early_pc req m = (case submit_early req m of Some s1 \<Rightarrow> SAnswered s1 | None \<Rightarrow> SEarly req)"

definition validated_pc :: "request \<Rightarrow> state \<Rightarrow> 'b submit_pc" where
  "validated_pc req st =
     (case validate req st of Inl c \<Rightarrow> SRejecting req c | Inr h \<Rightarrow> SValidated req h (st_api st))"

definition registered_pc :: "request \<Rightarrow> string \<Rightarrow> string \<Rightarrow> stage1 + pending \<Rightarrow> 'b mutator \<Rightarrow> 'b submit_pc" where
  "registered_pc req h api r m =
     (case r of Inl s1 \<Rightarrow> SAnswered s1 | Inr p \<Rightarrow> SRegistered req h p (mt_backend m) api)"

definition new_home :: "stage1 + pending \<Rightarrow> 'b mutator \<Rightarrow> (nat \<times> 'b) list" where
  "new_home r m = (case r of Inl _ \<Rightarrow> [] | Inr p \<Rightarrow> [(pe_mutation p, mt_backend m)])"

definition called_pc :: "request \<Rightarrow> string \<Rightarrow> pending \<Rightarrow> err option \<Rightarrow> 'b submit_pc" where
  "called_pc req h p e = (case e of
     Some e \<Rightarrow> SFailing req h e | None \<Rightarrow> SAnswered (accepted (pe_mutation p) (rq_action req) h))"

inductive mm_step :: "'b mmachine \<Rightarrow> 'b mut_event \<Rightarrow> 'b mmachine \<Rightarrow> bool" where
  mm_submit: "z_sub z t = SIdle \<Longrightarrow>
     mm_step z (MSubmit t req) (z\<lparr>z_sub := (z_sub z)(t := early_pc (lower_hash req) (z_m z))\<rparr>)"
| mm_validate: "z_sub z t = SEarly req \<Longrightarrow>
     mm_step z (MValidate t) (z\<lparr>z_sub := (z_sub z)(t := validated_pc req (s_cur (z_sync z)))\<rparr>)"
| mm_reject: "z_sub z t = SRejecting req c \<Longrightarrow> reject req 0 c (z_m z) = (s1, m') \<Longrightarrow>
     mm_step z (MReject t) (z\<lparr>z_m := m', z_sub := (z_sub z)(t := SAnswered s1)\<rparr>)"
| mm_register: "z_sub z t = SValidated req h api \<Longrightarrow> register req h now (z_m z) = (r, m') \<Longrightarrow>
     mm_step z (MRegister t now)
       (z\<lparr>z_m := m', z_sub := (z_sub z)(t := registered_pc req h api r (z_m z)),
          z_homes := z_homes z @ new_home r (z_m z)\<rparr>)"
| mm_backend: "z_sub z t = SRegistered req h p b api \<Longrightarrow>
     mm_step z (MBackend t answer)
       (z\<lparr>z_sub := (z_sub z)(t := called_pc req h p (submitBackend (\<lambda>_. answer) req api))\<rparr>)"
| mm_fail: "z_sub z t = SFailing req h e \<Longrightarrow> backend_failed req h e (z_m z) = (s1, m') \<Longrightarrow>
     mm_step z (MFail t) (z\<lparr>z_m := m', z_sub := (z_sub z)(t := SAnswered s1)\<rparr>)"
| mm_read: "z_rec z = RIdle \<Longrightarrow> mm_step z MRead (z\<lparr>z_rec := RRead (s_cur (z_sync z))\<rparr>)"
| mm_reconcile: "z_rec z = RRead st \<Longrightarrow> reconcile_locked st now (z_m z) = (fin, m') \<Longrightarrow>
     mm_step z (MReconcile now)
       (z\<lparr>z_m := m', z_rec := RPublish fin, z_results := z_results z @ fin\<rparr>)"
| mm_publish: "z_rec z = RPublish (r # rs) \<Longrightarrow>
     mm_step z MPublish (z\<lparr>z_m := publish_result r (z_m z), z_rec := RPublish rs\<rparr>)"
| mm_published: "z_rec z = RPublish [] \<Longrightarrow> mm_step z MPublish (z\<lparr>z_rec := RIdle\<rparr>)"
| mm_begin: "z_sw z = WIdle \<Longrightarrow> BeginSwitch (z_m z) = (ok, m') \<Longrightarrow>
     mm_step z MBegin (z\<lparr>z_m := m', z_sw := (if ok then WBegun else WIdle)\<rparr>)"
| mm_abort: "z_sw z = WBegun \<Longrightarrow>
     mm_step z MAbort (z\<lparr>z_m := AbortSwitch (z_m z), z_sw := WIdle\<rparr>)"
| mm_sync_switch: "z_sw z = WBegun \<Longrightarrow>
     mm_step z (MSyncSwitch b) (z\<lparr>z_sync := SwitchBackend b (z_sync z), z_sw := WSwitched b\<rparr>)"
| mm_commit: "z_sw z = WSwitched b \<Longrightarrow>
     mm_step z MCommit (z\<lparr>z_m := CommitSwap b (z_m z), z_sw := WIdle\<rparr>)"
| mm_state: "mm_step z (MState st) (z\<lparr>z_sync := (z_sync z)\<lparr>s_cur := st\<rparr>\<rparr>)"
| mm_results: "mm_step z (MResults c) (z\<lparr>z_m := Results c (z_m z)\<rparr>)"
| mm_cancel: "mm_step z (MCancel c) (z\<lparr>z_m := cancelResults c (z_m z)\<rparr>)"

inductive_cases mm_stepE: "mm_step z e z'"

section \<open>The invariant\<close>

definition results_ok :: "result list \<Rightarrow> 'b mutator \<Rightarrow> bool" where
  "results_ok rs m \<longleftrightarrow> distinct (List.map rs_mutation rs) \<and>
     (\<forall>r \<in> set rs. rs_mutation r \<le> mt_next m) \<and>
     (\<forall>k p. m_get (mt_inflight m) k = Some p \<longrightarrow> pe_mutation p \<notin> rs_mutation ` set rs)"

lemma results_okD:
  assumes "results_ok rs m"
  shows "distinct (List.map rs_mutation rs)" "r \<in> set rs \<Longrightarrow> rs_mutation r \<le> mt_next m"
    "m_get (mt_inflight m) k = Some p \<Longrightarrow> r \<in> set rs \<Longrightarrow> pe_mutation p \<noteq> rs_mutation r"
  using assms by (auto simp: results_ok_def)

lemma results_okI:
  assumes "distinct (List.map rs_mutation rs)" "\<And>r. r \<in> set rs \<Longrightarrow> rs_mutation r \<le> mt_next m"
    "\<And>k p r. m_get (mt_inflight m) k = Some p \<Longrightarrow> r \<in> set rs \<Longrightarrow> pe_mutation p \<noteq> rs_mutation r"
  shows "results_ok rs m"
  using assms by (auto simp: results_ok_def)

definition thread_ok :: "(nat \<times> 'b) list \<Rightarrow> 'b submit_pc \<Rightarrow> bool" where
  "thread_ok hs pc \<longleftrightarrow> (\<forall>req h p b api. pc = SRegistered req h p b api \<longrightarrow> (pe_mutation p, b) \<in> set hs)"

text \<open>Each mutation has one home, and what is in flight is at home at the current backend.\<close>

definition homes_ok :: "(nat \<times> 'b) list \<Rightarrow> 'b mutator \<Rightarrow> bool" where
  "homes_ok hs m \<longleftrightarrow> distinct (List.map fst hs) \<and> (\<forall>(n, b) \<in> set hs. n \<le> mt_next m) \<and>
     (\<forall>k p. m_get (mt_inflight m) k = Some p \<longrightarrow> (pe_mutation p, mt_backend m) \<in> set hs)"

definition mm_inv :: "'b mmachine \<Rightarrow> bool" where
  "mm_inv z \<longleftrightarrow> mut_wf (z_m z) \<and> (mt_draining (z_m z) \<longleftrightarrow> z_sw z \<noteq> WIdle) \<and>
     results_ok (z_results z) (z_m z) \<and> homes_ok (z_homes z) (z_m z) \<and> (\<forall>t. thread_ok (z_homes z) (z_sub z t))"

lemma mm_invD:
  assumes "mm_inv z"
  shows "mut_wf (z_m z)" "mt_draining (z_m z) \<longleftrightarrow> z_sw z \<noteq> WIdle"
    "results_ok (z_results z) (z_m z)" "thread_ok (z_homes z) (z_sub z t)" "homes_ok (z_homes z) (z_m z)"
  using assms by (auto simp: mm_inv_def)

text \<open>Nothing was added in flight, and no backend was changed: the pieces of the invariant carry over.\<close>

definition shrunk :: "'b mutator \<Rightarrow> 'b mutator \<Rightarrow> bool" where
  "shrunk m m' \<longleftrightarrow> mt_next m' = mt_next m \<and> mt_backend m' = mt_backend m \<and>
     (\<forall>k p. m_get (mt_inflight m') k = Some p \<longrightarrow> m_get (mt_inflight m) k = Some p)"

lemma results_ok_shrunk: "results_ok rs m \<Longrightarrow> shrunk m m' \<Longrightarrow> results_ok rs m'"
  by (simp add: results_ok_def shrunk_def) blast

lemma homes_ok_shrunk: "homes_ok hs m \<Longrightarrow> shrunk m m' \<Longrightarrow> homes_ok hs m'"
  by (simp add: homes_ok_def shrunk_def) blast

lemma mm_inv_shrunk:
  assumes "mm_inv z" "shrunk (z_m z) (z_m z')" "mut_wf (z_m z')"
    "mt_draining (z_m z') \<longleftrightarrow> z_sw z' \<noteq> WIdle" "z_results z' = z_results z" "z_homes z' = z_homes z"
    "\<And>t. z_sub z' t = z_sub z t \<or> thread_ok (z_homes z') (z_sub z' t)"
  shows "mm_inv z'"
proof -
  have "thread_ok (z_homes z') (z_sub z' t)" for t
    using assms(6) assms(7)[of t] mm_invD(4)[OF assms(1), of t] by auto
  then show ?thesis
    using assms(3-6) results_ok_shrunk[OF mm_invD(3)[OF assms(1)] assms(2)] homes_ok_shrunk[OF mm_invD(5)[OF assms(1)] assms(2)]
    by (simp add: mm_inv_def)
qed

lemma thread_ok_other [simp]:
  "thread_ok hs SIdle" "thread_ok hs (SEarly req)" "thread_ok hs (SRejecting req c)"
  "thread_ok hs (SValidated req h api)" "thread_ok hs (SFailing req h e)" "thread_ok hs (SAnswered s1)"
  by (simp_all add: thread_ok_def)

lemma thread_ok_pcs [simp]:
  "thread_ok hs (early_pc req m')" "thread_ok hs (validated_pc req st)" "thread_ok hs (called_pc req h p e)"
  by (simp_all add: early_pc_def validated_pc_def called_pc_def split: option.splits sum.splits)

lemma shrunk_refl [simp]: "shrunk m m"
  by (simp add: shrunk_def)

lemma shrunk_same:
  "mt_next m' = mt_next m \<Longrightarrow> mt_backend m' = mt_backend m \<Longrightarrow> mt_inflight m' = mt_inflight m \<Longrightarrow>
   shrunk m m'"
  by (simp add: shrunk_def)

section \<open>Preservation\<close>

lemma register_registered:
  assumes "register req h now m = (Inr p, m')"
  shows "p = new_pending req h now m" "mt_next m' = Suc (mt_next m)" "\<not> mt_draining m"
    "mt_inflight m' = m_put (rq_ref req) p (mt_inflight m)" "mt_backend m' = mt_backend m"
    "mt_draining m' = mt_draining m"
  using assms by (auto simp: register_def Let_def split: if_splits option.splits)

lemma register_refused:
  assumes "register req h now m = (Inl s1, m')"
  shows "m' = m"
  using assms by (auto simp: register_def Let_def split: if_splits option.splits)

lemma mm_inv_register:
  assumes inv: "mm_inv z" and reg: "register req h now (z_m z) = (r, m')"
  shows "mm_inv (z\<lparr>z_m := m', z_sub := (z_sub z)(t := registered_pc req h api r (z_m z)),
    z_homes := z_homes z @ new_home r (z_m z)\<rparr>)"
proof (cases r)
  case (Inl s1)
  with reg have "m' = z_m z"
    using register_refused by metis
  then show ?thesis
    by (intro mm_inv_shrunk[OF inv]) (simp_all add: Inl registered_pc_def new_home_def mm_invD[OF inv])
next
  case (Inr p)
  note reg' = register_registered[OF reg[unfolded Inr]]
  have id: "pe_mutation p = Suc (mt_next (z_m z))"
    by (simp add: reg'(1) new_pending_def)
  let ?hs = "z_homes z @ [(pe_mutation p, mt_backend (z_m z))]"
  have "thread_ok ?hs (z_sub z t')" for t'
    using mm_invD(4)[OF inv, of t'] by (auto simp: thread_ok_def)
  moreover have "thread_ok ?hs (SRegistered req h p (mt_backend (z_m z)) api)"
    by (simp add: thread_ok_def)
  moreover have "homes_ok ?hs m'"
    using mm_invD(5)[OF inv] id reg'(2,4,5)
    by (fastforce simp: homes_ok_def gomap_simps split: if_splits)
  moreover have "results_ok (z_results z) m'"
  proof (rule results_okI)
    note res = results_okD[OF mm_invD(3)[OF inv]]
    show "distinct (List.map rs_mutation (z_results z))"
      by (rule res(1))
    show "rs_mutation r \<le> mt_next m'" if "r \<in> set (z_results z)" for r
      using res(2)[OF that] by (simp add: reg'(2))
    show "pe_mutation q \<noteq> rs_mutation r"
      if "m_get (mt_inflight m') k = Some q" "r \<in> set (z_results z)" for k q r
      using that(1) res(2)[OF that(2)] res(3)[OF _ that(2)] id
      by (auto simp: reg'(4) gomap_simps split: if_splits)
  qed
  ultimately show ?thesis
    using mut_wf_register[OF mm_invD(1)[OF inv] reg] mm_invD(2)[OF inv] reg'(6)
    by (simp add: mm_inv_def Inr registered_pc_def new_home_def)
qed

lemma settled_keys: "(ref, p, s) \<in> set (settled st now epoch ps) \<Longrightarrow> m_ok ps \<Longrightarrow> m_get ps ref = Some p"
  by (simp add: settled_mem m_get_mem)

lemma distinct_settled: "m_ok ps \<Longrightarrow> distinct (List.map fst (settled st now epoch ps))"
proof (induction ps)
  case (Cons x ps)
  obtain k p where x: "x = (k, p)" by force
  have ok: "m_get ps k = None" "m_ok ps"
    using Cons.prems by (simp_all add: x m_ok_Cons)
  have "k \<notin> fst ` set (settled st now epoch ps)"
    using settled_keys[OF _ ok(2)] ok(1) by fastforce
  then show ?case
    using Cons.IH[OF ok(2)] by (simp add: x settled_simps split: option.splits)
qed (simp add: settled_simps)

lemma settled_ids_distinct:
  assumes "mut_ids_ok ps n" "m_ok ps"
  shows "distinct (List.map (\<lambda>(ref, p, s). pe_mutation p) (settled st now epoch ps))"
proof -
  let ?S = "settled st now epoch ps"
  have "inj_on (\<lambda>(ref, p, s). pe_mutation p) (set ?S)"
  proof (rule inj_onI, clarsimp)
    fix k p s k' p' s'
    assume mem: "(k, p, s) \<in> set ?S" "(k', p', s') \<in> set ?S" and eq: "pe_mutation p = pe_mutation p'"
    note get = settled_keys[OF mem(1) assms(2)] settled_keys[OF mem(2) assms(2)]
    have "k = k'"
      using assms(1) get eq unfolding mut_ids_ok_def by blast
    then show "k = k' \<and> p = p' \<and> s = s'"
      using get mem by (simp add: settled_mem)
  qed
  moreover have "distinct ?S"
    using distinct_settled[OF assms(2), of st now epoch] by (simp add: distinct_map)
  ultimately show ?thesis
    by (simp add: distinct_map)
qed

lemma results_ok_reconcile:
  assumes wf: "mut_wf m" and res: "results_ok rs m" and rec: "reconcile_locked st now m = (fin, m')"
  shows "results_ok (rs @ fin) m' \<and> shrunk m m'"
proof -
  let ?S = "settled st now (mt_epoch m) (mt_inflight m)"
  note spec = reconcile_locked_spec[OF wf rec]
  note ok = mut_wfD(1)[OF wf] and ids = mut_wfD(6)[OF wf]
  have next': "mt_next m' = mt_next m" "mt_backend m' = mt_backend m"
    by (simp_all add: spec(2))
  have get': "m_get (mt_inflight m') k = Some p \<longleftrightarrow>
      m_get (mt_inflight m) k = Some p \<and> settle st now (mt_epoch m) p = None" for k p
    by (simp add: spec(2) m_get_settled[OF ok] split: option.splits) auto
  have idsfin: "List.map rs_mutation fin = List.map (\<lambda>(ref, p, s). pe_mutation p) ?S"
    by (simp add: spec(1) result_of_def comp_def split_def)
  have fin: "\<exists>k p. m_get (mt_inflight m) k = Some p \<and> settle st now (mt_epoch m) p \<noteq> None \<and>
      pe_mutation p = rs_mutation r" if "r \<in> set fin" for r
    using that ok by (auto simp: spec(1) settled_mem result_of_def m_get_mem) blast
  note resD = results_okD[OF res]
  have old: "rs_mutation r \<notin> rs_mutation ` set rs" "rs_mutation r \<le> mt_next m" if "r \<in> set fin" for r
  proof -
    obtain k p where kp: "m_get (mt_inflight m) k = Some p" "pe_mutation p = rs_mutation r"
      using fin[OF \<open>r \<in> set fin\<close>] by blast
    then show "rs_mutation r \<notin> rs_mutation ` set rs"
      using resD(3) by fastforce
    show "rs_mutation r \<le> mt_next m"
      using kp ids unfolding mut_ids_ok_def by metis
  qed
  have new: "pe_mutation p \<noteq> rs_mutation r"
    if "m_get (mt_inflight m') k = Some p" "r \<in> set (rs @ fin)" for k p r
  proof -
    have p: "m_get (mt_inflight m) k = Some p" "settle st now (mt_epoch m) p = None"
      using get' that(1) by blast+
    have "pe_mutation p \<noteq> rs_mutation r" if "r \<in> set fin"
      using fin[OF that] p ids unfolding mut_ids_ok_def by (metis option.inject)
    then show ?thesis
      using resD(3)[OF p(1)] that(2) by auto
  qed
  have dist: "distinct (List.map rs_mutation fin)"
    unfolding idsfin by (rule settled_ids_distinct[OF ids ok])
  have "results_ok (rs @ fin) m'"
  proof (rule results_okI)
    show "distinct (List.map rs_mutation (rs @ fin))"
    proof -
      have "rs_mutation ` set rs \<inter> rs_mutation ` set fin = {}"
      proof (rule equals0I)
        fix x
        assume x: "x \<in> rs_mutation ` set rs \<inter> rs_mutation ` set fin"
        then obtain r where "r \<in> set fin" "x = rs_mutation r"
          by blast
        then show False
          using old(1)[of r] x by simp
      qed
      then show ?thesis
        by (simp only: map_append distinct_append set_map dist resD(1) simp_thms)
    qed
    show "rs_mutation r \<le> mt_next m'" if "r \<in> set (rs @ fin)" for r
      using that old(2) resD(2) by (auto simp: next')
  qed (rule new)
  moreover have "shrunk m m'"
    by (simp add: shrunk_def next' get')
  ultimately show ?thesis ..
qed

lemma mm_inv_reconcile:
  assumes inv: "mm_inv z" and rec: "reconcile_locked st now (z_m z) = (fin, m')"
  shows "mm_inv (z\<lparr>z_m := m', z_rec := RPublish fin, z_results := z_results z @ fin\<rparr>)"
proof -
  note r = results_ok_reconcile[OF mm_invD(1)[OF inv] mm_invD(3)[OF inv] rec]
  have "mt_draining m' = mt_draining (z_m z)"
    by (simp add: reconcile_locked_spec(2)[OF mm_invD(1)[OF inv] rec])
  then show ?thesis
    using r mut_wf_reconcile[OF mm_invD(1)[OF inv] rec] mm_invD(2)[OF inv]
      homes_ok_shrunk[OF mm_invD(5)[OF inv]] mm_invD(4)[OF inv]
    by (simp add: mm_inv_def)
qed

lemma mm_inv_commit:
  assumes inv: "mm_inv z" and sw: "z_sw z = WSwitched b"
  shows "mm_inv (z\<lparr>z_m := CommitSwap b (z_m z), z_sw := WIdle\<rparr>)"
proof -
  have drain: "mt_draining (z_m z)"
    using mm_invD(2)[OF inv] sw by simp
  note wf = mm_invD(1)[OF inv]
  have none: "m_get (mt_inflight (z_m z)) k = None" for k
    by (rule gm.len_zero_get[OF mut_wfD(1)[OF wf] mut_wfD(8)[OF wf drain]])
  have "homes_ok (z_homes z) (CommitSwap b (z_m z))"
    using mm_invD(5)[OF inv] none by (simp add: homes_ok_def CommitSwap_def)
  moreover have "results_ok (z_results z) (CommitSwap b (z_m z))"
    using mm_invD(3)[OF inv] by (simp add: results_ok_def CommitSwap_def)
  ultimately show ?thesis
    using mut_wf_commit[OF wf drain, of b] mm_invD(4)[OF inv] by (simp add: mm_inv_def) (simp add: CommitSwap_def)
qed

lemma shrunk_results: "shrunk m (Results c m)" "shrunk m (cancelResults c m)"
  "mut_wf m \<Longrightarrow> mut_wf (Results c m)" "mut_wf m \<Longrightarrow> mut_wf (cancelResults c m)"
  "mt_draining (Results c m) = mt_draining m" "mt_draining (cancelResults c m) = mt_draining m"
  by (simp_all add: Results_def cancelResults_def close_rchan_def mut_wf_subs shrunk_same)

lemma shrunk_failed:
  assumes "backend_failed req h e m = (s1, m')"
  shows "shrunk m m'" "mt_draining m' = mt_draining m"
  using assms by (auto simp: backend_failed_def shrunk_def mut_frame gomap_simps split: if_splits)

lemma shrunk_reject:
  assumes "reject req k c m = (s1, m')"
  shows "shrunk m m'" "mt_draining m' = mt_draining m"
  using assms by (auto simp: reject_def shrunk_def mut_frame)

lemma mm_step_inv:
  assumes inv: "mm_inv z" and step: "mm_step z e z'"
  shows "mm_inv z'"
  using step
proof cases
  case (mm_reject t req c s1 m')
  then show ?thesis
    using mut_wf_reject[OF mm_invD(1)[OF inv], of req 0 c]
    by (intro mm_inv_shrunk[OF inv]) (auto simp: shrunk_reject mm_invD[OF inv])
next
  case (mm_fail t req h e s1 m')
  then show ?thesis
    using mut_wf_backend_failed[OF mm_invD(1)[OF inv], of req h e]
    by (intro mm_inv_shrunk[OF inv]) (auto simp: shrunk_failed mm_invD[OF inv])
next
  case (mm_register t req h api now r m')
  then show ?thesis
    using mm_inv_register[OF inv] by simp
next
  case (mm_reconcile st now fin m')
  then show ?thesis
    using mm_inv_reconcile[OF inv] by simp
next
  case (mm_commit b)
  then show ?thesis
    using mm_inv_commit[OF inv] by simp
next
  case (mm_publish r rs)
  then show ?thesis
    using mut_wf_publish[OF mm_invD(1)[OF inv]]
    by (intro mm_inv_shrunk[OF inv]) (simp_all add: shrunk_same mut_frame mm_invD[OF inv])
next
  case (mm_begin ok m')
  then show ?thesis
    using mut_wf_begin[OF mm_invD(1)[OF inv]] mm_invD(2)[OF inv]
    by (intro mm_inv_shrunk[OF inv]) (auto simp: BeginSwitch_def shrunk_def split: if_splits)
next
  case mm_abort
  then show ?thesis
    using mut_wf_abort[OF mm_invD(1)[OF inv]]
    by (intro mm_inv_shrunk[OF inv]) (simp_all add: AbortSwitch_def shrunk_def)
qed (intro mm_inv_shrunk[OF inv]; simp add: mm_invD[OF inv] shrunk_results)+

lemma mm_init_inv: "mm_init z \<Longrightarrow> mm_inv z"
  by (auto simp: mm_init_def mm_inv_def mut_wf_new results_ok_def homes_ok_def thread_ok_def)
    (auto simp: new_mutator_def gomap_simps)

interpretation mm: transition mm_init mm_step mm_inv
  by unfold_locales (auto intro: mm_init_inv mm_step_inv)

end
