(* ===== verification/MutatorProps.thy ===== *)
theory MutatorProps
  imports MutatorMachine SyncerLemmas
begin

text \<open>
  The properties of the mutator: those of the interleaved system first, then those of the single
  operations, and two traces that show what the interleaving allows.
\<close>

section \<open>The interleaved system\<close>

definition zx_machine :: "nat mmachine" where
  "zx_machine = \<lparr>z_m = new_mutator 0 \<lparr>mo_submit = 0, mo_window = 0, mo_max = 0, mo_ring = 0\<rparr>,
     z_sync = new_syncer 0, z_sub = (\<lambda>_. SIdle), z_rec = RIdle, z_sw = WIdle, z_results = [],
     z_homes = []\<rparr>"

lemma zx_reachable: "reachable mm_init mm_step zx_machine"
  by (rule reach_init) (auto simp: mm_init_def zx_machine_def)

text \<open>
  In every reachable state of the interleaved system the mutator is within its bounds: at
  most \<open>MaxInFlight\<close> mutations in flight, at most \<open>RingSize\<close> completed references, and none in
  flight while a backend switch holds the drain.
\<close>

theorem mutator_bounded:
  assumes "reachable mm_init mm_step z"
  shows "m_len (mt_inflight (z_m z)) \<le> mo_max (mt_opts (z_m z)) \<and>
    length (mt_ring (z_m z)) \<le> mo_ring (mt_opts (z_m z)) \<and>
    (z_sw z \<noteq> WIdle \<longrightarrow> mt_inflight (z_m z) = m_empty)"
proof -
  note inv = mm.reachable_inv[OF assms]
  have "mt_inflight (z_m z) = m_empty" if "z_sw z \<noteq> WIdle"
    using mut_wfD(8)[OF mm_invD(1)[OF inv]] mm_invD(2)[OF inv] that
    by (simp add: m_len_def m_empty_def)
  then show ?thesis
    using mut_wfD(4,5)[OF mm_invD(1)[OF inv]] by blast
qed

theorem mutator_bounded_witness: "m_len (mt_inflight (z_m zx_machine)) \<le> 4"
  using mutator_bounded[OF zx_reachable]
  by (simp add: zx_machine_def new_mutator_def fill_mut_options_def)

text \<open>
  C5. Every mutation gets at most one terminal result: the mutation ids of the results that
  reconciliation has produced are distinct, and a mutation that is still in flight has none.
\<close>

theorem one_result_per_mutation:
  assumes "reachable mm_init mm_step z"
  shows "distinct (List.map rs_mutation (z_results z)) \<and>
    (\<forall>ref p r. m_get (mt_inflight (z_m z)) ref = Some p \<and> r \<in> set (z_results z) \<longrightarrow>
       pe_mutation p \<noteq> rs_mutation r)"
proof -
  note res = mm_invD(3)[OF mm.reachable_inv[OF assms]]
  show ?thesis
    using results_okD(1,3)[OF res] by blast
qed

text \<open>
  C10. Every mutation in flight, answered already or not, belongs to the current backend: its epoch is the
  current epoch, and the backend that its call went to, or still goes to, is the mutator's backend. A
  goroutine calls the backend under which its mutation was registered, and no mutation has two. So the
  branch of \<^verbatim>\<open>reconcile\<close> for orphaned epochs is never taken under the switch protocol, and while a switch
  drains nothing is in flight.
\<close>

theorem inflight_on_current_backend:
  assumes "reachable mm_init mm_step z"
  shows "(\<forall>ref p. m_get (mt_inflight (z_m z)) ref = Some p \<longrightarrow>
      pe_epoch p = mt_epoch (z_m z) \<and> (pe_mutation p, mt_backend (z_m z)) \<in> set (z_homes z) \<and> z_sw z = WIdle) \<and>
    (\<forall>t req h p b api. z_sub z t = SRegistered req h p b api \<longrightarrow> (pe_mutation p, b) \<in> set (z_homes z)) \<and>
    distinct (List.map fst (z_homes z))"
proof -
  note inv = mm.reachable_inv[OF assms]
  note wf = mm_invD(1)[OF inv]
  have "z_sw z = WIdle" if "m_get (mt_inflight (z_m z)) ref = Some p" for ref p
    using that gm.len_zero_get[OF mut_wfD(1)[OF wf] mut_wfD(8)[OF wf], of ref] mm_invD(2)[OF inv] by auto
  then show ?thesis
    using mut_wfD(7)[OF wf] mm_invD(4,5)[OF inv] by (auto simp: homes_ok_def thread_ok_def)
qed

section \<open>Single operations\<close>

text \<open>What a mutation asks for, said about the torrents alone.\<close>

definition intent_met :: "action \<Rightarrow> torrent option \<Rightarrow> bool" where
  "intent_met a t = (case a of
     Pause \<Rightarrow> (\<exists>x. t = Some x \<and> t_state x = StatePaused)
   | Resume \<Rightarrow> (\<exists>x. t = Some x \<and> t_state x \<noteq> StatePaused)
   | Add \<Rightarrow> t \<noteq> None
   | Remove \<Rightarrow> t = None
   | OtherAction _ \<Rightarrow> False)"

lemma checkIntent_iff:
  "checkIntent p st = (if st_ok st \<and> intent_met (pe_action p) (m_get (st_torrents st) (pe_hash p))
     then Some StatusConfirmed else None)"
  by (auto simp: checkIntent_def intent_met_def split: action.splits option.splits)

text \<open>
  C26. A result "confirmed" is state-derived: reconciliation reports it only for a mutation that
  was in flight, when the committed state comes from a reachable backend and satisfies the
  mutation's intent for its torrent.
\<close>

theorem confirmed_only_by_state:
  assumes "mut_wf m" "reconcile_locked st now m = (fin, m')" "r \<in> set fin"
    "rs_status r = StatusConfirmed"
  shows "st_ok st \<and> intent_met (rs_action r) (m_get (st_torrents st) (rs_hash r)) \<and>
    (\<exists>ref p. m_get (mt_inflight m) ref = Some p \<and> r = result_of p StatusConfirmed)"
proof -
  obtain ref p s where s: "m_get (mt_inflight m) ref = Some p"
    "settle st now (mt_epoch m) p = Some s" "r = result_of p s"
    using assms(3) mut_wfD(1)[OF assms(1)]
    by (auto simp: reconcile_locked_spec(1)[OF assms(1,2)] settled_mem m_get_mem)
  with assms(4) have "s = StatusConfirmed"
    by (simp add: result_of_def)
  with s(2) have "checkIntent p st = Some StatusConfirmed"
    by (auto simp: settle_def code_names split: if_splits option.splits)
  then show ?thesis
    using s \<open>s = StatusConfirmed\<close> by (auto simp: checkIntent_iff result_of_def split: if_splits)
qed

text \<open>
  Reconciliation settles exactly the mutations that are confirmed by the state, past their
  deadline, or of another epoch: the others stay in flight untouched, each settled one yields
  one result, and the ring is the last \<open>RingSize\<close> of the old records followed by the new ones.
\<close>

theorem reconcile_settles:
  assumes "mut_wf m" "reconcile_locked st now m = (fin, m')"
  shows "(\<forall>ref. m_get (mt_inflight m') ref =
      (case m_get (mt_inflight m) ref of None \<Rightarrow> None
       | Some p \<Rightarrow> if pe_epoch p = mt_epoch m \<and> now \<le> pe_deadline p \<and>
            \<not> (st_ok st \<and> intent_met (pe_action p) (m_get (st_torrents st) (pe_hash p)))
          then Some p else None)) \<and>
    m_len (mt_inflight m) = m_len (mt_inflight m') + length fin \<and>
    (\<exists>recs. length recs = length fin \<and> mt_ring m' = last_n (mo_ring (mt_opts m)) (mt_ring m @ recs))"
proof -
  let ?S = "settled st now (mt_epoch m) (mt_inflight m)"
  note spec = reconcile_locked_spec[OF assms]
  note ok = mut_wfD(1)[OF assms(1)]
  have none: "settle st now (mt_epoch m) p = None \<longleftrightarrow> pe_epoch p = mt_epoch m \<and> now \<le> pe_deadline p \<and>
      \<not> (st_ok st \<and> intent_met (pe_action p) (m_get (st_torrents st) (pe_hash p)))" for p
    by (auto simp: settle_def checkIntent_iff split: if_splits)
  have get: "m_get (mt_inflight m') ref = (case m_get (mt_inflight m) ref of None \<Rightarrow> None
      | Some p \<Rightarrow> if settle st now (mt_epoch m) p = None then Some p else None)" for ref
    by (simp add: spec(2) m_get_settled[OF ok])
  have ok': "m_ok (mt_inflight m')"
    by (simp add: spec(2) m_ok_fold_del ok)
  have "set (m_keys (mt_inflight m)) = set (m_keys (mt_inflight m')) \<union> set (List.map fst ?S)"
    by (rule set_eqI) (auto simp only: Un_iff gm.in_keys get keys_settled[OF ok] split: option.splits, auto)
  moreover have "set (m_keys (mt_inflight m')) \<inter> set (List.map fst ?S) = {}"
    by (simp add: disjoint_iff gm.in_keys spec(2) m_get_fold_del)
  ultimately have "m_len (mt_inflight m) = m_len (mt_inflight m') + card (set (List.map fst ?S))"
    by (simp only: gm.len_card[OF ok] gm.len_card[OF ok'] card_Un_disjoint finite_set)
  also have "card (set (List.map fst ?S)) = length fin"
    using distinct_card[OF distinct_settled[OF ok, of st now "mt_epoch m"]] spec(1) by simp
  finally have len: "m_len (mt_inflight m) = m_len (mt_inflight m') + length fin" .
  have "\<exists>recs. length recs = length fin \<and>
      mt_ring m' = last_n (mo_ring (mt_opts m)) (mt_ring m @ recs)"
    by (rule exI[of _ "List.map (\<lambda>(ref, p, s). record_of ref p s) ?S"]) (simp add: spec)
  then show ?thesis
    using len get[unfolded none] by blast
qed

text \<open>Looking a reference up after it was recorded last.\<close>

lemma lookup_ring_append:
  "lookup_ring (xs @ ys) req = (case lookup_ring xs req of None \<Rightarrow> lookup_ring ys req | Some s \<Rightarrow> Some s)"
  by (induction xs) auto

lemma lookup_ring_drop: "lookup_ring xs req = None \<Longrightarrow> lookup_ring (drop n xs) req = None"
proof (induction xs arbitrary: n)
  case (Cons x xs)
  then show ?case
    by (cases n) (auto split: if_splits)
qed simp

lemma lookup_appended:
  assumes "mut_wf m" "lookup_ring (mt_ring m) req = None"
  shows "lookup_ring (mt_ring (appendRingLocked r m)) req = lookup_ring [r] req"
proof -
  note wf = mut_wfD(3,5)[OF assms(1)]
  have "mt_ring (appendRingLocked r m) =
      drop (length (mt_ring m @ [r]) - mo_ring (mt_opts m)) (mt_ring m) @ [r]"
    using appendRing_ring[OF wf(2,1), of r] wf by (simp add: last_n_def)
  then show ?thesis
    using lookup_ring_drop[OF assms(2)] by (simp only: lookup_ring_append) simp
qed

lemma lookup_None:
  assumes "lookupRefLocked req m = None"
  shows "m_get (mt_inflight m) (rq_ref req) = None" "lookup_ring (mt_ring m) req = None"
  using assms by (auto simp: lookupRefLocked_def split: option.splits if_splits)

lemma code_not_empty: "validate req st = Inl c \<Longrightarrow> c \<noteq> []" "classifySubmit e \<noteq> []"
  by (auto simp: validate_def backend_up_def classifySubmit_def code_names
      split: action.splits option.splits if_splits)

lemma busy_not: "classifySubmit e \<noteq> CodeBusy" "validate req st = Inl c \<Longrightarrow> c \<noteq> CodeBusy"
  by (auto simp: validate_def backend_up_def classifySubmit_def code_names
      split: action.splits option.splits if_splits)

lemma lower_hash_idem [simp]: "lower_hash (lower_hash req) = lower_hash req"
  by (simp add: lower_hash_def)

lemma rejected_lookup:
  assumes "mut_wf m" "lookupRefLocked req m = None" "reject req k c m = (s1, m1)" "c \<noteq> []"
  shows "lookupRefLocked req m1 = Some s1"
proof -
  let ?r = "\<lparr>rr_ref = rq_ref req, rr_action = rq_action req, rr_hash = rq_hash req,
    rr_url = rq_url req, rr_delete = rq_delete req, rr_outcome = c, rr_status = [], rr_mutation = k\<rparr>"
  have "m1 = appendRingLocked ?r m" "s1 = outcome_only c"
    using assms(3) by (auto simp: reject_def)
  then show ?thesis
    using lookup_appended[OF assms(1) lookup_None(2)[OF assms(2)], of ?r] lookup_None(1)[OF assms(2)]
      assms(4)
    by (simp add: lookupRefLocked_def mut_frame rr_matches_def)
qed

lemma failed_lookup:
  assumes "mut_wf m" "lookup_ring (mt_ring m) req = None" "backend_failed req h e m = (s1, m1)"
    "rq_action req \<noteq> Add \<longrightarrow> h = rq_hash req"
  shows "lookupRefLocked req m1 = Some s1"
proof -
  let ?r = "\<lparr>rr_ref = rq_ref req, rr_action = rq_action req, rr_hash = h,
    rr_url = rq_url req, rr_delete = rq_delete req, rr_outcome = classifySubmit e, rr_status = [],
    rr_mutation = 0\<rparr>"
  let ?m = "m\<lparr>mt_inflight := m_del (rq_ref req) (mt_inflight m)\<rparr>"
  have m1: "m1 = appendRingLocked ?r ?m" "s1 = outcome_only (classifySubmit e)"
    using assms(3) by (auto simp: backend_failed_def)
  have "lookup_ring (mt_ring ?m) req = None"
    using assms(2) by simp
  from lookup_appended[OF mut_wf_del[OF assms(1), of "rq_ref req"] this, of ?r] show ?thesis
    using assms(4) code_not_empty(2)[of e]
    by (simp add: m1 lookupRefLocked_def mut_frame rr_matches_def gomap_simps)
qed

lemma registered_lookup:
  assumes "register req h now m = (Inr p, m1)" "rq_action req \<noteq> Add \<longrightarrow> h = rq_hash req"
  shows "lookupRefLocked req m1 = Some (accepted (pe_mutation p) (rq_action req) h)"
  using register_registered[OF assms(1)] assms(2)
  by (simp add: lookupRefLocked_def gomap_simps pe_matches_def new_pending_def)

lemma Submit_known:
  assumes "lookupRefLocked (lower_hash req) m = Some s1"
  shows "Submit exec req st now m = (s1, m, None)"
  using assms by (simp add: Submit_def submit_early_def Let_def)

lemma validated_hash:
  assumes "validate req st = Inr h"
  shows "rq_action req \<noteq> Add \<longrightarrow> h = rq_hash req"
  using validate_hash(3)[OF assms] by blast

text \<open>The ways \<open>Submit\<close> can end.\<close>

lemma Submit_cases:
  assumes run: "Submit exec req st now m = (s1, m1, call)"
  obtains (early) "submit_early (lower_hash req) m = Some s1" "m1 = m" "call = None"
  | (rejected) c where "submit_early (lower_hash req) m = None" "validate (lower_hash req) st = Inl c"
      "reject (lower_hash req) 0 c m = (s1, m1)" "call = None"
  | (refused) h where "submit_early (lower_hash req) m = None" "validate (lower_hash req) st = Inr h"
      "register (lower_hash req) h now m = (Inl s1, m1)" "call = None"
  | (failed) h p m2 e where "submit_early (lower_hash req) m = None"
      "validate (lower_hash req) st = Inr h" "register (lower_hash req) h now m = (Inr p, m2)"
      "backend_failed (lower_hash req) h e m2 = (s1, m1)"
      "call = map_option (Pair (mt_backend m)) (the_call (lower_hash req) (st_api st))"
  | (accept) h p where "submit_early (lower_hash req) m = None"
      "validate (lower_hash req) st = Inr h" "register (lower_hash req) h now m = (Inr p, m1)"
      "s1 = accepted (pe_mutation p) (rq_action (lower_hash req)) h"
      "call = map_option (Pair (mt_backend m)) (the_call (lower_hash req) (st_api st))"
proof (cases "submit_early (lower_hash req) m")
  case (Some s)
  with run show ?thesis
    by (intro early) (simp_all add: Submit_def Let_def)
next
  case None
  note run1 = run[unfolded Submit_def Let_def None option.case]
  show ?thesis
  proof (cases "validate (lower_hash req) st")
    case (Inl c)
    with run1 None show ?thesis
      by (intro rejected[of c]) (auto split: prod.splits)
  next
    case (Inr h)
    obtain r m2 where reg: "register (lower_hash req) h now m = (r, m2)" by force
    show ?thesis
    proof (cases r)
      case (Inl s)
      with run1 None \<open>validate _ st = Inr h\<close> reg show ?thesis
        by (intro refused[of h]) simp_all
    next
      case (Inr p)
      note run2 = run1[unfolded \<open>validate _ st = Inr h\<close> sum.case reg Inr prod.case]
      show ?thesis
      proof (cases "submitBackend (exec (mt_backend m)) (lower_hash req) (st_api st)")
        case None
        with run2 show ?thesis
          by (intro accept[of h p]) (simp_all add: reg Inr \<open>validate _ st = Inr h\<close> \<open>submit_early _ m = None\<close>)
      next
        case (Some e)
        with run2 show ?thesis
          by (intro failed[of h p m2 e])
            (auto simp: reg Inr \<open>validate _ st = Inr h\<close> \<open>submit_early _ m = None\<close> split: prod.splits)
      qed
    qed
  qed
qed

lemma submit_early_None:
  assumes "submit_early req m = None"
  shows "lookupRefLocked req m = None" "m_len (mt_inflight m) < mo_max (mt_opts m)"
  using assms by (auto simp: submit_early_def split: option.splits if_splits)

text \<open>
  C11. A repeated request never executes twice: after any \<^verbatim>\<open>Submit\<close> that was not refused as busy,
  submitting the same request again, against whatever committed state and backend, returns the
  same answer, leaves the mutator unchanged and makes no backend call.
\<close>

theorem resubmission_is_idempotent:
  assumes wf: "mut_wf m" and run: "Submit exec req st now m = (s1, m1, call)"
    and busy: "s1_outcome s1 \<noteq> CodeBusy"
  shows "Submit exec' req st' now' m1 = (s1, m1, None)"
proof -
  let ?q = "lower_hash req"
  have "lookupRefLocked ?q m1 = Some s1"
    using run
  proof (cases rule: Submit_cases)
    case early
    then show ?thesis
      using busy by (auto simp: submit_early_def outcome_only_def split: option.splits if_splits)
  next
    case rejected
    show ?thesis
      by (rule rejected_lookup[OF wf submit_early_None(1)[OF rejected(1)] rejected(3)
          code_not_empty(1)[OF rejected(2)]])
  next
    case refused
    then show ?thesis
      using busy submit_early_None(1)[OF refused(1)]
      by (auto simp: register_def outcome_only_def Let_def split: option.splits if_splits)
  next
    case (failed h p m2 e)
    have "mut_wf m2"
      by (rule mut_wf_register[OF wf failed(3)])
    moreover have "lookup_ring (mt_ring m2) ?q = None"
      using failed(3) lookup_None(2)[OF submit_early_None(1)[OF failed(1)]]
      by (auto simp: register_def Let_def split: if_splits option.splits)
    ultimately show ?thesis
      by (rule failed_lookup[OF _ _ failed(4) validated_hash[OF failed(2)]])
  next
    case (accept h p)
    then show ?thesis
      using registered_lookup[OF accept(3) validated_hash[OF accept(2)]] by simp
  qed
  then show ?thesis
    by (rule Submit_known)
qed

text \<open>
  A backend call is made only for a request that is new, valid and registered: the reference
  was unknown, no switch was draining, fewer than \<open>MaxInFlight\<close> mutations were in flight, the
  committed state had a reachable backend and knew the torrent (for an add: did not know it),
  and the call is the one of the request's action on the mutator's own backend.
\<close>

theorem call_only_when_registered:
  assumes "Submit exec req st now m = (s1, m1, Some (b, call))"
  shows "b = mt_backend m \<and> the_call (lower_hash req) (st_api st) = Some call \<and>
    lookupRefLocked (lower_hash req) m = None \<and> \<not> mt_draining m \<and>
    m_len (mt_inflight m) < mo_max (mt_opts m) \<and> st_ok st \<and>
    (\<exists>h. (if rq_action req = Add then ParseMagnetHash (rq_url req) = Some h \<and>
            m_get (st_torrents st) h = None
          else h = to_lower (rq_hash req) \<and> m_get (st_torrents st) h \<noteq> None))"
proof -
  let ?q = "lower_hash req"
  have "\<exists>h. validate ?q st = Inr h \<and> b = mt_backend m \<and> the_call ?q (st_api st) = Some call \<and>
      submit_early ?q m = None \<and> \<not> mt_draining m"
    using assms
  proof (cases rule: Submit_cases)
    case (failed h p m2 e)
    then show ?thesis
      using register_registered(3)[OF failed(3)] by (auto simp: eq_commute[of "Some _"])
  next
    case (accept h p)
    then show ?thesis
      using register_registered(3)[OF accept(3)] by (auto simp: eq_commute[of "Some _"])
  qed simp_all
  then obtain h where h: "validate ?q st = Inr h" "b = mt_backend m" "the_call ?q (st_api st) = Some call"
    "submit_early ?q m = None" "\<not> mt_draining m"
    by blast
  note v = validate_hash[OF h(1)]
  have a: "rq_action ?q = rq_action req" "rq_url ?q = rq_url req" "rq_hash ?q = to_lower (rq_hash req)"
    by (simp_all add: lower_hash_def)
  show ?thesis
    using h v submit_early_None[OF h(4)] unfolding a by (cases "rq_action req = Add") auto
qed

lemma length_3: "length xs = 3 \<Longrightarrow> \<exists>a b c. xs = [a, b, c]"
  by (auto simp: numeral_3_eq_3 length_Suc_conv)

text \<open>
  The version test is the lexicographic order on the three components, missing components
  counting as zero.
\<close>

theorem webapiAtLeast_lexicographic:
  assumes "parse_nums (splitN (CHR ''.'') 3 (trim_space v)) = Some ns"
  shows "webapiAtLeast v major minor patch \<longleftrightarrow> [major, minor, patch] \<le> take 3 (ns @ [0, 0, 0])"
proof -
  have len: "length (take 3 (ns @ [0, 0, 0])) = 3" by simp
  then obtain a b c where abc: "take 3 (ns @ [0, 0, 0]) = [a, b, c]"
    using length_3 by blast
  have ne: "splitN (CHR ''.'') 3 (trim_space v) \<noteq> []"
    by (cases "trim_space v") (auto split: list.splits)
  show ?thesis
    by (simp only: webapiAtLeast_def Let_def assms ne if_False option.case abc) auto
qed

text \<open>
  The hash of a magnet link is always a valid hash in lower case, and a magnet link built
  from a valid hash, alone or followed by further parameters, yields that hash.
\<close>

theorem ParseMagnetHash_roundtrip:
  "(\<forall>u h. ParseMagnetHash u = Some h \<longrightarrow> validHash h \<and> to_lower h = h) \<and>
   (\<forall>h rest. validHash h \<and> (rest = [] \<or> hd rest = CHR ''&'') \<longrightarrow>
      ParseMagnetHash (''magnet:?xt=urn:btih:'' @ h @ rest) = Some (to_lower h))"
proof (intro conjI allI impI)
  fix u h
  assume "ParseMagnetHash u = Some h"
  then show "validHash h" "to_lower h = h"
    using ParseMagnetHash_valid by blast+
next
  fix h rest :: string
  assume a: "validHash h \<and> (rest = [] \<or> hd rest = CHR ''&'')"
  have "\<not> is_hex (CHR ''&'')"
    by (simp add: is_hex_def is_lower_hex_def is_digit_def)
  then have no_amp: "CHR ''&'' \<notin> set h"
    using a by (auto simp: validHash_def list_all_iff)
  have split: "split_on c (xs @ rest) = (xs @ hd (split_on c rest)) # tl (split_on c rest)"
    if "c \<notin> set xs" for c :: char and xs
    using that
  proof (induction xs)
    case Nil
    then show ?case using split_on_nonempty[of c rest] by simp
  next
    case (Cons x xs)
    then show ?case by auto
  qed
  have hd0: "hd (split_on (CHR ''&'') rest) = []"
    using a by (cases rest) auto
  have "CHR ''&'' \<notin> set (''xt=urn:btih:'' @ h)"
    using no_amp by simp
  from split[OF this] have "split_on (CHR ''&'') (''xt=urn:btih:'' @ h @ rest) =
      (''xt=urn:btih:'' @ h) # tl (split_on (CHR ''&'') rest)"
    by (simp only: append_assoc hd0 append_Nil2)
  then show "ParseMagnetHash (''magnet:?xt=urn:btih:'' @ h @ rest) = Some (to_lower h)"
    using a by (simp add: ParseMagnetHash_def has_prefix_def cut_prefix_def)
qed

section \<open>What the interleaving allows\<close>

definition zx_hash :: string where
  "zx_hash = replicate 40 (CHR ''a'')"

definition zx_req :: request where
  "zx_req = \<lparr>rq_action = Pause, rq_hash = zx_hash, rq_url = [], rq_delete = False, rq_ref = ''r1''\<rparr>"

text \<open>A committed state with one torrent, in the given normalized state.\<close>

definition zx_state :: "string \<Rightarrow> state" where
  "zx_state s = zero_state\<lparr>st_ok := True,
     st_torrents := [(zx_hash, zero_torrent\<lparr>t_hash := zx_hash, t_state := s\<rparr>)]\<rparr>"

definition zx_start :: "string \<Rightarrow> nat mmachine" where
  "zx_start s = zx_machine\<lparr>z_sync := (new_syncer 0)\<lparr>s_cur := zx_state s\<rparr>\<rparr>"

definition zx_validated :: "string \<Rightarrow> nat mmachine" where
  "zx_validated s = (zx_start s)\<lparr>z_sub := (\<lambda>_. SIdle)(0 := SValidated zx_req zx_hash [])\<rparr>"

lemma zx_hash_lower: "lower_hash zx_req = zx_req"
  by (simp add: lower_hash_def zx_req_def zx_hash_def to_lower_def lower_char_def)

lemma zx_reach_validated: "reachable mm_init mm_step (zx_validated s)"
proof -
  have s1: "mm_step zx_machine (MState (zx_state s)) (zx_start s)"
    using mm_state[of zx_machine "zx_state s"] by (simp add: zx_start_def zx_machine_def)
  have early: "early_pc (lower_hash zx_req) (z_m (zx_start s)) = SEarly zx_req"
    by (simp add: zx_hash_lower early_pc_def submit_early_def lookupRefLocked_def zx_start_def
        zx_machine_def new_mutator_def fill_mut_options_def gomap_simps)
  let ?z2 = "(zx_start s)\<lparr>z_sub := (z_sub (zx_start s))(0 := SEarly zx_req)\<rparr>"
  have "z_sub (zx_start s) 0 = SIdle"
    by (simp add: zx_start_def zx_machine_def)
  from mm_submit[OF this, of zx_req] have s2: "mm_step (zx_start s) (MSubmit 0 zx_req) ?z2"
    by (simp only: early)
  have valid: "(validated_pc zx_req (zx_state s) :: nat submit_pc) = SValidated zx_req zx_hash []"
    by (simp add: validated_pc_def validate_def backend_up_def zx_req_def zx_state_def zero_state_def
        gomap_eval)
  have "z_sub ?z2 0 = SEarly zx_req" by simp
  from mm_validate[OF this] have s3: "mm_step ?z2 (MValidate 0) (zx_validated s)"
    using valid by (simp add: zx_start_def zx_machine_def zx_validated_def)
  have r1: "reachable mm_init mm_step (zx_start s)"
    by (rule reach_step[OF zx_reachable s1])
  have r2: "reachable mm_init mm_step ?z2"
    by (rule reach_step[OF r1 s2])
  show ?thesis
    by (rule reach_step[OF r2 s3])
qed


definition zx_pending :: "nat mutator \<Rightarrow> pending" where
  "zx_pending m = new_pending zx_req zx_hash 0 m"

definition zx_registered :: "nat mmachine \<Rightarrow> nat mmachine" where
  "zx_registered z = z\<lparr>z_m := (z_m z)\<lparr>mt_next := Suc (mt_next (z_m z)),
       mt_inflight := m_put (rq_ref zx_req) (zx_pending (z_m z)) (mt_inflight (z_m z))\<rparr>,
     z_sub := (z_sub z)(0 := SRegistered zx_req zx_hash (zx_pending (z_m z)) (mt_backend (z_m z)) []),
     z_homes := z_homes z @ [(pe_mutation (zx_pending (z_m z)), mt_backend (z_m z))]\<rparr>"

lemma register_run:
  assumes r: "reachable mm_init mm_step z" and pc: "z_sub z 0 = SValidated zx_req zx_hash []"
    and free: "\<not> mt_draining (z_m z)" "mt_inflight (z_m z) = m_empty" "mt_ring (z_m z) = []"
      "0 < mo_max (mt_opts (z_m z))"
  shows "reachable mm_init mm_step (zx_registered z)"
proof -
  have "register zx_req zx_hash 0 (z_m z) = (Inr (zx_pending (z_m z)), z_m (zx_registered z))"
    using free
    by (simp add: register_def lookupRefLocked_def gomap_simps Let_def zx_registered_def zx_pending_def)
  from mm_register[OF pc this] have "mm_step z (MRegister 0 0) (zx_registered z)"
    by (simp add: zx_registered_def registered_pc_def new_home_def)
  then show ?thesis
    by (rule reach_step[OF r])
qed

lemma zx_validated_fields:
  "z_m (zx_validated s) = new_mutator 0 \<lparr>mo_submit = 0, mo_window = 0, mo_max = 0, mo_ring = 0\<rparr>"
  "z_sub (zx_validated s) 0 = SValidated zx_req zx_hash []" "z_sw (zx_validated s) = WIdle"
  "z_rec (zx_validated s) = RIdle" "z_results (zx_validated s) = []" "z_homes (zx_validated s) = []"
  "s_cur (z_sync (zx_validated s)) = zx_state s"
  by (simp_all add: zx_validated_def zx_start_def zx_machine_def)

lemma new_mutator_fields:
  "\<not> mt_draining (new_mutator b opts)" "mt_inflight (new_mutator b opts) = m_empty"
  "mt_ring (new_mutator b opts) = []" "0 < mo_max (mt_opts (new_mutator b opts))"
  "0 < mo_ring (mt_opts (new_mutator b opts))" "mt_next (new_mutator b opts) = 0"
  "mt_epoch (new_mutator b opts) = 0" "mt_backend (new_mutator b opts) = b"
  "mo_max (mt_opts (new_mutator b opts)) \<noteq> 0"
  by (simp_all add: new_mutator_def fill_mut_options_def)


text \<open>
  One mutation can have both outcomes: while the backend call of a pause is still running,
  reconciliation finds the torrent paused in the committed state and publishes "confirmed";
  then the call fails, and the same request is answered "backend_unavailable".
\<close>

theorem confirmed_and_rejected:
  "\<exists>z. reachable mm_init mm_step (z :: nat mmachine) \<and>
     z_sub z 0 = SAnswered (outcome_only CodeBackendUnavailable) \<and>
     z_results z = [\<lparr>rs_mutation = 1, rs_action = Pause, rs_hash = zx_hash,
       rs_status = StatusConfirmed\<rparr>]"
proof -
  obtain z0 where z0: "z0 = zx_validated StatePaused" by blast
  note f = zx_validated_fields[of StatePaused, folded z0]
  have r0: "reachable mm_init mm_step z0"
    unfolding z0 by (rule zx_reach_validated)
  obtain p where p: "p = zx_pending (z_m z0)" by blast
  obtain z1 where z1: "z1 = zx_registered z0" by blast
  have r1: "reachable mm_init mm_step z1"
    unfolding z1 by (rule register_run[OF r0]) (simp_all add: f new_mutator_fields)
  have f1: "z_rec z1 = RIdle" "z_results z1 = []" "s_cur (z_sync z1) = zx_state StatePaused"
    "mt_inflight (z_m z1) = [(rq_ref zx_req, p)]" "mt_epoch (z_m z1) = 0" "mt_ring (z_m z1) = []"
    "0 < mo_ring (mt_opts (z_m z1))" "z_sub z1 0 = SRegistered zx_req zx_hash p 0 []"
    by (simp_all add: z1 zx_registered_def f new_mutator_fields p) (simp_all add: gomap_eval)
  let ?fin = "[result_of p StatusConfirmed]"
  obtain m2 where m2: "m2 = (z_m z1)\<lparr>mt_inflight := [],
      mt_ring := [record_of (rq_ref zx_req) p StatusConfirmed]\<rparr>" by blast
  obtain z2 where z2: "z2 = z1\<lparr>z_m := m2, z_rec := RPublish ?fin, z_results := ?fin\<rparr>" by blast
  have p': "pe_epoch p = 0" "pe_action p = Pause" "pe_hash p = zx_hash" "pe_mutation p = 1"
    by (simp_all add: p zx_pending_def new_pending_def f new_mutator_fields zx_req_def)
  have "settle (zx_state StatePaused) 0 0 p = Some StatusConfirmed"
    by (simp add: settle_def checkIntent_def p' zx_state_def zero_state_def gomap_eval)
  then have rec: "reconcile_locked (zx_state StatePaused) 0 (z_m z1) = (?fin, m2)"
    using f1(7) by (simp add: reconcile_locked_def f1 appendRingLocked_def Let_def m2 m_del_def)
  have s1: "mm_step z1 MRead (z1\<lparr>z_rec := RRead (zx_state StatePaused)\<rparr>)"
    using mm_read[OF f1(1)] by (simp add: f1)
  have s2: "mm_step (z1\<lparr>z_rec := RRead (zx_state StatePaused)\<rparr>) (MReconcile 0) z2"
    using mm_reconcile[of "z1\<lparr>z_rec := RRead (zx_state StatePaused)\<rparr>" _ 0] rec by (simp add: z2 f1)
  have r2: "reachable mm_init mm_step z2"
    by (rule reach_step[OF reach_step[OF r1 s1] s2])
  have pc2: "z_sub z2 0 = SRegistered zx_req zx_hash p 0 []"
    by (simp add: z2 f1)
  let ?e = "Wrapped ErrUnreachable"
  obtain z3 where z3: "z3 = z2\<lparr>z_sub := (z_sub z2)(0 := SFailing zx_req zx_hash ?e)\<rparr>" by blast
  have s3: "mm_step z2 (MBackend 0 (Inl ?e)) z3"
    using mm_backend[OF pc2, of "Inl ?e"]
    by (simp add: z3 called_pc_def submitBackend_def the_call_def zx_req_def)
  have pc3: "z_sub z3 0 = SFailing zx_req zx_hash ?e"
    by (simp add: z3)
  obtain s1 m4 where fail: "backend_failed zx_req zx_hash ?e (z_m z3) = (s1, m4)" by force
  note s4 = mm_fail[OF pc3 fail]
  have r4: "reachable mm_init mm_step (z3\<lparr>z_m := m4, z_sub := (z_sub z3)(0 := SAnswered s1)\<rparr>)"
    by (rule reach_step[OF reach_step[OF r2 s3] s4])
  have "s1 = outcome_only CodeBackendUnavailable"
    using fail by (simp add: backend_failed_def classifySubmit_def)
  then show ?thesis
    using r4 by (intro exI conjI) (assumption, simp_all add: z3 z2 result_of_def p')
qed

section \<open>Witnesses\<close>

lemma zx_registered_reachable: "reachable mm_init mm_step (zx_registered (zx_validated s))"
  by (rule register_run[OF zx_reach_validated]) (simp_all add: zx_validated_fields new_mutator_fields)

theorem inflight_on_current_backend_witness:
  "\<exists>p b. m_get (mt_inflight (z_m (zx_registered (zx_validated [])))) (rq_ref zx_req) = Some p \<and>
     z_sub (zx_registered (zx_validated [])) 0 = SRegistered zx_req zx_hash p b [] \<and>
     z_homes (zx_registered (zx_validated [])) = [(1, b)] \<and> b = mt_backend (z_m (zx_registered (zx_validated [])))"
proof -
  let ?z = "zx_registered (zx_validated [])"
  have pc: "z_sub ?z 0 = SRegistered zx_req zx_hash (zx_pending (z_m (zx_validated []))) 0 []"
    by (simp add: zx_registered_def zx_validated_fields new_mutator_fields)
  have p: "m_get (mt_inflight (z_m ?z)) (rq_ref zx_req) = Some (zx_pending (z_m (zx_validated [])))"
    by (simp add: zx_registered_def gomap_simps)
  have h: "z_homes ?z = [(1, 0)]"
    by (simp add: zx_registered_def zx_validated_fields new_mutator_fields zx_pending_def new_pending_def)
  from inflight_on_current_backend[OF zx_registered_reachable] p
  have "(pe_mutation (zx_pending (z_m (zx_validated []))), mt_backend (z_m ?z)) \<in> set (z_homes ?z)" by blast
  then show ?thesis using p pc by (intro exI conjI) (assumption, assumption, simp_all add: h)
qed

text \<open>Two pauses of a torrent that is paused already, settled by one reconciliation.\<close>

definition zx_req2 :: request where
  "zx_req2 = zx_req\<lparr>rq_ref := ''r2''\<rparr>"

theorem one_result_per_mutation_witness:
  "\<exists>z. reachable mm_init mm_step (z :: nat mmachine) \<and> length (z_results z) = 2 \<and>
     distinct (List.map rs_mutation (z_results z)) \<and> mt_next (z_m z) = 2"
proof -
  obtain z0 where z0: "z0 = zx_validated StatePaused" by blast
  note f = zx_validated_fields[of StatePaused, folded z0]
  define z1 where "z1 = zx_registered z0"
  have r1: "reachable mm_init mm_step z1"
    unfolding z1_def z0 by (rule register_run[OF zx_reach_validated]) (simp_all add: zx_validated_fields new_mutator_fields)
  define p where "p = zx_pending (z_m z0)"
  have f1: "z_sub z1 1 = SIdle" "z_rec z1 = RIdle" "z_results z1 = []" "s_cur (z_sync z1) = zx_state StatePaused"
    "mt_inflight (z_m z1) = [(''r1'', p)]" "mt_ring (z_m z1) = []" "\<not> mt_draining (z_m z1)" "mo_max (mt_opts (z_m z1)) = 4"
    "mo_ring (mt_opts (z_m z1)) = 64" "mt_next (z_m z1) = 1" "mt_epoch (z_m z1) = 0"
    by (simp_all add: z1_def zx_registered_def f p_def zx_req_def new_mutator_fields)
      (simp_all add: z0 zx_validated_def zx_start_def zx_machine_def new_mutator_def fill_mut_options_def gomap_eval)
  have low: "lower_hash zx_req2 = zx_req2" using zx_hash_lower by (simp add: lower_hash_def zx_req2_def zx_req_def)
  have look: "lookupRefLocked zx_req2 (z_m z1) = None"
    by (simp add: lookupRefLocked_def f1 zx_req2_def gomap_eval)
  define z2 where "z2 = z1\<lparr>z_sub := (z_sub z1)(1 := SEarly zx_req2)\<rparr>"
  have s1: "mm_step z1 (MSubmit 1 zx_req2) z2"
    using mm_submit[OF f1(1), of zx_req2] by (simp add: z2_def low early_pc_def submit_early_def look f1 m_len_def)
  define z3 where "z3 = z2\<lparr>z_sub := (z_sub z2)(1 := SValidated zx_req2 zx_hash [])\<rparr>"
  have "(validated_pc zx_req2 (zx_state StatePaused) :: nat submit_pc) = SValidated zx_req2 zx_hash []"
    by (simp add: validated_pc_def validate_def backend_up_def zx_req2_def zx_req_def zx_state_def zero_state_def gomap_eval)
  then have s2: "mm_step z2 (MValidate 1) z3"
    using mm_validate[of z2 1 zx_req2] by (simp add: z2_def z3_def f1)
  obtain q m4 where reg: "register zx_req2 zx_hash 0 (z_m z3) = (Inr q, m4)" "q = new_pending zx_req2 zx_hash 0 (z_m z1)"
    "m4 = (z_m z1)\<lparr>mt_next := 2, mt_inflight := m_put ''r2'' q [(''r1'', p)]\<rparr>"
    using look by (simp add: register_def z3_def z2_def f1 m_len_def Let_def zx_req2_def)
  obtain z4 where s3: "mm_step z3 (MRegister 1 0) z4" and f4: "z_m z4 = m4" "z_rec z4 = RIdle" "z_results z4 = []"
    "s_cur (z_sync z4) = zx_state StatePaused"
    using mm_register[of z3 1 zx_req2 zx_hash "[]" 0 "Inr q" m4] reg(1) by (simp add: z3_def z2_def f1)
  define z5 where "z5 = z4\<lparr>z_rec := RRead (zx_state StatePaused)\<rparr>"
  have s4: "mm_step z4 MRead z5" using mm_read[OF f4(2)] by (simp add: z5_def f4)
  obtain fin m6 where rec: "reconcile_locked (zx_state StatePaused) 0 (z_m z5) = (fin, m6)" by force
  define z6 where "z6 = z5\<lparr>z_m := m6, z_rec := RPublish fin, z_results := fin\<rparr>"
  have s5: "mm_step z5 (MReconcile 0) z6"
    using mm_reconcile[of z5 "zx_state StatePaused" 0 fin m6] rec by (simp add: z5_def z6_def f4)
  have r5: "reachable mm_init mm_step z5"
    by (rule reach_step[OF reach_step[OF reach_step[OF reach_step[OF r1 s1] s2] s3] s4])
  note r6 = reach_step[OF r5 s5]
  have "settle (zx_state StatePaused) 0 0 x = Some StatusConfirmed" if "x \<in> {p, q}" for x
    using that by (auto simp: settle_def checkIntent_def p_def reg(2) zx_pending_def new_pending_def f f1 new_mutator_fields zx_req2_def
        zx_req_def zx_state_def zero_state_def gomap_eval)
  moreover have "mut_wf (z_m z5)" by (rule mm_invD(1)[OF mm.reachable_inv[OF r5]])
  ultimately have "length fin = 2 \<and> mt_next m6 = 2"
    using reconcile_locked_spec[OF _ rec] by (simp add: z5_def f4 reg(3) f1 gomap_eval settled_simps)
  with one_result_per_mutation[OF r6] r6 show ?thesis by (intro exI[of _ z6]) (simp add: z6_def)
qed

definition wm_options :: mut_options where
  "wm_options = \<lparr>mo_submit = 0, mo_window = 0, mo_max = 0, mo_ring = 0\<rparr>"

definition wm_mutator :: "nat mutator" where
  "wm_mutator = snd (register zx_req zx_hash 0 (new_mutator 7 wm_options))"

lemma wm_mutator_wf: "mut_wf wm_mutator"
  using mut_wf_register[OF mut_wf_new, of zx_req zx_hash 0 7 wm_options] prod.collapse
  unfolding wm_mutator_def by metis

definition wm_pending :: pending where
  "wm_pending = new_pending zx_req zx_hash 0 (new_mutator (7 :: nat) wm_options)"

lemma wm_mutator_eq: "wm_mutator = (new_mutator 7 wm_options)\<lparr>mt_next := 1,
    mt_inflight := [(rq_ref zx_req, wm_pending)]\<rparr>"
  by (simp add: wm_mutator_def register_def lookupRefLocked_def new_mutator_fields gomap_simps
      wm_pending_def Let_def) (simp add: gomap_eval)

lemma wm_reconcile:
  "reconcile_locked (zx_state StatePaused) 0 wm_mutator = ([result_of wm_pending StatusConfirmed],
     wm_mutator\<lparr>mt_inflight := [], mt_ring := [record_of (rq_ref zx_req) wm_pending StatusConfirmed]\<rparr>)"
proof -
  have "pe_epoch wm_pending = 0" "pe_action wm_pending = Pause" "pe_hash wm_pending = zx_hash"
    by (simp_all add: wm_pending_def new_pending_def new_mutator_fields zx_req_def)
  then have "settle (zx_state StatePaused) 0 0 wm_pending = Some StatusConfirmed"
    by (simp add: settle_def checkIntent_def zx_state_def zero_state_def gomap_eval)
  then show ?thesis
    using new_mutator_fields(5)[of 7 wm_options]
    by (simp add: reconcile_locked_def wm_mutator_eq new_mutator_fields appendRingLocked_def Let_def
        m_del_def)
qed

theorem confirmed_only_by_state_witness: "intent_met Pause (m_get (st_torrents (zx_state StatePaused)) zx_hash)"
  using confirmed_only_by_state[OF wm_mutator_wf wm_reconcile, of "result_of wm_pending StatusConfirmed"]
  by (simp add: result_of_def wm_pending_def new_pending_def zx_req_def)

theorem reconcile_settles_witness: "m_len (mt_inflight wm_mutator) = 1"
proof -
  have "m_len (mt_inflight wm_mutator) = m_len ([] :: (string, pending) gomap) + 1"
    using reconcile_settles[OF wm_mutator_wf wm_reconcile] by simp
  then show ?thesis
    by (simp add: m_len_def)
qed

definition wm_exec :: "nat \<Rightarrow> backend_call \<Rightarrow> err + string list" where
  "wm_exec b c = Inr []"

lemma wm_submit: "Submit wm_exec zx_req (zx_state StatePaused) 0 (new_mutator 7 wm_options) =
    (accepted 1 Pause zx_hash, wm_mutator, Some (7, StopTorrent zx_hash))"
proof -
  have "register zx_req zx_hash 0 (new_mutator 7 wm_options) = (Inr wm_pending, wm_mutator)"
    by (simp add: wm_mutator_def register_def lookupRefLocked_def new_mutator_fields gomap_simps
        wm_pending_def Let_def)
  moreover have "submit_early zx_req (new_mutator (7 :: nat) wm_options) = None"
    by (simp add: submit_early_def lookupRefLocked_def new_mutator_fields gomap_simps)
  moreover have "validate zx_req (zx_state StatePaused) = Inr zx_hash"
    by (simp add: validate_def backend_up_def zx_req_def zx_state_def zero_state_def gomap_eval)
  moreover have "the_call zx_req (st_api (zx_state StatePaused)) = Some (StopTorrent zx_hash)"
    by (simp add: the_call_def zx_req_def zx_state_def zero_state_def modern_api_def)
  ultimately show ?thesis
    by (simp add: Submit_def zx_hash_lower Let_def submitBackend_def wm_exec_def new_mutator_fields)
      (simp add: accepted_def wm_pending_def new_pending_def zx_req_def new_mutator_fields)
qed

theorem resubmission_is_idempotent_witness:
  "Submit wm_exec zx_req zero_state 5 wm_mutator = (accepted 1 Pause zx_hash, wm_mutator, None)"
  by (rule resubmission_is_idempotent[OF mut_wf_new wm_submit])
    (simp add: accepted_def code_names)

theorem call_only_when_registered_witness: "st_ok (zx_state StatePaused)"
  using call_only_when_registered[OF wm_submit] by blast

theorem webapiAtLeast_lexicographic_witness:
  "webapiAtLeast ''2.9'' 2 11 0 \<longleftrightarrow> [2, 11, 0] \<le> [2, 9, 0 :: int]"
  using webapiAtLeast_lexicographic[of "''2.9''" "[2, 9]" 2 11 0]
  by (simp add: trim_space_def is_space_def atoi_def digits_value_def is_digit_def int64_defs)

theorem ParseMagnetHash_roundtrip_witness:
  "ParseMagnetHash (''magnet:?xt=urn:btih:'' @ zx_hash) = Some zx_hash"
proof -
  have "validHash zx_hash" "to_lower zx_hash = zx_hash"
    by (simp_all add: zx_hash_def validHash_def list_all_iff is_hex_def is_lower_hex_def
        is_digit_def to_lower_def lower_char_def)
  then show ?thesis
    using ParseMagnetHash_roundtrip by (metis append_Nil2)
qed

end
