(* ===== verification/GoNet.thy ===== *)
theory GoNet
  imports GoText
begin

text \<open>
  What the service uses of Go's \<^verbatim>\<open>net\<close>, \<^verbatim>\<open>net/netip\<close> and \<^verbatim>\<open>net/url\<close>: the parsers of IP addresses
  and of URLs, with the accessors \<^verbatim>\<open>Hostname\<close>, \<^verbatim>\<open>Port\<close> and \<^verbatim>\<open>EscapedPath\<close>. Strings are byte
  lists. \<^verbatim>\<open>url.Parse\<close> is given for the URLs the service admits to it (no control characters, no
  space, no backslash), with the strict rule of current Go releases that an unbracketed host
  holds no colon besides the one before the port.
\<close>

section \<open>IP addresses\<close>

definition hex_number :: "string \<Rightarrow> nat" where
  "hex_number s = foldl (\<lambda>n c. n * 16 + hex_value c) 0 s"

text \<open>One octet of a dotted address: digits without a leading zero, at most 255.\<close>

definition ipv4_octet :: "string \<Rightarrow> nat option" where
  "ipv4_octet s =
     (if s = [] \<or> \<not> list_all is_digit s \<or> (length s > 1 \<and> hd s = CHR ''0'') \<or> digits_value s > 255
      then None else Some (nat (digits_value s)))"

definition parse_ipv4 :: "string \<Rightarrow> nat list option" where
  "parse_ipv4 s =
     (case List.map ipv4_octet (split_on (CHR ''.'') s) of
        [Some a, Some b, Some c, Some d] \<Rightarrow> Some [a, b, c, d]
      | _ \<Rightarrow> None)"

text \<open>
  The loop of \<^verbatim>\<open>netip.parseIPv6\<close>: \<open>ip\<close> holds the bytes read so far, \<open>ell\<close> the position of the
  double colon. The result is the bytes and that position.
\<close>

function ipv6_groups :: "string \<Rightarrow> nat list \<Rightarrow> nat option \<Rightarrow> (nat list \<times> nat option) option" where
  "ipv6_groups s ip ell =
     (if length ip \<ge> 16 then (if s = [] then Some (ip, ell) else None)
      else
        let g = takeWhile is_hex s; r = dropWhile is_hex s; acc = hex_number g in
        if g = [] \<or> length g > 4 then None
        else if r \<noteq> [] \<and> hd r = CHR ''.'' then
          (if (ell = None \<and> length ip \<noteq> 12) \<or> length ip + 4 > 16 then None
           else case parse_ipv4 s of None \<Rightarrow> None | Some v4 \<Rightarrow> Some (ip @ v4, ell))
        else
          let ip' = ip @ [acc div 256, acc mod 256] in
          if r = [] then Some (ip', ell)
          else if hd r \<noteq> CHR '':'' \<or> tl r = [] then None
          else if hd (tl r) = CHR '':'' then
            (if ell \<noteq> None then None
             else if tl (tl r) = [] then Some (ip', Some (length ip'))
             else ipv6_groups (tl (tl r)) ip' (Some (length ip')))
          else ipv6_groups (tl r) ip' ell)"
  by pat_completeness auto

lemma length_dropWhile_less: "takeWhile P s \<noteq> [] \<Longrightarrow> length (dropWhile P s) < length s"
  by (cases s) (auto split: if_splits simp: less_Suc_eq_le length_dropWhile_le)

termination ipv6_groups
proof (relation "measure (\<lambda>(s, _, _). length s)", goal_cases)
  case 1
  then show ?case by simp
next
  case (2 s ip ell g r acc ip')
  then have "length r < length s"
    by (simp add: length_dropWhile_less)
  then show ?case by simp
next
  case (3 s ip ell g r acc ip')
  then have "length r < length s"
    by (simp add: length_dropWhile_less)
  then show ?case by simp
qed

declare ipv6_groups.simps [simp del]

text \<open>The 16 bytes of an IPv6 address without its zone.\<close>

definition expand_ellipsis :: "nat list \<Rightarrow> nat option \<Rightarrow> nat list option" where
  "expand_ellipsis ip ell =
     (if length ip < 16 then
        (case ell of None \<Rightarrow> None
         | Some e \<Rightarrow> Some (take e ip @ replicate (16 - length ip) 0 @ drop e ip))
      else if ell \<noteq> None then None else Some ip)"

definition parse_ipv6_nozone :: "string \<Rightarrow> nat list option" where
  "parse_ipv6_nozone s =
     (if take 2 s = ''::'' then
        (if drop 2 s = [] then Some (replicate 16 0)
         else case ipv6_groups (drop 2 s) [] (Some 0) of
                None \<Rightarrow> None | Some (ip, ell) \<Rightarrow> expand_ellipsis ip ell)
      else case ipv6_groups s [] None of
             None \<Rightarrow> None | Some (ip, ell) \<Rightarrow> expand_ellipsis ip ell)"

text \<open>\<^verbatim>\<open>netip.ParseAddr\<close>: the bytes (4 or 16) and the zone.\<close>

definition cut_at :: "char \<Rightarrow> string \<Rightarrow> string \<times> string option" where
  "cut_at c s = (let a = takeWhile (\<lambda>x. x \<noteq> c) s; r = dropWhile (\<lambda>x. x \<noteq> c) s in
     (a, if r = [] then None else Some (tl r)))"

definition ParseAddr :: "string \<Rightarrow> (nat list \<times> string) option" where
  "ParseAddr s =
     (case dropWhile (\<lambda>c. c \<notin> {CHR ''.'', CHR '':'', CHR ''%''}) s of
        [] \<Rightarrow> None
      | c # _ \<Rightarrow>
          if c = CHR ''.'' then map_option (\<lambda>ip. (ip, [])) (parse_ipv4 s)
          else if c = CHR '':'' then
            (case cut_at (CHR ''%'') s of
               (a, None) \<Rightarrow> map_option (\<lambda>ip. (ip, [])) (parse_ipv6_nozone a)
             | (a, Some z) \<Rightarrow>
                 if z = [] then None else map_option (\<lambda>ip. (ip, z)) (parse_ipv6_nozone a))
          else None)"

text \<open>\<^verbatim>\<open>net.ParseIP\<close> admits no zone; \<^verbatim>\<open>IsLoopback\<close> knows IPv4-mapped addresses.\<close>

definition ParseIP :: "string \<Rightarrow> nat list option" where
  "ParseIP s = (case ParseAddr s of Some (ip, []) \<Rightarrow> Some ip | _ \<Rightarrow> None)"

definition v4_prefix :: "nat list" where
  "v4_prefix = [0, 0, 0, 0, 0, 0, 0, 0, 0, 0, 255, 255]"

definition To4 :: "nat list \<Rightarrow> nat list option" where
  "To4 ip = (if length ip = 4 then Some ip
     else if length ip = 16 \<and> take 12 ip = v4_prefix then Some (drop 12 ip) else None)"

definition IsLoopback :: "nat list \<Rightarrow> bool" where
  "IsLoopback ip = (case To4 ip of Some v4 \<Rightarrow> hd v4 = 127
     | None \<Rightarrow> ip = replicate 15 0 @ [1])"

section \<open>Percent encoding\<close>

datatype enc_mode = EncPath | EncHost | EncZone | EncFragment

definition is_alpha :: "char \<Rightarrow> bool" where
  "is_alpha c \<longleftrightarrow> (let n = of_char c :: nat in 65 \<le> n \<and> n \<le> 90 \<or> 97 \<le> n \<and> n \<le> 122)"

definition is_alnum :: "char \<Rightarrow> bool" where
  "is_alnum c \<longleftrightarrow> is_alpha c \<or> is_digit c"

definition shouldEscape :: "enc_mode \<Rightarrow> char \<Rightarrow> bool" where
  "shouldEscape mode c =
     (if is_alnum c then False
      else if mode \<in> {EncHost, EncZone} \<and> c \<in> set ''!$&'' \<union> {CHR 0x27} \<union> set ''()*+,;=:[]<>'' \<union> {CHR 0x22}
        then False
      else if c \<in> set ''-_.~'' then False
      else if c \<in> set ''$&+,/:;=?@'' then (case mode of EncPath \<Rightarrow> c = CHR ''?'' | EncFragment \<Rightarrow> False | _ \<Rightarrow> True)
      else if mode = EncFragment \<and> c \<in> set ''!()*'' then False
      else True)"

definition hex_digit :: "nat \<Rightarrow> char" where
  "hex_digit n = char_of (if n < 10 then 48 + n else 55 + n)"

definition escape_char :: "enc_mode \<Rightarrow> char \<Rightarrow> string" where
  "escape_char mode c = (if shouldEscape mode c
     then [CHR ''%'', hex_digit (of_char c div 16), hex_digit (of_char c mod 16)] else [c])"

definition url_escape :: "enc_mode \<Rightarrow> string \<Rightarrow> string" where
  "url_escape mode s = concat (List.map (escape_char mode) s)"

text \<open>\<^verbatim>\<open>unescape\<close>: a host admits escapes of non-ASCII bytes only, and no character that must be escaped.\<close>

definition host_char_ok :: "enc_mode \<Rightarrow> char \<Rightarrow> bool" where
  "host_char_ok mode c \<longleftrightarrow>
     \<not> (mode \<in> {EncHost, EncZone} \<and> of_char c < (128 :: nat) \<and> shouldEscape mode c)"

fun url_unescape :: "enc_mode \<Rightarrow> string \<Rightarrow> string option" where
  "url_unescape mode [] = Some []"
| "url_unescape mode (c # s) =
     (if c = CHR ''%'' then
        (case s of
           h # l # r \<Rightarrow>
             if is_hex h \<and> is_hex l then
               let v = hex_value h * 16 + hex_value l in
               if mode = EncHost \<and> hex_value h < 8 \<and> \<not> (h = CHR ''2'' \<and> l = CHR ''5'') then None
               else if mode = EncZone \<and> \<not> (h = CHR ''2'' \<and> l = CHR ''5'') \<and> v \<noteq> 32 \<and> shouldEscape EncHost (char_of v)
                 then None
               else map_option (Cons (char_of v)) (url_unescape mode r)
             else None
         | _ \<Rightarrow> None)
      else if \<not> host_char_ok mode c then None
      else map_option (Cons c) (url_unescape mode s))"

section \<open>URLs\<close>

record purl =
  pu_scheme :: string
  pu_user :: bool
  pu_host :: string
  pu_path :: string
  pu_rawpath :: string
  pu_rawquery :: string
  pu_fragment :: string

text \<open>\<^verbatim>\<open>getScheme\<close>: None for an error, \<open>([], s)\<close> for no scheme.\<close>

fun get_scheme :: "string \<Rightarrow> string \<Rightarrow> string \<Rightarrow> (string \<times> string) option" where
  "get_scheme raw acc [] = Some ([], raw)"
| "get_scheme raw acc (c # s) =
     (if is_alpha c then get_scheme raw (acc @ [c]) s
      else if is_digit c \<or> c \<in> set ''+-.'' then
        (if acc = [] then Some ([], raw) else get_scheme raw (acc @ [c]) s)
      else if c = CHR '':'' then (if acc = [] then None else Some (acc, s))
      else Some ([], raw))"

definition validOptionalPort :: "string \<Rightarrow> bool" where
  "validOptionalPort s \<longleftrightarrow> s = [] \<or> (hd s = CHR '':'' \<and> list_all is_digit (tl s))"

text \<open>The part of \<open>s\<close> before and after the last \<open>c\<close>.\<close>

definition cut_last :: "char \<Rightarrow> string \<Rightarrow> (string \<times> string) option" where
  "cut_last c s = (case cut_at c (rev s) of
     (_, None) \<Rightarrow> None | (b, Some a) \<Rightarrow> Some (rev a, rev b))"

definition find_zone :: "string \<Rightarrow> nat option" where
  "find_zone s = List.find (\<lambda>i. take 3 (drop i s) = ''%25'') [0..<length s]"

definition unescape_literal :: "string \<Rightarrow> string option" where
  "unescape_literal s =
     (case find_zone s of
        None \<Rightarrow> url_unescape EncHost s
      | Some i \<Rightarrow> (case url_unescape EncHost (take i s) of None \<Rightarrow> None
          | Some a \<Rightarrow> (case url_unescape EncZone (drop i s) of None \<Rightarrow> None
              | Some z \<Rightarrow> Some (a @ z))))"

definition parse_host :: "string \<Rightarrow> string option" where
  "parse_host h =
     (if CHR ''['' \<in> set h then
        (if hd h \<noteq> CHR ''['' \<or> CHR ''['' \<in> set (tl h) then None
         else case cut_last (CHR '']'') h of
           None \<Rightarrow> None
         | Some (a, port) \<Rightarrow>
             if \<not> validOptionalPort port then None
             else case unescape_literal (tl a) of
               None \<Rightarrow> None
             | Some name \<Rightarrow>
                 (case ParseAddr name of
                    None \<Rightarrow> None
                  | Some (ip, _) \<Rightarrow> if length ip = 4 then None else Some (CHR ''['' # name @ CHR '']'' # port)))
      else case cut_last (CHR '':'') h of
             None \<Rightarrow> url_unescape EncHost h
           | Some (a, port) \<Rightarrow>
               if \<not> list_all is_digit port \<or> CHR '':'' \<in> set a then None
               else url_unescape EncHost h)"

definition userinfo_char :: "char \<Rightarrow> bool" where
  "userinfo_char c \<longleftrightarrow> is_alnum c \<or> c \<in> set ''-._:~!$&'' \<union> {CHR 0x27} \<union> set ''()*+,;=%@''"

text \<open>\<^verbatim>\<open>parseAuthority\<close>: whether there is a user, and the host. The user's own escapes are checked
  as in the source of \<^verbatim>\<open>net/url\<close>; its value is not used.\<close>

definition parse_authority :: "string \<Rightarrow> (bool \<times> string) option" where
  "parse_authority a =
     (case cut_last (CHR ''@'') a of
        None \<Rightarrow> map_option (Pair False) (parse_host a)
      | Some (user, h) \<Rightarrow>
          if list_all userinfo_char user \<and> url_unescape EncFragment user \<noteq> None
          then map_option (Pair True) (parse_host h) else None)"

definition set_path :: "string \<Rightarrow> purl \<Rightarrow> purl option" where
  "set_path p u =
     (case url_unescape EncPath p of None \<Rightarrow> None
      | Some path \<Rightarrow> Some (u\<lparr>pu_path := path,
          pu_rawpath := (if p = url_escape EncPath path then [] else p)\<rparr>))"

definition no_url :: purl where
  "no_url = \<lparr>pu_scheme = [], pu_user = False, pu_host = [], pu_path = [], pu_rawpath = [],
     pu_rawquery = [], pu_fragment = []\<rparr>"

definition parse_rest :: "string \<Rightarrow> string \<Rightarrow> purl option" where
  "parse_rest scheme rest0 =
     (let (rest, q) = cut_at (CHR ''?'') rest0;
          u = no_url\<lparr>pu_scheme := scheme, pu_rawquery := (case q of None \<Rightarrow> [] | Some x \<Rightarrow> x)\<rparr> in
      if \<not> has_prefix ''/'' rest then
        (if scheme \<noteq> [] then Some u
         else if CHR '':'' \<in> set (fst (cut_at (CHR ''/'') rest)) then None
         else set_path rest u)
      else if has_prefix ''//'' rest \<and> (scheme \<noteq> [] \<or> \<not> has_prefix ''///'' rest) then
        (let auth = takeWhile (\<lambda>c. c \<noteq> CHR ''/'') (drop 2 rest);
             path = dropWhile (\<lambda>c. c \<noteq> CHR ''/'') (drop 2 rest) in
         case parse_authority auth of
           None \<Rightarrow> None
         | Some (user, h) \<Rightarrow> set_path path (u\<lparr>pu_user := user, pu_host := h\<rparr>))
      else set_path rest u)"

text \<open>\<^verbatim>\<open>url.Parse\<close>\<close>

definition url_Parse :: "string \<Rightarrow> purl option" where
  "url_Parse raw =
     (let (s, frag) = cut_at (CHR ''#'') raw in
      case (if s = ''*'' then Some (no_url\<lparr>pu_path := ''*''\<rparr>)
            else case get_scheme s [] s of
                   None \<Rightarrow> None
                 | Some (scheme, rest) \<Rightarrow> parse_rest (to_lower scheme) rest) of
        None \<Rightarrow> None
      | Some u \<Rightarrow>
          (case frag of
             None \<Rightarrow> Some u
           | Some f \<Rightarrow> if url_unescape EncFragment f = None then None else Some (u\<lparr>pu_fragment := f\<rparr>)))"

text \<open>\<^verbatim>\<open>Hostname\<close> and \<^verbatim>\<open>Port\<close>\<close>

definition split_host_port :: "string \<Rightarrow> string \<times> string" where
  "split_host_port hp =
     (let (h, p) = (case cut_last (CHR '':'') hp of
          Some (a, b) \<Rightarrow> if list_all is_digit b then (a, b) else (hp, [])
        | None \<Rightarrow> (hp, []))
      in (if has_prefix ''['' h \<and> h \<noteq> [] \<and> last h = CHR '']'' then butlast (tl h) else h, p))"

definition Hostname :: "purl \<Rightarrow> string" where
  "Hostname u = fst (split_host_port (pu_host u))"

definition Port :: "purl \<Rightarrow> string" where
  "Port u = snd (split_host_port (pu_host u))"

definition validEncoded :: "string \<Rightarrow> bool" where
  "validEncoded s \<longleftrightarrow> list_all (\<lambda>c. c \<in> set ''!$&'' \<union> {CHR 0x27} \<union> set ''()*+,;=:@[]%'' \<or>
     \<not> shouldEscape EncPath c) s"

definition EscapedPath :: "purl \<Rightarrow> string" where
  "EscapedPath u =
     (if pu_rawpath u \<noteq> [] \<and> validEncoded (pu_rawpath u) \<and>
         url_unescape EncPath (pu_rawpath u) = Some (pu_path u)
      then pu_rawpath u
      else if pu_path u = ''*'' then ''*''
      else url_escape EncPath (pu_path u))"

section \<open>Lemmas\<close>

text \<open>Each escape makes the decoded string shorter.\<close>

lemma url_unescape_escape:
  assumes "url_unescape mode (CHR ''%'' # s) = Some r"
  shows "\<exists>h l q v r'. s = h # l # q \<and> url_unescape mode q = Some r' \<and> r = v # r'"
proof (cases s)
  case Nil
  then show ?thesis using assms by simp
next
  case (Cons h t)
  note s = Cons
  show ?thesis
  proof (cases t)
    case Nil
    then show ?thesis using assms s by simp
  next
    case (Cons l q)
    then show ?thesis
      using assms unfolding s by (auto simp: Let_def split: if_splits)
  qed
qed

lemma url_unescape_plain:
  assumes "url_unescape mode (c # s) = Some r" "c \<noteq> CHR ''%''"
  shows "\<exists>r'. url_unescape mode s = Some r' \<and> r = c # r'"
  using assms by (auto split: if_splits)

lemma url_unescape_length: "url_unescape mode s = Some r \<Longrightarrow> length r \<le> length s"
proof (induction s arbitrary: r rule: length_induct)
  case (1 s)
  have IH: "length r' \<le> length q" if "length q < length s" "url_unescape mode q = Some r'" for q r'
    using 1(1) that by blast
  show ?case
  proof (cases s)
    case Nil
    then show ?thesis using 1 by simp
  next
    case (Cons c t)
    consider h l q v r' where "t = h # l # q" "url_unescape mode q = Some r'" "r = v # r'"
      | r' where "url_unescape mode t = Some r'" "r = c # r'"
      using 1(2) url_unescape_escape[of mode t r] url_unescape_plain[of mode c t r] unfolding Cons by metis
    then show ?thesis
    proof cases
      case esc: (1 h l q v r')
      have "length r' \<le> length q"
        using IH[of q r'] esc by (simp add: Cons)
      then show ?thesis
        by (simp add: Cons esc)
    next
      case pl: (2 r')
      have "length r' \<le> length t"
        using IH[of t r'] pl by (simp add: Cons)
      then show ?thesis
        by (simp add: Cons pl)
    qed
  qed
qed

lemma url_unescape_percent:
  assumes "url_unescape mode s = Some r" "CHR ''%'' \<in> set s"
  shows "length r < length s"
  using assms
proof (induction s arbitrary: r)
  case (Cons c s)
  show ?case
  proof (cases "c = CHR ''%''")
    case True
    then obtain h l q v r' where "s = h # l # q" "url_unescape mode q = Some r'" "r = v # r'"
      using Cons.prems(1) url_unescape_escape by blast
    then show ?thesis
      using url_unescape_length[of mode q r'] by simp
  next
    case False
    then obtain r' where "url_unescape mode s = Some r'" "r = c # r'"
      using Cons.prems(1) url_unescape_plain by blast
    then show ?thesis
      using Cons.IH[of r'] Cons.prems(2) False by simp
  qed
qed simp

end
