(* ===== verification/Profile.thy ===== *)
theory Profile
  imports GoNet
begin

text \<open>
  Connection profiles (internal/connection/profile.go): the validation and normalization of a
  base URL, the insecure-HTTP policy and the validation of a whole profile. Errors are their
  messages (\<open>Inl\<close>), which \<^verbatim>\<open>connection.test\<close> shows to the user. \<^verbatim>\<open>strings.ToLower\<close> is \<open>to_lower\<close>,
  which folds ASCII letters.
\<close>

section \<open>Bounds and tokens\<close>

definition MaxURLLen :: nat where "MaxURLLen = 2048"
definition MaxUserLen :: nat where "MaxUserLen = 64"
definition MaxPathLen :: nat where "MaxPathLen = 128"

definition TLSSystem :: string where "TLSSystem = ''system''"
definition TLSCA :: string where "TLSCA = ''ca''"
definition TLSPin :: string where "TLSPin = ''pin''"

lemmas tls_names = TLSSystem_def TLSCA_def TLSPin_def

record endpoint =
  ep_url :: string
  ep_scheme :: string
  ep_hostname :: string
  ep_host :: string
  ep_path :: string
  ep_loopback :: bool

definition no_endpoint :: endpoint where
  "no_endpoint = \<lparr>ep_url = [], ep_scheme = [], ep_hostname = [], ep_host = [], ep_path = [],
     ep_loopback = False\<rparr>"

section \<open>URL validation\<close>

definition IsLoopbackHost :: "string \<Rightarrow> bool" where
  "IsLoopbackHost hostname =
     (let h = to_lower hostname in
      if h = ''localhost'' then True
      else case ParseIP h of None \<Rightarrow> False | Some ip \<Rightarrow> IsLoopback ip)"

definition validPort :: "string \<Rightarrow> string" where
  "validPort p =
     (if \<not> list_all is_digit p then []
      else if length p < 1 \<or> length p > 5 then []
      else let n = digits_value p in if n < 1 \<or> n > 65535 then [] else p)"

text \<open>\<^verbatim>\<open>strings.Contains(s, "//")\<close> and \<^verbatim>\<open>strings.TrimSuffix(s, "/")\<close>\<close>

fun has_double :: "char \<Rightarrow> string \<Rightarrow> bool" where
  "has_double c (x # y # s) = ((x = c \<and> y = c) \<or> has_double c (y # s))"
| "has_double c _ = False"

definition trim_suffix :: "char \<Rightarrow> string \<Rightarrow> string" where
  "trim_suffix c s = (if s \<noteq> [] \<and> last s = c then butlast s else s)"

definition normalizePath :: "string \<Rightarrow> string" where
  "normalizePath p =
     (if \<not> has_prefix ''/'' p then []
      else if length p > MaxPathLen then []
      else if has_double (CHR ''/'') (tl p) then []
      else if CHR ''%'' \<in> set p \<and> url_unescape EncPath p \<noteq> Some p then []
      else
        let segments = tl (split_on (CHR ''/'') (trim_suffix (CHR ''/'') p)) in
        if \<exists>s \<in> set segments. s = [] \<or> s = ''.'' \<or> s = ''..'' then []
        else CHR ''/'' # join_with (CHR ''/'') segments)"

definition control_char :: "char \<Rightarrow> bool" where
  "control_char c \<longleftrightarrow> of_char c < (32 :: nat) \<or> of_char c = (127 :: nat)"

definition refused_char :: "char \<Rightarrow> bool" where
  "refused_char c \<longleftrightarrow> of_char c = (32 :: nat) \<or> of_char c = (92 :: nat)"

text \<open>The loop over the characters of the raw URL: the first offending one decides the message.\<close>

fun scan_chars :: "string \<Rightarrow> string option" where
  "scan_chars [] = None"
| "scan_chars (c # s) =
     (if control_char c then Some ''control characters in URL''
      else if refused_char c then Some ''unsupported character in URL''
      else scan_chars s)"

definition path_prefix :: "string \<Rightarrow> string option" where
  "path_prefix p =
     (if p = [] \<or> p = ''/'' then Some []
      else let clean = normalizePath p in if clean = [] then None else Some clean)"

definition mk_endpoint :: "purl \<Rightarrow> string \<Rightarrow> endpoint" where
  "mk_endpoint u p =
     (let hostPart = (if Port u = []
        then pu_host u @ (if pu_scheme u = ''http'' then '':80'' else '':443'') else pu_host u)
      in \<lparr>ep_url = pu_scheme u @ ''://'' @ to_lower hostPart @ p, ep_scheme = pu_scheme u,
          ep_hostname = to_lower (Hostname u), ep_host = pu_host u @ p, ep_path = p,
          ep_loopback = IsLoopbackHost (Hostname u)\<rparr>)"

definition ValidateURL :: "string \<Rightarrow> string + endpoint" where
  "ValidateURL raw =
     (if raw = [] then Inl ''empty URL''
      else if length raw > MaxURLLen then Inl ''URL exceeds 2048 bytes''
      else case scan_chars raw of
        Some e \<Rightarrow> Inl e
      | None \<Rightarrow>
          (case url_Parse raw of
             None \<Rightarrow> Inl ''unparseable URL''
           | Some u \<Rightarrow>
               if pu_user u then Inl ''credentials in the URL are not supported''
               else if pu_scheme u \<noteq> ''http'' \<and> pu_scheme u \<noteq> ''https''
                 then Inl ''unsupported URL scheme (http/https only)''
               else if pu_host u = [] then Inl ''empty host''
               else if pu_rawquery u \<noteq> []
                 then Inl ''query strings are not supported in the base URL''
               else if pu_fragment u \<noteq> [] then Inl ''fragments are not supported in the base URL''
               else if Hostname u = [] then Inl ''empty host''
               else if Port u \<noteq> [] \<and> Port u \<noteq> validPort (Port u) then Inl ''invalid port''
               else case path_prefix (EscapedPath u) of
                      None \<Rightarrow> Inl ''invalid path prefix''
                    | Some p \<Rightarrow> Inr (mk_endpoint u p)))"

section \<open>The policy and the profile\<close>

definition InsecureTransport :: "endpoint \<Rightarrow> bool" where
  "InsecureTransport ep \<longleftrightarrow> \<not> ep_loopback ep \<and> ep_scheme ep = ''http''"

definition httpPolicyError :: "endpoint \<Rightarrow> bool \<Rightarrow> bool" where
  "httpPolicyError ep acknowledged \<longleftrightarrow> InsecureTransport ep \<and> \<not> acknowledged"

definition hexVal :: "char \<Rightarrow> nat option" where
  "hexVal c =
     (let n = of_char c in
      if 48 \<le> n \<and> n \<le> 57 then Some (n - 48)
      else if 97 \<le> n \<and> n \<le> 102 then Some (n - 97 + 10) else None)"

fun hex_pairs :: "string \<Rightarrow> nat list option" where
  "hex_pairs (a # b # s) =
     (case hexVal a of None \<Rightarrow> None
      | Some hi \<Rightarrow> (case hexVal b of None \<Rightarrow> None
          | Some lo \<Rightarrow> map_option (Cons (hi * 16 + lo)) (hex_pairs s)))"
| "hex_pairs _ = Some []"

definition decodeHex :: "string \<Rightarrow> string + nat list" where
  "decodeHex s =
     (if length s mod 2 \<noteq> 0 then Inl ''odd-length hex''
      else case hex_pairs s of None \<Rightarrow> Inl ''non-hex character'' | Some out \<Rightarrow> Inr out)"

record profile =
  pf_url :: string
  pf_user :: string
  pf_tls :: string
  pf_ca :: string
  pf_pin :: string
  pf_pem :: string
  pf_ack :: bool

definition DefaultProfile :: profile where
  "DefaultProfile = \<lparr>pf_url = ''http://127.0.0.1:8080'', pf_user = [], pf_tls = TLSSystem, pf_ca = [],
     pf_pin = [], pf_pem = [], pf_ack = False\<rparr>"

definition validate_tls_fields :: "profile \<Rightarrow> string option" where
  "validate_tls_fields p =
     (if pf_tls p = [] \<or> pf_tls p = TLSSystem then None
      else if pf_tls p = TLSCA then
        (if pf_ca p = [] then Some ''TLS mode \"ca\" requires ca_path'' else None)
      else if pf_tls p = TLSPin then
        (if length (pf_pin p) \<noteq> 64 then Some ''TLS mode \"pin\" requires pin_fingerprint (64 hex)''
         else case decodeHex (pf_pin p) of
           Inl _ \<Rightarrow> Some ''pin_fingerprint must be lowercase hex''
         | Inr _ \<Rightarrow> if pf_pem p = [] then Some ''TLS mode \"pin\" requires pin_cert_pem'' else None)
      else Some ''unknown TLS mode'')"

definition policy_message :: string where
  "policy_message = ''plain HTTP to a non-loopback host requires the explicit allow_insecure_http acknowledgement''"

definition Validate :: "profile \<Rightarrow> string + endpoint" where
  "Validate p =
     (if length (pf_user p) > MaxUserLen then Inl ''username exceeds 64 runes''
      else case validate_tls_fields p of
        Some e \<Rightarrow> Inl e
      | None \<Rightarrow>
          (case ValidateURL (pf_url p) of
             Inl e \<Rightarrow> Inl e
           | Inr ep \<Rightarrow> if httpPolicyError ep (pf_ack p) then Inl policy_message else Inr ep))"

section \<open>Lemmas\<close>

lemma Validate_ok:
  "Validate p = Inr ep \<longleftrightarrow> length (pf_user p) \<le> MaxUserLen \<and> validate_tls_fields p = None \<and>
     ValidateURL (pf_url p) = Inr ep \<and> \<not> httpPolicyError ep (pf_ack p)"
  by (auto simp: Validate_def split: option.splits sum.splits if_splits)

text \<open>Everything \<open>ValidateURL\<close> has checked when it accepts.\<close>

lemma ValidateURL_ok:
  assumes "ValidateURL raw = Inr ep"
  obtains u p where "url_Parse raw = Some u" "\<not> pu_user u" "pu_scheme u = ''http'' \<or> pu_scheme u = ''https''"
    "Hostname u \<noteq> []" "pu_rawquery u = []" "pu_fragment u = []"
    "Port u = [] \<or> Port u = validPort (Port u)" "path_prefix (EscapedPath u) = Some p"
    "ep = mk_endpoint u p" "length raw \<le> MaxURLLen" "scan_chars raw = None" "pu_host u \<noteq> []"
proof -
  have l: "raw \<noteq> []" "length raw \<le> MaxURLLen" "scan_chars raw = None"
    using assms by (auto simp: ValidateURL_def split: if_splits option.splits)
  obtain u where u: "url_Parse raw = Some u"
    using assms l by (auto simp: ValidateURL_def split: if_splits option.splits)
  note a = assms[unfolded ValidateURL_def if_not_P[OF l(1)] if_not_P[OF leD[OF l(2)]] l(3) u option.case]
  have c: "\<not> pu_user u" "pu_scheme u = ''http'' \<or> pu_scheme u = ''https''" "pu_host u \<noteq> []"
    "pu_rawquery u = []" "pu_fragment u = []" "Hostname u \<noteq> []"
    "Port u = [] \<or> Port u = validPort (Port u)"
    using a by (auto split: if_splits)
  then obtain p where "path_prefix (EscapedPath u) = Some p" "ep = mk_endpoint u p"
    using a by (auto split: if_splits option.splits)
  with c l u that show ?thesis by blast
qed

lemma trim_suffix_split:
  assumes "s \<noteq> []" "hd s = CHR ''/''" "s \<noteq> ''/''"
  shows "trim_suffix (CHR ''/'') s \<noteq> []" "hd (trim_suffix (CHR ''/'') s) = CHR ''/''"
  using assms by (cases s; cases "tl s"; auto simp: trim_suffix_def)+

text \<open>A clean prefix is the path itself, less one trailing slash.\<close>

lemma split_on_lead: "split_on c (c # s) = [] # split_on c s"
  by simp

lemma normalizePath_ok:
  assumes "normalizePath p = q" "q \<noteq> []" "p \<noteq> ''/''"
  shows "q = trim_suffix (CHR ''/'') p" "has_prefix ''/'' q" "length p \<le> MaxPathLen"
    "\<forall>s \<in> set (split_on (CHR ''/'') (tl q)). s \<noteq> [] \<and> s \<noteq> ''.'' \<and> s \<noteq> ''..''"
    "CHR ''%'' \<in> set p \<longrightarrow> url_unescape EncPath p = Some p"
proof -
  let ?t = "trim_suffix (CHR ''/'') p"
  have c: "has_prefix ''/'' p" "length p \<le> MaxPathLen"
    "\<forall>s \<in> set (tl (split_on (CHR ''/'') ?t)). s \<noteq> [] \<and> s \<noteq> ''.'' \<and> s \<noteq> ''..''"
    "q = CHR ''/'' # join_with (CHR ''/'') (tl (split_on (CHR ''/'') ?t))"
    "CHR ''%'' \<in> set p \<longrightarrow> url_unescape EncPath p = Some p"
    using assms by (auto simp: normalizePath_def Let_def split: if_splits)
  then obtain r where p: "p = CHR ''/'' # r"
    by (cases p) (auto simp: has_prefix_def)
  then obtain r' where t: "?t = CHR ''/'' # r'"
    using trim_suffix_split[of p] assms(3) by (cases ?t) auto
  show q: "q = ?t"
    using c(4) t by (simp add: join_split)
  show "length p \<le> MaxPathLen" "CHR ''%'' \<in> set p \<longrightarrow> url_unescape EncPath p = Some p"
    by fact+
  show "has_prefix ''/'' q"
    by (simp add: q t has_prefix_def)
  show "\<forall>s \<in> set (split_on (CHR ''/'') (tl q)). s \<noteq> [] \<and> s \<noteq> ''.'' \<and> s \<noteq> ''..''"
    using c(3) t q by simp
qed

text \<open>A path that decodes to itself has no escape.\<close>

lemma path_prefix_ok:
  assumes "path_prefix p = Some q"
  shows "q = [] \<or> (has_prefix ''/'' q \<and> length q \<le> MaxPathLen \<and> CHR ''%'' \<notin> set q \<and>
    (\<forall>s \<in> set (split_on (CHR ''/'') (tl q)). s \<noteq> [] \<and> s \<noteq> ''.'' \<and> s \<noteq> ''..''))"
proof (cases "p = [] \<or> p = ''/''")
  case True
  then show ?thesis using assms by (simp add: path_prefix_def)
next
  case False
  then have n: "normalizePath p = q" "q \<noteq> []" "p \<noteq> ''/''"
    using assms by (auto simp: path_prefix_def Let_def split: if_splits)
  note ok = normalizePath_ok[OF n]
  have "CHR ''%'' \<notin> set p"
    using ok(5) url_unescape_percent[of EncPath p p] by blast
  moreover have "set (trim_suffix (CHR ''/'') p) \<subseteq> set p" "length (trim_suffix (CHR ''/'') p) \<le> length p"
    by (auto simp: trim_suffix_def dest: in_set_butlastD)
  ultimately show ?thesis
    using ok by auto
qed

text \<open>The default profile is valid, and local.\<close>

definition local_endpoint :: endpoint where
  "local_endpoint = \<lparr>ep_url = ''http://127.0.0.1:8080'', ep_scheme = ''http'',
     ep_hostname = ''127.0.0.1'', ep_host = ''127.0.0.1:8080'', ep_path = [], ep_loopback = True\<rparr>"

lemma default_endpoint: "Validate DefaultProfile = Inr local_endpoint"
  by code_simp

end
