(* ===== verification/ProfileProps.thy ===== *)
theory ProfileProps
  imports Profile
begin

text \<open>Properties of URL and profile validation.\<close>

section \<open>Ports and hexadecimal\<close>

lemma validPort_iff:
  "validPort p \<noteq> [] \<longleftrightarrow> list_all is_digit p \<and> 1 \<le> length p \<and> length p \<le> 5 \<and>
     1 \<le> digits_value p \<and> digits_value p \<le> 65535"
  by (cases p) (auto simp: validPort_def Let_def)

lemma validPort_id: "validPort p \<noteq> [] \<Longrightarrow> validPort p = p"
  by (auto simp: validPort_def Let_def split: if_splits)

lemma hexVal_digit: "n < 16 \<Longrightarrow> hexVal (lower_hex_digit n) = Some n"
  by (simp add: hexVal_def lower_hex_digit_def)

lemma hexVal_Some:
  assumes "hexVal c = Some n"
  shows "n < 16" "lower_hex_digit n = c"
proof -
  have "of_char c = (if n < 10 then 48 + n else 87 + n)" "n < 16"
    using assms by (auto simp: hexVal_def Let_def split: if_splits)
  then show "n < 16" "lower_hex_digit n = c"
    by (simp_all add: lower_hex_digit_def) (metis char_of_char)+
qed

lemma hex_pairs_encode: "\<forall>b \<in> set bs. b < 256 \<Longrightarrow> hex_pairs (hex_of_bytes bs) = Some bs"
proof (induction bs)
  case (Cons b bs)
  then have "b div 16 < 16" "b mod 16 < 16" by auto
  then show ?case
    using Cons by (simp add: hex_of_bytes_def hexVal_digit)
qed (simp add: hex_of_bytes_def)

lemma hex_pairs_decode:
  "hex_pairs s = Some bs \<Longrightarrow> even (length s) \<Longrightarrow> s = hex_of_bytes bs \<and> (\<forall>b \<in> set bs. b < 256)"
proof (induction s arbitrary: bs rule: hex_pairs.induct)
  case (1 a b s)
  then obtain hi lo bs' where h: "hexVal a = Some hi" "hexVal b = Some lo" "hex_pairs s = Some bs'"
    "bs = (hi * 16 + lo) # bs'"
    by (auto split: option.splits)
  note hi = hexVal_Some[OF h(1)] and lo = hexVal_Some[OF h(2)]
  have "s = hex_of_bytes bs' \<and> (\<forall>b \<in> set bs'. b < 256)"
    using 1 h by simp
  moreover have "(hi * 16 + lo) div 16 = hi" "(hi * 16 + lo) mod 16 = lo" "hi * 16 + lo < 256"
    using hi(1) lo(1) by auto
  ultimately show ?case
    using hi(2) lo(2) by (simp add: h(4) hex_of_bytes_def)
qed (simp_all add: hex_of_bytes_def)

lemma length_hex_of_bytes: "length (hex_of_bytes bs) = 2 * length bs"
  by (induction bs) (simp_all add: hex_of_bytes_def)

text \<open>
  \<^verbatim>\<open>decodeHex\<close> is the inverse of lower-case hexadecimal: it succeeds exactly on the encodings
  of byte strings, and returns the bytes. Upper-case digits are refused.
\<close>

theorem decodeHex_exact:
  "decodeHex s = Inr bs \<longleftrightarrow> s = hex_of_bytes bs \<and> list_all (\<lambda>b. b < 256) bs"
proof
  assume "decodeHex s = Inr bs"
  then have "hex_pairs s = Some bs" "even (length s)"
    by (auto simp: decodeHex_def split: if_splits option.splits)
  then show "s = hex_of_bytes bs \<and> list_all (\<lambda>b. b < 256) bs"
    using hex_pairs_decode by (auto simp: list_all_iff)
next
  assume "s = hex_of_bytes bs \<and> list_all (\<lambda>b. b < 256) bs"
  then show "decodeHex s = Inr bs"
    using hex_pairs_encode[of bs] by (simp add: decodeHex_def length_hex_of_bytes list_all_iff)
qed

section \<open>URLs\<close>

lemma accepted_scheme:
  assumes "ValidateURL raw = Inr ep"
  shows "ep_scheme ep \<in> {''http'', ''https''}"
  using assms by (cases rule: ValidateURL_ok) (auto simp: mk_endpoint_def Let_def)

text \<open>
  An accepted base URL is normalized: its scheme is http or https, the normalized URL is
  \<^verbatim>\<open>scheme://host:port\<close> followed by the path prefix, and the prefix is empty or starts with a
  slash, is at most \<open>MaxPathLen\<close> bytes long, holds no percent encoding, and has no empty, dot or
  dot-dot segment (so it has no trailing slash either).
\<close>

theorem accepted_url_normalized:
  assumes "ValidateURL raw = Inr ep"
  shows "ep_scheme ep \<in> {''http'', ''https''} \<and>
    (\<exists>hp. hp \<noteq> [] \<and> to_lower hp = hp \<and> ep_url ep = ep_scheme ep @ ''://'' @ hp @ ep_path ep) \<and>
    (ep_path ep = [] \<or> hd (ep_path ep) = CHR ''/'' \<and> length (ep_path ep) \<le> MaxPathLen \<and>
       CHR ''%'' \<notin> set (ep_path ep) \<and>
       (\<forall>s \<in> set (split_on (CHR ''/'') (tl (ep_path ep))). s \<noteq> [] \<and> s \<noteq> ''.'' \<and> s \<noteq> ''..''))"
  using assms
proof (cases rule: ValidateURL_ok)
  case (1 u p)
  let ?hp = "if Port u = [] then pu_host u @ (if pu_scheme u = ''http'' then '':80'' else '':443'')
    else pu_host u"
  have url: "ep_url ep = pu_scheme u @ ''://'' @ to_lower ?hp @ p" "ep_scheme ep = pu_scheme u" "ep_path ep = p"
    by (simp_all add: 1 mk_endpoint_def Let_def)
  have "to_lower ?hp \<noteq> []"
    using 1(12) by (simp add: to_lower_def)
  moreover have "hd p = CHR ''/''" if "has_prefix ''/'' p" "p \<noteq> []"
    using that by (cases p) (simp_all add: has_prefix_def)
  ultimately show ?thesis
    using path_prefix_ok[OF 1(8)] 1(3) url by (auto intro!: exI[of _ "to_lower ?hp"])
qed

text \<open>
  C34. No profile that passes validation runs plain HTTP to a remote host without the explicit
  acknowledgement, and a pinned profile carries a 64-digit lower-case fingerprint and its
  certificate.
\<close>

theorem valid_profile_policy:
  assumes "Validate p = Inr ep"
  shows "(ep_scheme ep = ''https'' \<or> ep_loopback ep \<or> pf_ack p) \<and>
    (pf_tls p = TLSPin \<longrightarrow> (\<exists>bs. length bs = 32 \<and> pf_pin p = hex_of_bytes bs) \<and> pf_pem p \<noteq> []) \<and>
    (pf_tls p = TLSCA \<longrightarrow> pf_ca p \<noteq> [])"
proof -
  have v: "validate_tls_fields p = None" "ValidateURL (pf_url p) = Inr ep" "\<not> httpPolicyError ep (pf_ack p)"
    using assms by (simp_all add: Validate_ok)
  have "ep_scheme ep \<in> {''http'', ''https''}"
    by (rule accepted_scheme[OF v(2)])
  then have pol: "ep_scheme ep = ''https'' \<or> ep_loopback ep \<or> pf_ack p"
    using v(3) by (auto simp: httpPolicyError_def InsecureTransport_def)
  have pin: "(\<exists>bs. length bs = 32 \<and> pf_pin p = hex_of_bytes bs) \<and> pf_pem p \<noteq> []" if mode: "pf_tls p = TLSPin"
  proof -
    have l: "length (pf_pin p) = 64" "pf_pem p \<noteq> []"
      using v(1) that by (auto simp: validate_tls_fields_def tls_names split: if_splits sum.splits)
    obtain bs where "decodeHex (pf_pin p) = Inr bs"
      using v(1) mode by (auto simp: validate_tls_fields_def tls_names split: if_splits sum.splits)
    then have "pf_pin p = hex_of_bytes bs"
      by (auto simp: decodeHex_def dest!: hex_pairs_decode split: if_splits option.splits)
    then show ?thesis
      using l length_hex_of_bytes[of bs] by auto
  qed
  have "pf_ca p \<noteq> []" if "pf_tls p = TLSCA"
    using v(1) that by (auto simp: validate_tls_fields_def tls_names split: if_splits)
  then show ?thesis
    using pol pin by blast
qed

text \<open>
  Normalization is not idempotent: a URL with an empty port is accepted, but the port the
  normalization appends follows the colon that is already there, and the result is not a valid
  base URL.
\<close>

theorem empty_port_not_normalized:
  "\<exists>ep. ValidateURL ''http://host:'' = Inr ep \<and> ep_url ep = ''http://host::80'' \<and>
     ValidateURL (ep_url ep) = Inl ''unparseable URL''"
proof -
  have a: "ValidateURL ''http://host:'' = Inr \<lparr>ep_url = ''http://host::80'', ep_scheme = ''http'',
      ep_hostname = ''host'', ep_host = ''host:'', ep_path = [], ep_loopback = False\<rparr>"
    by code_simp
  have "ValidateURL ''http://host::80'' = Inl ''unparseable URL''"
    by code_simp
  with a show ?thesis by simp
qed

section \<open>Witnesses\<close>

theorem accepted_url_normalized_witness:
  "\<exists>hp. ''https://nas.local:443/qbt'' = ''https'' @ ''://'' @ hp @ ''/qbt''"
proof -
  have "ValidateURL ''https://NAS.local/qbt/'' = Inr \<lparr>ep_url = ''https://nas.local:443/qbt'',
      ep_scheme = ''https'', ep_hostname = ''nas.local'', ep_host = ''NAS.local/qbt'', ep_path = ''/qbt'',
      ep_loopback = False\<rparr>"
    by code_simp
  from accepted_url_normalized[OF this] show ?thesis
    by auto
qed

definition wp_pinned :: profile where
  "wp_pinned = \<lparr>pf_url = ''https://127.0.0.1:8080'', pf_user = [], pf_tls = TLSPin, pf_ca = [],
     pf_pin = replicate 64 (CHR ''a''), pf_pem = ''pem'', pf_ack = False\<rparr>"

lemma wp_pinned_valid: "Validate wp_pinned = Inr (local_endpoint\<lparr>ep_url := ''https://127.0.0.1:8080'',
    ep_scheme := ''https''\<rparr>)"
  by code_simp

theorem valid_profile_policy_witness: "\<exists>bs. length bs = 32 \<and> pf_pin wp_pinned = hex_of_bytes bs"
  using valid_profile_policy[OF wp_pinned_valid] by (simp add: wp_pinned_def)

end
