(* ===== verification/Store.thy ===== *)
theory Store
  imports Profile Prelude
begin

text \<open>
  The profile store (internal/connection/store.go) over a model of the file system: an absolute
  path is the list of its components, and the file system maps it to what \<^verbatim>\<open>lstat\<close> reports
  there. \<open>fails\<close> says which system calls fail for a reason the model does not show (no space,
  no permission, a broken disk). The JSON encoding of a profile is a parameter (\<open>marshal\<close>,
  \<open>unmarshal\<close>); errors are their messages without the path.
\<close>

section \<open>The file system\<close>

type_synonym path = "string list"

datatype node = NDir nat nat | NFile nat nat string | NLink | NOther nat

type_synonym fs = "path \<Rightarrow> node option"

datatype sysop = SysLstat | SysMkdir | SysOpenRead | SysStat | SysRead | SysCreate | SysWrite
  | SysSync | SysClose | SysRename | SysUnlink

type_synonym fails = "sysop \<Rightarrow> bool"

definition is_dir :: "fs \<Rightarrow> path \<Rightarrow> bool" where
  "is_dir fs p \<longleftrightarrow> p = [] \<or> (case fs p of Some (NDir _ _) \<Rightarrow> True | _ \<Rightarrow> False)"

definition node_perm :: "node \<Rightarrow> nat" where
  "node_perm n = (case n of NDir m _ \<Rightarrow> m | NFile m _ _ \<Rightarrow> m | NOther m \<Rightarrow> m | NLink \<Rightarrow> 511)"

definition MaxProfileBytes :: nat where
  "MaxProfileBytes = 131072"

definition TmpName :: string where
  "TmpName = ''.connection.json.tmp''"

section \<open>Reading\<close>

fun refuse_walk :: "fs \<Rightarrow> path \<Rightarrow> string list \<Rightarrow> bool" where
  "refuse_walk fs cur [] = False"
| "refuse_walk fs cur (c # cs) =
     (if c = [] then refuse_walk fs cur cs
      else let cur' = cur @ [c] in
           if fs cur' = Some NLink then True else refuse_walk fs cur' cs)"

definition refuseSymlinkedDir :: "fs \<Rightarrow> path \<Rightarrow> bool" where
  "refuseSymlinkedDir fs dir = refuse_walk fs [] dir"

text \<open>No permission bit for group or others.\<close>

definition private_mode :: "nat \<Rightarrow> bool" where
  "private_mode m \<longleftrightarrow> m mod 64 = 0"

text \<open>An error, or the bytes if the file exists.\<close>

definition openProfileForRead :: "fails \<Rightarrow> fs \<Rightarrow> path \<Rightarrow> string + string option" where
  "openProfileForRead fails fs path =
     (if refuseSymlinkedDir fs (butlast path) then Inl ''refusing symlinked path component''
      else case fs path of
        None \<Rightarrow> Inr None
      | Some NLink \<Rightarrow> Inl ''refusing symlinked profile''
      | Some n \<Rightarrow>
          if fails SysOpenRead then Inl ''open''
          else if fails SysStat then Inl ''stat''
          else if \<not> private_mode (node_perm n) then Inl ''must not be group/world accessible''
          else (case n of
              NFile _ _ data \<Rightarrow>
                if fails SysRead then Inl ''read''
                else if length data > MaxProfileBytes then Inl ''exceeds 131072 bytes''
                else Inr (Some data)
            | _ \<Rightarrow> Inl ''is not a regular file''))"

definition LoadStore :: "(string \<Rightarrow> profile option) \<Rightarrow> fails \<Rightarrow> fs \<Rightarrow> path \<Rightarrow> string + profile option" where
  "LoadStore unmarshal fails fs path =
     (case openProfileForRead fails fs path of
        Inl e \<Rightarrow> Inl e
      | Inr None \<Rightarrow> Inr None
      | Inr (Some data) \<Rightarrow>
          (case unmarshal data of
             None \<Rightarrow> Inl ''malformed profile''
           | Some p \<Rightarrow> (case Validate p of Inl e \<Rightarrow> Inl (''invalid profile: '' @ e) | Inr _ \<Rightarrow> Inr (Some p))))"

definition ReadStoreRaw :: "fails \<Rightarrow> fs \<Rightarrow> path \<Rightarrow> string + string option" where
  "ReadStoreRaw fails fs path = openProfileForRead fails fs path"

section \<open>Writing\<close>

definition configRoot :: "path \<Rightarrow> path" where
  "configRoot dir = butlast (butlast dir)"

text \<open>The walk of \<^verbatim>\<open>ensurePrivateDir\<close>: an error, or whether it ended early after a creation.\<close>

fun ensure_walk :: "fails \<Rightarrow> nat \<Rightarrow> path \<Rightarrow> string list \<Rightarrow> fs \<Rightarrow> (string + bool) \<times> fs" where
  "ensure_walk fails uid cur [] fs = (Inr False, fs)"
| "ensure_walk fails uid cur (c # cs) fs =
     (if c = [] then ensure_walk fails uid cur cs fs
      else let cur' = cur @ [c] in
        if fails SysLstat then (Inl ''inspect'', fs)
        else case fs cur' of
          None \<Rightarrow> if fails SysMkdir \<or> \<not> is_dir fs cur then (Inl ''create'', fs)
                  else (Inr True, fs(cur' \<mapsto> NDir 448 uid))
        | Some NLink \<Rightarrow> (Inl ''refusing symlinked path component'', fs)
        | Some (NDir _ _) \<Rightarrow> ensure_walk fails uid cur' cs fs
        | Some _ \<Rightarrow> (Inl ''refusing non-directory'', fs))"

definition ensurePrivateDir :: "fails \<Rightarrow> nat \<Rightarrow> path \<Rightarrow> fs \<Rightarrow> string option \<times> fs" where
  "ensurePrivateDir fails uid dir fs =
     (let root = configRoot dir in
      case ensure_walk fails uid root (drop (length root) dir) fs of
        (Inl e, fs1) \<Rightarrow> (Some e, fs1)
      | (Inr True, fs1) \<Rightarrow> (None, fs1)
      | (Inr False, fs1) \<Rightarrow>
          (if fails SysLstat then (Some ''inspect'', fs1)
           else case fs1 dir of
             None \<Rightarrow> (Some ''inspect'', fs1)
           | Some n \<Rightarrow>
               if node_perm n \<noteq> 448 then (Some ''refusing directory with mode'', fs1)
               else (case n of
                   NDir _ u \<Rightarrow> if u \<noteq> uid then (Some ''refusing directory not owned by uid'', fs1)
                               else (None, fs1)
                 | _ \<Rightarrow> (None, fs1))))"

definition tmp_path :: "path \<Rightarrow> path" where
  "tmp_path path = butlast path @ [TmpName]"

text \<open>\<^verbatim>\<open>cleanup\<close>: the temporary file is removed, unless that fails too.\<close>

definition remove_tmp :: "fails \<Rightarrow> path \<Rightarrow> fs \<Rightarrow> fs" where
  "remove_tmp fails path fs = (if fails SysUnlink then fs else fs(tmp_path path := None))"

definition SaveStoreRaw :: "fails \<Rightarrow> nat \<Rightarrow> path \<Rightarrow> string \<Rightarrow> fs \<Rightarrow> string option \<times> fs" where
  "SaveStoreRaw fails uid path data fs =
     (case ensurePrivateDir fails uid (butlast path) fs of
        (Some e, fs1) \<Rightarrow> (Some e, fs1)
      | (None, fs1) \<Rightarrow>
          if fails SysCreate \<or> fs1 (tmp_path path) \<noteq> None \<or> \<not> is_dir fs1 (butlast path)
          then (Some ''create temp profile'', fs1)
          else
            let created = fs1(tmp_path path \<mapsto> NFile 384 uid []);
                written = fs1(tmp_path path \<mapsto> NFile 384 uid data) in
            if fails SysWrite then (Some ''write temp profile'', remove_tmp fails path created)
            else if fails SysSync then (Some ''sync temp profile'', remove_tmp fails path written)
            else if fails SysClose then (Some ''close temp profile'', remove_tmp fails path written)
            else if fails SysRename \<or> (case written path of Some (NDir _ _) \<Rightarrow> True | _ \<Rightarrow> False)
            then (Some ''rename profile into place'', remove_tmp fails path written)
            else (None, written(path := written (tmp_path path), tmp_path path := None)))"

definition SaveStore :: "(profile \<Rightarrow> string) \<Rightarrow> fails \<Rightarrow> nat \<Rightarrow> path \<Rightarrow> profile \<Rightarrow> fs \<Rightarrow> string option \<times> fs" where
  "SaveStore marshal fails uid path p fs =
     (case Validate p of
        Inl _ \<Rightarrow> (Some ''refusing to save invalid profile'', fs)
      | Inr _ \<Rightarrow> SaveStoreRaw fails uid path (marshal p @ [CHR 0x0A]) fs)"

definition removeStore :: "fails \<Rightarrow> path \<Rightarrow> fs \<Rightarrow> string option \<times> fs" where
  "removeStore fails path fs =
     (case fs path of
        None \<Rightarrow> (None, fs)
      | Some n \<Rightarrow> if fails SysUnlink \<or> (case n of NDir _ _ \<Rightarrow> True | _ \<Rightarrow> False) then (Some ''remove'', fs)
                  else (None, fs(path := None)))"

text \<open>\<^verbatim>\<open>LoadActive\<close>: the stored profile, or the fallback when there is none.\<close>

definition LoadActive :: "(string \<Rightarrow> profile option) \<Rightarrow> fails \<Rightarrow> fs \<Rightarrow> path \<Rightarrow> profile \<Rightarrow>
    string + profile \<times> endpoint" where
  "LoadActive unmarshal fails fs path fallback =
     (case LoadStore unmarshal fails fs path of
        Inl e \<Rightarrow> Inl e
      | Inr stored \<Rightarrow>
          let p0 = (case stored of None \<Rightarrow> fallback | Some p \<Rightarrow> p);
              p = (if pf_tls p0 = [] then p0\<lparr>pf_tls := TLSSystem\<rparr> else p0)
          in case Validate p of
               Inl e \<Rightarrow> Inl ((if stored = None then ''fallback profile invalid: ''
                              else ''persisted profile invalid: '') @ e)
             | Inr ep \<Rightarrow> Inr (p, ep))"

section \<open>Lemmas\<close>

lemma refuse_walk_iff:
  "list_all (\<lambda>c. c \<noteq> []) cs \<Longrightarrow> refuse_walk fs cur cs \<longleftrightarrow>
     (\<exists>k. 0 < k \<and> k \<le> length cs \<and> fs (cur @ take k cs) = Some NLink)"
proof (induction cs arbitrary: cur)
  case (Cons c cs)
  have "(\<exists>k. 0 < k \<and> k \<le> length (c # cs) \<and> fs (cur @ take k (c # cs)) = Some NLink) \<longleftrightarrow>
      fs (cur @ [c]) = Some NLink \<or>
      (\<exists>k. 0 < k \<and> k \<le> length cs \<and> fs ((cur @ [c]) @ take k cs) = Some NLink)" (is "?l \<longleftrightarrow> ?r")
  proof
    assume ?l
    then obtain k where k: "0 < k" "k \<le> Suc (length cs)" "fs (cur @ take k (c # cs)) = Some NLink"
      by auto
    then show ?r
      by (cases "k = 1") (auto simp: take_Cons' intro!: exI[of _ "k - 1"])
  next
    assume ?r
    then show ?l
    proof
      assume "fs (cur @ [c]) = Some NLink"
      then show ?l by (intro exI[of _ 1]) simp
    next
      assume "\<exists>k. 0 < k \<and> k \<le> length cs \<and> fs ((cur @ [c]) @ take k cs) = Some NLink"
      then obtain k where "0 < k" "k \<le> length cs" "fs ((cur @ [c]) @ take k cs) = Some NLink"
        by blast
      then show ?l by (intro exI[of _ "Suc k"]) simp
    qed
  qed
  then show ?case
    using Cons by (simp add: Let_def)
qed simp

lemma ensure_walk_frame:
  assumes "ensure_walk fails uid cur cs fs = (r, fs')"
  shows "fs' = fs \<or> (\<exists>k. 0 < k \<and> k \<le> length cs \<and> fs (cur @ take k (filter (\<lambda>c. c \<noteq> []) cs)) = None \<and>
    r = Inr True \<and> fs' = fs(cur @ take k (filter (\<lambda>c. c \<noteq> []) cs) \<mapsto> NDir 448 uid))"
  using assms
proof (induction cs arbitrary: cur)
  case (Cons c cs)
  show ?case
  proof (cases "c = []")
    case True
    then have "ensure_walk fails uid cur cs fs = (r, fs')"
      using Cons.prems by simp
    from Cons.IH[OF this] show ?thesis
      using True by (auto intro: le_SucI)
  next
    case False
    note step = Cons.prems[simplified, unfolded if_not_P[OF False] Let_def]
    have rec: ?thesis if "ensure_walk fails uid (cur @ [c]) cs fs = (r, fs')"
    proof -
      from Cons.IH[OF that] consider "fs' = fs"
        | k where "0 < k" "k \<le> length cs" "fs ((cur @ [c]) @ take k (filter (\<lambda>c. c \<noteq> []) cs)) = None"
          "r = Inr True" "fs' = fs((cur @ [c]) @ take k (filter (\<lambda>c. c \<noteq> []) cs) \<mapsto> NDir 448 uid)"
        by blast
      then show ?thesis
      proof cases
        case 1
        then show ?thesis by simp
      next
        case 2
        then show ?thesis
          using False by (intro disjI2 exI[of _ "Suc k"]) simp
      qed
    qed
    show ?thesis
      using step rec False
      by (auto split: if_splits option.splits node.splits intro!: exI[of _ 1])
  qed
qed simp

end
