(* ===== verification/StoreProps.thy ===== *)
theory StoreProps
  imports Store
begin

text \<open>Properties of the profile store: atomic writes, round trip, and what blocks a save.\<close>

section \<open>Frames\<close>

definition good_path :: "path \<Rightarrow> bool" where
  "good_path path \<longleftrightarrow> path \<noteq> [] \<and> list_all (\<lambda>c. c \<noteq> []) path \<and> last path \<noteq> TmpName"

lemma tmp_path_neq: "good_path path \<Longrightarrow> tmp_path path \<noteq> path"
  by (metis good_path_def tmp_path_def last_snoc)

lemma good_filter: "good_path path \<Longrightarrow> filter (\<lambda>c. c \<noteq> []) (drop n (butlast path)) = drop n (butlast path)"
  by (rule filter_True) (auto simp: good_path_def list_all_iff dest!: in_set_butlastD in_set_dropD)

text \<open>Preparing the directory changes nothing, or creates one missing directory on the way.\<close>

lemma ensure_frame:
  assumes "ensurePrivateDir fails uid dir fs = (r, fs')" "list_all (\<lambda>c. c \<noteq> []) dir"
  shows "fs' = fs \<or> (\<exists>k. 0 < k \<and> k \<le> length dir \<and> fs (take k dir) = None \<and> fs' = fs(take k dir \<mapsto> NDir 448 uid))"
proof -
  let ?n = "length (configRoot dir)"
  have root: "configRoot dir = take ?n dir" "?n \<le> length dir"
    by (simp_all add: configRoot_def butlast_conv_take)
  have filt: "filter (\<lambda>c. c \<noteq> []) (drop ?n dir) = drop ?n dir"
    by (rule filter_True) (use assms(2) in \<open>auto simp: list_all_iff dest: in_set_dropD\<close>)
  obtain w where walk: "ensure_walk fails uid (configRoot dir) (drop ?n dir) fs = (w, fs')"
    using assms(1)
    by (auto simp: ensurePrivateDir_def Let_def split: prod.splits sum.splits bool.splits if_splits
        option.splits node.splits)
  have tk: "configRoot dir @ take k (drop ?n dir) = take (?n + k) dir" for k
    by (subst (1) root(1)) (simp add: take_add)
  from ensure_walk_frame[OF walk, unfolded filt tk] show ?thesis
  proof
    assume "\<exists>k. 0 < k \<and> k \<le> length (drop ?n dir) \<and> fs (take (?n + k) dir) = None \<and> w = Inr True \<and>
        fs' = fs(take (?n + k) dir \<mapsto> NDir 448 uid)"
    then obtain k where k: "0 < k" "k \<le> length (drop ?n dir)" "fs (take (?n + k) dir) = None"
      "fs' = fs(take (?n + k) dir \<mapsto> NDir 448 uid)"
      by blast
    then have "?n + k \<le> length dir" using root(2) by simp
    with k show ?thesis by (intro disjI2 exI[of _ "?n + k"]) simp
  qed simp
qed

lemma ensure_frame_files:
  assumes "ensurePrivateDir fails uid (butlast path) fs = (r, fs')" "good_path path"
  shows "fs' path = fs path" "fs' (tmp_path path) = fs (tmp_path path)"
    "fs' q = fs q \<or> (fs q = None \<and> fs' q = Some (NDir 448 uid))"
proof -
  have l: "list_all (\<lambda>c. c \<noteq> []) (butlast path)"
    using assms(2) by (auto simp: good_path_def list_all_iff dest: in_set_butlastD)
  have len: "length (take k (butlast path)) < length path" "length (take k (butlast path)) < length (tmp_path path)" for k
    using assms(2) by (cases path rule: rev_cases; simp add: good_path_def tmp_path_def)+
  have "take k (butlast path) \<noteq> path" "take k (butlast path) \<noteq> tmp_path path" for k
    using len[of k] by (metis less_irrefl)+
  note neq = this this[symmetric]
  from ensure_frame[OF assms(1) l] consider "fs' = fs"
    | k where "fs (take k (butlast path)) = None" "fs' = fs(take k (butlast path) \<mapsto> NDir 448 uid)"
    by blast
  then have "fs' path = fs path \<and> fs' (tmp_path path) = fs (tmp_path path) \<and>
      (fs' q = fs q \<or> (fs q = None \<and> fs' q = Some (NDir 448 uid)))"
    by cases (simp_all add: neq)
  then show "fs' path = fs path" "fs' (tmp_path path) = fs (tmp_path path)"
    "fs' q = fs q \<or> (fs q = None \<and> fs' q = Some (NDir 448 uid))"
    by blast+
qed

lemma SaveStoreRaw_cases:
  assumes "SaveStoreRaw fails uid path data fs = (r, fs')" "good_path path"
  obtains (ok) fs1 where "r = None" "ensurePrivateDir fails uid (butlast path) fs = (None, fs1)"
      "fs1 (tmp_path path) = None" "fs' = fs1(path \<mapsto> NFile 384 uid data, tmp_path path := None)"
  | (failed) e where "r = Some e" "fs' path = fs path"
      "fs' (tmp_path path) = fs (tmp_path path) \<or> fs (tmp_path path) = None \<and> fails SysUnlink"
      "\<And>q. q \<noteq> tmp_path path \<Longrightarrow> fs' q = fs q \<or> (fs q = None \<and> fs' q = Some (NDir 448 uid))"
proof -
  obtain e fs1 where en: "ensurePrivateDir fails uid (butlast path) fs = (e, fs1)" by force
  note fr = ensure_frame_files[OF en assms(2)]
  note neq = tmp_path_neq[OF assms(2)]
  show ?thesis
  proof (cases e)
    case (Some m)
    then have "r = Some m" "fs' = fs1"
      using assms(1) en by (simp_all add: SaveStoreRaw_def)
    then show ?thesis
      by (intro failed[of m]) (simp_all add: fr(1,2), rule fr(3))
  next
    case None
    note run = assms(1)[unfolded SaveStoreRaw_def en None prod.case option.case Let_def]
    show ?thesis
    proof (cases "fails SysCreate \<or> fs1 (tmp_path path) \<noteq> None \<or> \<not> is_dir fs1 (butlast path)")
      case True
      then have "r = Some ''create temp profile''" "fs' = fs1"
        using run by simp_all
      then show ?thesis
        by (intro failed) (simp_all add: fr(1,2), rule fr(3))
    next
      case False
      then have tmp: "fs1 (tmp_path path) = None" by blast
      note run' = run[unfolded if_not_P[OF False]]
      show ?thesis
      proof (cases r)
        case None
        then have "fs' = fs1(path \<mapsto> NFile 384 uid data, tmp_path path := None)"
          using run' neq by (auto split: if_splits)
        then show ?thesis
          using None en \<open>e = None\<close> tmp by (intro ok) simp_all
      next
        case (Some m)
        then have "fs' = remove_tmp fails path (fs1(tmp_path path \<mapsto> NFile 384 uid [])) \<or>
            fs' = remove_tmp fails path (fs1(tmp_path path \<mapsto> NFile 384 uid data))"
          using run' by (auto split: if_splits)
        then have "fs' q = fs1 q" if "q \<noteq> tmp_path path" for q
          using that by (auto simp: remove_tmp_def)
        moreover have "fs' (tmp_path path) = None \<or> fails SysUnlink"
          using \<open>fs' = _ \<or> fs' = _\<close> by (auto simp: remove_tmp_def)
        ultimately show ?thesis
          using Some neq fr tmp by (intro failed[of m]) auto
      qed
    qed
  qed
qed

lemma refuse_frame:
  assumes "\<And>q. length q \<le> length dir \<Longrightarrow> fs' q = Some NLink \<Longrightarrow> fs q = Some NLink"
    "list_all (\<lambda>c. c \<noteq> []) dir" "\<not> refuseSymlinkedDir fs dir"
  shows "\<not> refuseSymlinkedDir fs' dir"
proof
  assume "refuseSymlinkedDir fs' dir"
  then obtain k where "0 < k" "k \<le> length dir" "fs' (take k dir) = Some NLink"
    using assms(2) by (auto simp: refuseSymlinkedDir_def refuse_walk_iff)
  then have "fs (take k dir) = Some NLink"
    by (intro assms(1)) simp_all
  then show False
    using assms(2,3) \<open>0 < k\<close> \<open>k \<le> length dir\<close> by (auto simp: refuseSymlinkedDir_def refuse_walk_iff)
qed

section \<open>Saving twice\<close>

text \<open>A file system in which every node has a directory above it; the root, if it is given, is one.\<close>

definition fs_tree :: "fs \<Rightarrow> bool" where
  "fs_tree fs \<longleftrightarrow> (\<forall>q. fs q \<noteq> None \<longrightarrow> is_dir fs (butlast q)) \<and>
     (fs [] \<noteq> None \<longrightarrow> (\<exists>m u. fs [] = Some (NDir m u)))"

definition dirs_to :: "fs \<Rightarrow> path \<Rightarrow> bool" where
  "dirs_to fs dir \<longleftrightarrow> (fs [] \<noteq> None \<longrightarrow> (\<exists>m u. fs [] = Some (NDir m u))) \<and>
     (\<forall>k. 0 < k \<longrightarrow> k \<le> length dir \<longrightarrow> (\<exists>m u. fs (take k dir) = Some (NDir m u)))"

lemma tree_dirs:
  assumes "fs_tree fs" "fs path \<noteq> None"
  shows "dirs_to fs (butlast path)"
proof -
  have "\<exists>m u. fs (take k path) = Some (NDir m u)" if "0 < k" "k < length path" for k
    using that
  proof (induction "length path - k" arbitrary: k rule: less_induct)
    case less
    have "fs (take (Suc k) path) \<noteq> None"
    proof (cases "Suc k < length path")
      case True
      then have "length path - Suc k < length path - k" by linarith
      from less.hyps[OF this] True show ?thesis by auto
    next
      case False
      then show ?thesis using less.prems assms(2) by simp
    qed
    then have "is_dir fs (butlast (take (Suc k) path))"
      using assms(1) unfolding fs_tree_def by blast
    moreover have "butlast (take (Suc k) path) = take k path"
      using less.prems by (simp add: butlast_take)
    ultimately show ?case
      using less.prems by (auto simp: is_dir_def split: option.splits node.splits)
  qed
  then show ?thesis
    using assms(1) by (auto simp: dirs_to_def fs_tree_def butlast_conv_take min_def)
qed

lemma walk_dirs:
  assumes "\<And>k. 0 < k \<Longrightarrow> k \<le> length cs \<Longrightarrow> \<exists>m u. fs (cur @ take k cs) = Some (NDir m u)"
    "list_all (\<lambda>c. c \<noteq> []) cs"
  shows "ensure_walk fails uid cur cs fs = (if cs \<noteq> [] \<and> fails SysLstat then Inl ''inspect'' else Inr False, fs)"
  using assms
proof (induction cs arbitrary: cur)
  case (Cons c cs)
  obtain m u where n: "fs (cur @ [c]) = Some (NDir m u)"
    using Cons.prems(1)[of 1] by auto
  have "\<exists>m u. fs ((cur @ [c]) @ take k cs) = Some (NDir m u)" if "0 < k" "k \<le> length cs" for k
    using Cons.prems(1)[of "Suc k"] that by simp
  from Cons.IH[OF this] show ?case
    using Cons.prems(2) n by simp
qed simp

lemma ensure_dirs:
  assumes "dirs_to fs dir" "list_all (\<lambda>c. c \<noteq> []) dir"
  shows "ensurePrivateDir fails uid dir fs = (None, fs1) \<Longrightarrow> fs1 = fs \<and> fs dir = Some (NDir 448 uid)"
    "fs dir = Some (NDir 448 uid) \<Longrightarrow> ensurePrivateDir (\<lambda>_. False) uid dir fs = (None, fs)"
proof -
  let ?n = "length (configRoot dir)"
  have root: "configRoot dir = take ?n dir" "?n \<le> length dir"
    by (simp_all add: configRoot_def butlast_conv_take)
  have tk: "configRoot dir @ take k (drop ?n dir) = take (?n + k) dir" for k
    by (subst (1) root(1)) (simp add: take_add)
  have na: "list_all (\<lambda>c. c \<noteq> []) (drop ?n dir)"
    using assms(2) by (auto simp: list_all_iff dest: in_set_dropD)
  have w: "ensure_walk f uid (configRoot dir) (drop ?n dir) fs =
      (if drop ?n dir \<noteq> [] \<and> f SysLstat then Inl ''inspect'' else Inr False, fs)" for f
  proof (rule walk_dirs[OF _ na])
    fix k
    assume "0 < k" "k \<le> length (drop ?n dir)"
    then show "\<exists>m u. fs (configRoot dir @ take k (drop ?n dir)) = Some (NDir m u)"
      using assms(1) root(2) unfolding dirs_to_def tk by simp
  qed
  have nd: "fs dir = Some n \<Longrightarrow> \<exists>m u. n = NDir m u" for n
    using assms(1) unfolding dirs_to_def by (cases "dir = []") (auto dest: spec[of _ "length dir"])
  show "ensurePrivateDir fails uid dir fs = (None, fs1) \<Longrightarrow> fs1 = fs \<and> fs dir = Some (NDir 448 uid)"
    by (auto simp: ensurePrivateDir_def Let_def w node_perm_def dest!: nd split: if_splits option.splits)
  show "fs dir = Some (NDir 448 uid) \<Longrightarrow> ensurePrivateDir (\<lambda>_. False) uid dir fs = (None, fs)"
    by (simp add: ensurePrivateDir_def Let_def w node_perm_def)
qed

text \<open>After a save over an existing file, another save succeeds.\<close>

lemma save_again:
  assumes "SaveStoreRaw fails uid path data fs = (None, fs1)" "good_path path" "fs_tree fs" "fs path \<noteq> None"
  shows "SaveStoreRaw (\<lambda>_. False) uid path data' fs1 =
    (None, fs1(path \<mapsto> NFile 384 uid data', tmp_path path := None))"
proof -
  have l: "list_all (\<lambda>c. c \<noteq> []) (butlast path)"
    using assms(2) by (auto simp: good_path_def list_all_iff dest: in_set_butlastD)
  obtain e where en: "ensurePrivateDir fails uid (butlast path) fs = (None, e)"
    "fs1 = e(path \<mapsto> NFile 384 uid data, tmp_path path := None)"
    using assms(1,2) by (cases rule: SaveStoreRaw_cases) auto
  have dt: "dirs_to fs (butlast path)" by (rule tree_dirs[OF assms(3,4)])
  note d = ensure_dirs(1)[OF dt l en(1)]
  have "length (take k (butlast path)) < length path" "length (take k (butlast path)) < length (tmp_path path)" for k
    using assms(2) by (cases path rule: rev_cases; simp add: good_path_def tmp_path_def)+
  then have same: "fs1 (take k (butlast path)) = fs (take k (butlast path))" for k
    using d by (metis en(2) fun_upd_other less_irrefl)
  have dir1: "fs1 (butlast path) = Some (NDir 448 uid)"
    using same[of "length (butlast path)"] d by simp
  have "dirs_to fs1 (butlast path)"
    using dt same[of 0, simplified] unfolding dirs_to_def same by simp
  note e2 = ensure_dirs(2)[OF this l dir1]
  have "fs1 (tmp_path path) = None" "fs1 path = Some (NFile 384 uid data)"
    using tmp_path_neq[OF assms(2)] by (simp_all add: en(2))
  then show ?thesis
    using e2 dir1 tmp_path_neq[OF assms(2)] by (simp add: SaveStoreRaw_def is_dir_def)
qed

section \<open>Properties\<close>

lemma save_is_atomic_raw:
  assumes "good_path path" "SaveStoreRaw fails uid path data fs = (r, fs')"
  shows "fs' path = (if r = None then Some (NFile 384 uid data) else fs path) \<and>
    (\<forall>q. q \<noteq> path \<and> q \<noteq> tmp_path path \<longrightarrow> fs' q = fs q \<or> fs q = None \<and> fs' q = Some (NDir 448 uid)) \<and>
    (fs' (tmp_path path) = fs (tmp_path path) \<or> fails SysUnlink)"
  using assms(2,1)
proof (cases rule: SaveStoreRaw_cases)
  case (ok fs1)
  note fr = ensure_frame_files[OF ok(2) assms(1)]
  have "fs' q = fs1 q" if "q \<noteq> path" "q \<noteq> tmp_path path" for q
    using that by (simp add: ok(4))
  moreover have "fs' path = Some (NFile 384 uid data)"
    using tmp_path_neq[OF assms(1)] by (simp add: ok(4))
  moreover have "fs' (tmp_path path) = fs (tmp_path path)"
    using fr(2) ok(3) by (simp add: ok(4))
  ultimately show ?thesis
    using fr(3) ok(1) by simp
next
  case (failed e)
  then show ?thesis by auto
qed

text \<open>
  C21. A save is atomic: after it, whatever system call failed, the profile file is either
  exactly what it was (and the save reports an error) or exactly the new bytes with mode 0600;
  no other file is touched except the temporary one, which is gone again unless its own removal
  failed, and at most directories are created.
\<close>

theorem save_is_atomic:
  assumes "good_path path" "SaveStoreRaw fails uid path data fs = (r, fs')"
  shows "fs' path = (if r = None then Some (NFile 384 uid data) else fs path) \<and>
    (\<forall>q. q \<noteq> path \<and> q \<noteq> tmp_path path \<longrightarrow> fs' q = fs q \<or> fs q = None \<and> fs' q = Some (NDir 448 uid)) \<and>
    (fs' (tmp_path path) = fs (tmp_path path) \<or> fails SysUnlink)"
  using save_is_atomic_raw[OF assms] .

text \<open>
  What was saved is loaded again: after a successful save of a valid profile, \<^verbatim>\<open>LoadStore\<close>
  returns that profile, provided no directory on the way is a symbolic link, the encoding fits
  the size bound and decodes to the profile, and reading does not fail.
\<close>

theorem save_then_load:
  assumes "good_path path" "SaveStore marshal fails uid path p fs = (None, fs')"
    and "\<not> refuseSymlinkedDir fs (butlast path)"
    and "unmarshal (marshal p @ [CHR 0x0A]) = Some p" "length (marshal p) < MaxProfileBytes"
    and "\<not> fails' SysOpenRead" "\<not> fails' SysStat" "\<not> fails' SysRead"
  shows "LoadStore unmarshal fails' fs' path = Inr (Some p)"
proof -
  let ?data = "marshal p @ [CHR 0x0A]"
  obtain ep where ep: "Validate p = Inr ep" "SaveStoreRaw fails uid path ?data fs = (None, fs')"
    using assms(2) by (auto simp: SaveStore_def split: sum.splits)
  obtain fs1 where s: "ensurePrivateDir fails uid (butlast path) fs = (None, fs1)"
    "fs' = fs1(path \<mapsto> NFile 384 uid ?data, tmp_path path := None)"
    using ep(2) assms(1) by (cases rule: SaveStoreRaw_cases) auto
  note fr = ensure_frame_files[OF s(1) assms(1)]
  have saved: "fs' path = Some (NFile 384 uid ?data)"
    using tmp_path_neq[OF assms(1)] by (simp add: s(2))
  have "\<not> refuseSymlinkedDir fs' (butlast path)"
  proof (rule refuse_frame[OF _ _ assms(3)])
    show "list_all (\<lambda>c. c \<noteq> []) (butlast path)"
      using assms(1) by (auto simp: good_path_def list_all_iff dest: in_set_butlastD)
    fix q
    assume "fs' q = Some NLink"
    then have "fs1 q = Some NLink"
      by (auto simp: s(2) split: if_splits)
    then show "fs q = Some NLink"
      using fr(3)[of q] by auto
  qed
  then have "openProfileForRead fails' fs' path = Inr (Some ?data)"
    using saved assms(5-8) by (simp add: openProfileForRead_def node_perm_def private_mode_def)
  then show ?thesis
    using ep(1) assms(4) by (simp add: LoadStore_def)
qed

text \<open>
  A temporary file left behind (by a crash, or by a removal that failed) makes every later
  save fail, and no save ever removes it.
\<close>

theorem stale_temp_blocks_saves:
  assumes "good_path path" "fs (tmp_path path) = Some n"
    "SaveStoreRaw fails uid path data fs = (r, fs')"
  shows "r \<noteq> None \<and> fs' (tmp_path path) = Some n \<and> fs' path = fs path"
  using assms(3,1)
proof (cases rule: SaveStoreRaw_cases)
  case (ok fs1)
  then show ?thesis
    using ensure_frame_files(2)[OF ok(2) assms(1)] assms(2) by simp
next
  case (failed e)
  then show ?thesis
    using assms(2) by auto
qed

definition home_fs :: fs where
  "home_fs = (\<lambda>_. None)([''home'', ''u''] \<mapsto> NDir 448 1000, [''home''] \<mapsto> NDir 493 0)"

definition home_path :: path where
  "home_path = [''home'', ''u'', ''.config'', ''omatorrent'', ''connection.json'']"

text \<open>
  Where the configuration directory itself is missing, the first save creates it and fails,
  because the walk ends after the first directory it creates; the second save succeeds.
\<close>

theorem first_save_without_config_dir:
  "\<exists>fs1 fs2. SaveStoreRaw (\<lambda>_. False) 1000 home_path ''{}'' home_fs = (Some ''create temp profile'', fs1) \<and>
     fs1 [''home'', ''u'', ''.config''] = Some (NDir 448 1000) \<and>
     SaveStoreRaw (\<lambda>_. False) 1000 home_path ''{}'' fs1 = (None, fs2) \<and>
     fs2 home_path = Some (NFile 384 1000 ''{}'')"
  by (simp add: SaveStoreRaw_def ensurePrivateDir_def configRoot_def home_path_def home_fs_def
      tmp_path_def TmpName_def is_dir_def node_perm_def)

section \<open>Witnesses\<close>

definition full_fs :: fs where
  "full_fs = home_fs([''home'', ''u'', ''.config''] \<mapsto> NDir 448 1000,
     [''home'', ''u'', ''.config'', ''omatorrent''] \<mapsto> NDir 448 1000)"

lemma home_good: "good_path home_path"
  by (simp add: good_path_def home_path_def TmpName_def)

lemma full_save: "SaveStoreRaw (\<lambda>_. False) 1000 home_path data full_fs =
    (None, full_fs(home_path \<mapsto> NFile 384 1000 data, tmp_path home_path := None))"
  by (simp add: SaveStoreRaw_def ensurePrivateDir_def configRoot_def home_path_def home_fs_def
      full_fs_def tmp_path_def TmpName_def is_dir_def node_perm_def)

theorem save_is_atomic_witness:
  "(full_fs(home_path \<mapsto> NFile 384 1000 ''x'', tmp_path home_path := None)) home_path =
     Some (NFile 384 1000 ''x'')"
  using save_is_atomic[OF home_good full_save] by simp

definition toy_marshal :: "profile \<Rightarrow> string" where
  "toy_marshal p = pf_url p"

definition toy_unmarshal :: "string \<Rightarrow> profile option" where
  "toy_unmarshal s = Some (DefaultProfile\<lparr>pf_url := butlast s\<rparr>)"

theorem save_then_load_witness:
  "\<exists>fs'. LoadStore toy_unmarshal (\<lambda>_. False) fs' home_path = Inr (Some DefaultProfile)"
proof -
  have save: "SaveStore toy_marshal (\<lambda>_. False) 1000 home_path DefaultProfile full_fs =
      (None, full_fs(home_path \<mapsto> NFile 384 1000 (toy_marshal DefaultProfile @ [CHR 0x0A]),
        tmp_path home_path := None))"
    by (simp add: SaveStore_def full_save default_endpoint)
  have "\<not> refuseSymlinkedDir full_fs (butlast home_path)"
    by (simp add: refuseSymlinkedDir_def home_path_def full_fs_def home_fs_def)
  moreover have "toy_unmarshal (toy_marshal DefaultProfile @ [CHR 0x0A]) = Some DefaultProfile"
    "length (toy_marshal DefaultProfile) < MaxProfileBytes"
    by (simp_all add: toy_unmarshal_def toy_marshal_def DefaultProfile_def MaxProfileBytes_def)
  ultimately show ?thesis
    using save_then_load[OF home_good save, of toy_unmarshal "\<lambda>_. False"] by blast
qed

theorem stale_temp_blocks_saves_witness:
  "fst (SaveStoreRaw (\<lambda>_. False) 1000 home_path ''x'' (full_fs(tmp_path home_path \<mapsto> NFile 384 1000 []))) \<noteq> None"
proof -
  let ?fs = "full_fs(tmp_path home_path \<mapsto> NFile 384 1000 [])"
  have "?fs (tmp_path home_path) = Some (NFile 384 1000 [])" by simp
  from stale_temp_blocks_saves[of home_path ?fs _ "\<lambda>_. False" 1000 "''x''", OF home_good this]
  show ?thesis by (metis prod.collapse)
qed

end
