(* ===== verification/Client.thy ===== *)
theory Client
  imports Adapter GoNet Prelude
begin

text \<open>
  The qBittorrent HTTP client (internal/qbittorrent/client.go): its construction with the TLS
  policy, the login protocol, authenticated requests with one re-login, and the mapping of
  statuses and transport failures to the error classes of Adapter.

  The network and the secret source are effects on a world \<open>'w\<close>: \<open>send\<close> performs one HTTP request
  (\<^verbatim>\<open>http.Client.Do\<close> with the client's TLS policy and cookie jar), \<open>cl_fetch\<close> obtains the
  password. Certificates are opaque byte strings: \<open>has_certs\<close> says whether a PEM bundle holds a
  certificate, \<open>sha\<close> is the SHA-256 of a certificate (32 bytes).
\<close>

section \<open>TLS policy\<close>

record tls_options =
  to_mode :: string
  to_ca :: string
  to_pin :: string
  to_pem :: string

datatype tls_policy = SystemRoots | CARoots string | PinRoots string "nat list"

text \<open>\<^verbatim>\<open>encoding/hex.DecodeString\<close>, which admits upper-case digits.\<close>

fun hex_decode :: "string \<Rightarrow> nat list option" where
  "hex_decode [] = Some []"
| "hex_decode [a] = None"
| "hex_decode (a # b # s) =
     (if is_hex a \<and> is_hex b
      then map_option (Cons (hex_value a * 16 + hex_value b)) (hex_decode s) else None)"

definition DecodeFingerprint :: "string \<Rightarrow> nat list option" where
  "DecodeFingerprint s = (if length s \<noteq> 64 then None else hex_decode s)"

definition Fingerprint :: "(string \<Rightarrow> nat list) \<Rightarrow> string \<Rightarrow> string" where
  "Fingerprint sha der = hex_of_bytes (sha der)"

definition BuildTLSConfig :: "(string \<Rightarrow> bool) \<Rightarrow> tls_options \<Rightarrow> tls_policy option" where
  "BuildTLSConfig has_certs o' =
     (if to_mode o' = [] \<or> to_mode o' = ''system'' then Some SystemRoots
      else if to_mode o' = ''ca'' then
        (if to_ca o' = [] then None else if \<not> has_certs (to_ca o') then None
         else Some (CARoots (to_ca o')))
      else if to_mode o' = ''pin'' then
        (case DecodeFingerprint (to_pin o') of
           None \<Rightarrow> None
         | Some pin \<Rightarrow> if to_pem o' = [] then None
             else if \<not> has_certs (to_pem o') then None
             else Some (PinRoots (to_pem o') pin))
      else None)"

text \<open>The \<^verbatim>\<open>VerifyPeerCertificate\<close> hook of the pin mode, on the certificates the server presented.\<close>

definition verify_pin :: "(string \<Rightarrow> nat list) \<Rightarrow> nat list \<Rightarrow> string list \<Rightarrow> tls_error option" where
  "verify_pin sha pin certs =
     (case certs of
        [] \<Rightarrow> Some \<lparr>te_class = ErrTLSUntrusted, te_offered = [], te_der = []\<rparr>
      | c # _ \<Rightarrow> if sha c \<noteq> pin
                 then Some \<lparr>te_class = ErrTLSUntrusted, te_offered = hex_of_bytes (sha c), te_der = c\<rparr>
                 else None)"

section \<open>Construction\<close>

record http_request =
  hq_method :: string
  hq_url :: string
  hq_form :: "(string \<times> string) list"

record http_response =
  hr_status :: nat
  hr_body :: string
  hr_broken :: bool

text \<open>A failed exchange: our own pin error, a certificate verification failure (why, and the
  unverified certificates), or anything else with its message and its kind.\<close>

datatype cert_failure = HostnameFailure | UnknownAuthority | OtherFailure

record net_failure =
  nf_msg :: string
  nf_timeout :: bool
  nf_canceled :: bool
  nf_dial :: bool

datatype transport_failure =
    OwnTLS tls_error
  | CertVerification cert_failure "string list"
  | NetFailure net_failure

type_synonym 'w secret_fetcher = "'w \<Rightarrow> (string + string) \<times> 'w"

record 'w client_config =
  cc_url :: string
  cc_user :: string
  cc_fetch :: "'w secret_fetcher option"
  cc_tls :: tls_options

record 'w client =
  cl_base :: string
  cl_user :: string
  cl_tls :: tls_policy
  cl_fetch :: "'w secret_fetcher option"

text \<open>\<^verbatim>\<open>strings.TrimRight(s, "/")\<close>, and \<^verbatim>\<open>URL.String\<close> for a URL with an authority.\<close>

definition trim_right :: "char \<Rightarrow> string \<Rightarrow> string" where
  "trim_right c s = rev (dropWhile (\<lambda>x. x = c) (rev s))"

definition url_String :: "purl \<Rightarrow> string" where
  "url_String u = pu_scheme u @ ''://'' @ url_escape EncHost (pu_host u) @ EscapedPath u
     @ (if pu_rawquery u = [] then [] else CHR ''?'' # pu_rawquery u)
     @ (if pu_fragment u = [] then [] else CHR ''#'' # pu_fragment u)"

definition NewConfigurable :: "(string \<Rightarrow> bool) \<Rightarrow> 'w client_config \<Rightarrow> 'w client option" where
  "NewConfigurable has_certs cfg =
     (case url_Parse (trim_right (CHR ''/'') (cc_url cfg)) of
        None \<Rightarrow> None
      | Some u \<Rightarrow>
          if pu_scheme u = [] \<or> pu_host u = [] then None
          else if pu_user u then None
          else if pu_scheme u \<noteq> ''http'' \<and> pu_scheme u \<noteq> ''https'' then None
          else case BuildTLSConfig has_certs (cc_tls cfg) of
            None \<Rightarrow> None
          | Some tls \<Rightarrow>
              if cc_fetch cfg = None \<and> cc_user cfg \<noteq> [] then None
              else Some \<lparr>cl_base = url_String u, cl_user = cc_user cfg, cl_tls = tls,
                         cl_fetch = cc_fetch cfg\<rparr>)"

definition staticSecret :: "string \<Rightarrow> 'w secret_fetcher" where
  "staticSecret pw w = (if pw = [] then (Inl ''no static password configured'', w) else (Inr pw, w))"

definition New :: "(string \<Rightarrow> bool) \<Rightarrow> string \<Rightarrow> string \<Rightarrow> string \<Rightarrow> 'w client option" where
  "New has_certs base user pw = NewConfigurable has_certs
     \<lparr>cc_url = base, cc_user = user, cc_fetch = Some (staticSecret pw),
      cc_tls = \<lparr>to_mode = [], to_ca = [], to_pin = [], to_pem = []\<rparr>\<rparr>"

section \<open>Transport errors\<close>

text \<open>\<^verbatim>\<open>strings.Contains\<close>\<close>

definition contains :: "string \<Rightarrow> string \<Rightarrow> bool" where
  "contains s sub \<longleftrightarrow> (\<exists>i \<in> set [0..<Suc (length s)]. take (length sub) (drop i s) = sub)"

definition classifyTLS :: "(string \<Rightarrow> nat list) \<Rightarrow> transport_failure \<Rightarrow> tls_error option" where
  "classifyTLS sha f =
     (case f of
        CertVerification why certs \<Rightarrow>
          let offered = (case certs of [] \<Rightarrow> [] | c # _ \<Rightarrow> Fingerprint sha c);
              der = (case certs of [] \<Rightarrow> [] | c # _ \<Rightarrow> c)
          in (case why of
                HostnameFailure \<Rightarrow> Some \<lparr>te_class = ErrTLSHostname, te_offered = offered, te_der = der\<rparr>
              | UnknownAuthority \<Rightarrow> Some \<lparr>te_class = ErrTLSUntrusted, te_offered = offered, te_der = der\<rparr>
              | OtherFailure \<Rightarrow> Some \<lparr>te_class = ErrTLSUntrusted, te_offered = offered, te_der = der\<rparr>)
      | _ \<Rightarrow> None)"

definition timeoutClass :: "net_failure \<Rightarrow> string" where
  "timeoutClass f =
     (if nf_timeout f then ''timeout'' else if nf_canceled f then ''canceled''
      else if nf_dial f then ''connection refused or unreachable'' else ''connection failed'')"

definition transportErr :: "(string \<Rightarrow> nat list) \<Rightarrow> transport_failure \<Rightarrow> err" where
  "transportErr sha f =
     (case f of
        OwnTLS t \<Rightarrow> TLSError t
      | CertVerification _ _ \<Rightarrow>
          (case classifyTLS sha f of Some t \<Rightarrow> TLSError t | None \<Rightarrow> Wrapped ErrUnreachable)
      | NetFailure n \<Rightarrow>
          if contains (nf_msg n) ''malformed HTTP response'' \<or>
             contains (nf_msg n) ''server gave HTTP response to HTTPS client''
          then Wrapped ErrUnexpectedState else Wrapped ErrUnreachable)"

section \<open>Requests\<close>

text \<open>
  The environment of a client: how a request is sent, and the digest of a certificate.
\<close>

record 'w net =
  n_send :: "tls_policy \<Rightarrow> http_request \<Rightarrow> 'w \<Rightarrow> (transport_failure + http_response) \<times> 'w"
  n_sha :: "string \<Rightarrow> nat list"

definition login_url :: "'w client \<Rightarrow> string" where
  "login_url c = cl_base c @ ''/api/v2/auth/login''"

definition login_result :: "(string \<Rightarrow> nat list) \<Rightarrow> transport_failure + http_response \<Rightarrow> err option" where
  "login_result sha r =
     (case r of
        Inl f \<Rightarrow> Some (transportErr sha f)
      | Inr resp \<Rightarrow>
          if hr_broken resp then Some (Wrapped ErrUnexpectedState)
          else if hr_status resp = 403 then Some (Wrapped ErrBanned)
          else if hr_status resp = 401 then Some (Wrapped ErrBadCredentials)
          else if hr_status resp \<noteq> 200 \<and> hr_status resp \<noteq> 204 then Some (Wrapped ErrUnexpectedState)
          else if hr_status resp = 204 then None
          else let body = take 65536 (hr_body resp) in
               if body = ''Ok.'' then None
               else if body = ''Fails.'' then Some (Wrapped ErrBadCredentials)
               else Some (Wrapped ErrUnexpectedState))"

text \<open>The password of one attempt: \<^verbatim>\<open>c.password\<close> is empty in every client that is built.\<close>

definition login_password :: "'w client \<Rightarrow> 'w \<Rightarrow> (err + string) \<times> 'w" where
  "login_password c w =
     (case cl_fetch c of
        None \<Rightarrow> (Inr [], w)
      | Some f \<Rightarrow>
          (case f w of
             (Inl _, w1) \<Rightarrow> (Inl (Wrapped ErrCredentialsUnavailable), w1)
           | (Inr pw, w1) \<Rightarrow> if pw = [] then (Inl (Wrapped ErrCredentialsUnavailable), w1)
                             else (Inr pw, w1)))"

definition Login :: "'w net \<Rightarrow> 'w client \<Rightarrow> 'w \<Rightarrow> err option \<times> 'w" where
  "Login net c w =
     (if cl_user c = [] then (None, w)
      else case login_password c w of
        (Inl e, w1) \<Rightarrow> (Some e, w1)
      | (Inr pw, w1) \<Rightarrow>
          let (r, w2) = n_send net (cl_tls c) \<lparr>hq_method = ''POST'', hq_url = login_url c,
                hq_form = [(''username'', cl_user c), (''password'', pw)]\<rparr> w1
          in (login_result (n_sha net) r, w2))"

definition Logout :: "'w net \<Rightarrow> 'w client \<Rightarrow> 'w \<Rightarrow> err option \<times> 'w" where
  "Logout net c w =
     (let (r, w1) = n_send net (cl_tls c) \<lparr>hq_method = ''POST'',
            hq_url = cl_base c @ ''/api/v2/auth/logout'', hq_form = []\<rparr> w
      in case r of
           Inl f \<Rightarrow> (Some (transportErr (n_sha net) f), w1)
         | Inr resp \<Rightarrow> (if hr_status resp \<in> {200, 204, 401, 403} then None
                        else Some (Wrapped ErrUnexpectedState), w1))"

definition fetch_result :: "(string \<Rightarrow> nat list) \<Rightarrow> transport_failure + http_response \<Rightarrow> err + string" where
  "fetch_result sha r =
     (case r of
        Inl f \<Rightarrow> Inl (transportErr sha f)
      | Inr resp \<Rightarrow>
          if hr_status resp \<noteq> 200 then
            (if hr_status resp = 403 then Inl (Wrapped ErrUnauthorized)
             else Inl (Wrapped ErrUnexpectedState))
          else if hr_broken resp then Inl (Wrapped ErrUnexpectedState)
          else Inr (take 67108864 (hr_body resp)))"

definition doFetch :: "'w net \<Rightarrow> 'w client \<Rightarrow> string \<Rightarrow> 'w \<Rightarrow> (err + string) \<times> 'w" where
  "doFetch net c p w =
     (let (r, w1) = n_send net (cl_tls c) \<lparr>hq_method = ''GET'', hq_url = cl_base c @ p, hq_form = []\<rparr> w
      in (fetch_result (n_sha net) r, w1))"

definition post_result :: "(string \<Rightarrow> nat list) \<Rightarrow> transport_failure + http_response \<Rightarrow> err + string" where
  "post_result sha r =
     (case r of
        Inl f \<Rightarrow> Inl (transportErr sha f)
      | Inr resp \<Rightarrow>
          if hr_status resp \<noteq> 200 \<and> hr_status resp \<noteq> 202 then
            (if hr_status resp = 403 then Inl (Wrapped ErrUnauthorized)
             else if hr_status resp = 409 then Inl (Wrapped ErrConflict)
             else Inl (Wrapped ErrUnexpectedState))
          else if hr_broken resp then Inl (Wrapped ErrUnexpectedState)
          else Inr (take 262144 (hr_body resp)))"

definition doPostForm :: "'w net \<Rightarrow> 'w client \<Rightarrow> string \<Rightarrow> (string \<times> string) list \<Rightarrow> 'w \<Rightarrow> (err + string) \<times> 'w" where
  "doPostForm net c p form w =
     (let (r, w1) = n_send net (cl_tls c) \<lparr>hq_method = ''POST'', hq_url = cl_base c @ p, hq_form = form\<rparr> w
      in (post_result (n_sha net) r, w1))"

text \<open>One re-login and one retry after a 403 with configured credentials.\<close>

definition with_relogin :: "'w net \<Rightarrow> 'w client \<Rightarrow> ('w \<Rightarrow> (err + string) \<times> 'w) \<Rightarrow> 'w \<Rightarrow> (err + string) \<times> 'w" where
  "with_relogin net c act w =
     (case act w of
        (Inl e, w1) \<Rightarrow>
          if errors_Is e ErrUnauthorized \<and> cl_user c \<noteq> [] then
            (case Login net c w1 of
               (Some le, w2) \<Rightarrow> (Inl le, w2)
             | (None, w2) \<Rightarrow> act w2)
          else (Inl e, w1)
      | (Inr b, w1) \<Rightarrow> (Inr b, w1))"

definition fetch :: "'w net \<Rightarrow> 'w client \<Rightarrow> string \<Rightarrow> 'w \<Rightarrow> (err + string) \<times> 'w" where
  "fetch net c p w = with_relogin net c (doFetch net c p) w"

definition postFormBody :: "'w net \<Rightarrow> 'w client \<Rightarrow> string \<Rightarrow> (string \<times> string) list \<Rightarrow> 'w \<Rightarrow> (err + string) \<times> 'w" where
  "postFormBody net c p form w = with_relogin net c (doPostForm net c p form) w"

definition postForm :: "'w net \<Rightarrow> 'w client \<Rightarrow> string \<Rightarrow> (string \<times> string) list \<Rightarrow> 'w \<Rightarrow> err option \<times> 'w" where
  "postForm net c p form w =
     (case postFormBody net c p form w of (Inl e, w1) \<Rightarrow> (Some e, w1) | (Inr _, w1) \<Rightarrow> (None, w1))"

section \<open>Endpoints\<close>

definition getText :: "'w net \<Rightarrow> 'w client \<Rightarrow> string \<Rightarrow> 'w \<Rightarrow> (err + string) \<times> 'w" where
  "getText net c p w =
     (case fetch net c p w of
        (Inl e, w1) \<Rightarrow> (Inl e, w1)
      | (Inr body, w1) \<Rightarrow>
          let v = trim_space body; r = runes v
          in (Inr (if length r > 64 then of_runes (take 64 r) else v), w1))"

definition AppVersion :: "'w net \<Rightarrow> 'w client \<Rightarrow> 'w \<Rightarrow> (err + string) \<times> 'w" where
  "AppVersion net c = getText net c ''/api/v2/app/version''"

definition WebAPIVersion :: "'w net \<Rightarrow> 'w client \<Rightarrow> 'w \<Rightarrow> (err + string) \<times> 'w" where
  "WebAPIVersion net c = getText net c ''/api/v2/app/webapiVersion''"

text \<open>\<^verbatim>\<open>SyncMaindata\<close>; \<open>dec\<close> is \<^verbatim>\<open>json.Unmarshal\<close> into \<^verbatim>\<open>Maindata\<close>.\<close>

definition SyncMaindata :: "(string \<Rightarrow> 'raw maindata option) \<Rightarrow> 'w net \<Rightarrow> 'w client \<Rightarrow> int \<Rightarrow> 'w \<Rightarrow>
    (err + 'raw maindata) \<times> 'w" where
  "SyncMaindata dec net c rid w =
     (let rid' = (if rid < 0 then 0 else rid) in
      case fetch net c (''/api/v2/sync/maindata?rid='' @ nat_string (nat rid')) w of
        (Inl e, w1) \<Rightarrow> (Inl e, w1)
      | (Inr body, w1) \<Rightarrow> (case dec body of None \<Rightarrow> (Inl (Wrapped ErrUnexpectedState), w1)
          | Some md \<Rightarrow> (Inr md, w1)))"

definition cl_StopTorrent :: "'w net \<Rightarrow> 'w client \<Rightarrow> string \<Rightarrow> 'w \<Rightarrow> err option \<times> 'w" where
  "cl_StopTorrent net c h = postForm net c ''/api/v2/torrents/stop'' [(''hashes'', h)]"

definition cl_StartTorrent :: "'w net \<Rightarrow> 'w client \<Rightarrow> string \<Rightarrow> 'w \<Rightarrow> err option \<times> 'w" where
  "cl_StartTorrent net c h = postForm net c ''/api/v2/torrents/start'' [(''hashes'', h)]"

definition cl_PauseTorrent :: "'w net \<Rightarrow> 'w client \<Rightarrow> string \<Rightarrow> 'w \<Rightarrow> err option \<times> 'w" where
  "cl_PauseTorrent net c h = postForm net c ''/api/v2/torrents/pause'' [(''hashes'', h)]"

definition cl_ResumeTorrent :: "'w net \<Rightarrow> 'w client \<Rightarrow> string \<Rightarrow> 'w \<Rightarrow> err option \<times> 'w" where
  "cl_ResumeTorrent net c h = postForm net c ''/api/v2/torrents/resume'' [(''hashes'', h)]"

definition cl_DeleteTorrent :: "'w net \<Rightarrow> 'w client \<Rightarrow> string \<Rightarrow> bool \<Rightarrow> 'w \<Rightarrow> err option \<times> 'w" where
  "cl_DeleteTorrent net c h del = postForm net c ''/api/v2/torrents/delete''
     [(''hashes'', h), (''deleteFiles'', if del then ''true'' else ''false'')]"

text \<open>\<^verbatim>\<open>AddMagnet\<close>; \<open>ids\<close> reads \<^verbatim>\<open>added_torrent_ids\<close> from a JSON body.\<close>

definition cl_AddMagnet :: "(string \<Rightarrow> string list option) \<Rightarrow> 'w net \<Rightarrow> 'w client \<Rightarrow> string \<Rightarrow> 'w \<Rightarrow>
    (err + string list) \<times> 'w" where
  "cl_AddMagnet ids net c magnet w =
     (case postFormBody net c ''/api/v2/torrents/add'' [(''urls'', magnet)] w of
        (Inl e, w1) \<Rightarrow> (Inl e, w1)
      | (Inr body, w1) \<Rightarrow> (Inr (case ids body of Some xs \<Rightarrow> xs | None \<Rightarrow> []), w1))"

end
