(* ===== verification/ClientProps.thy ===== *)
theory ClientProps
  imports Client
begin

text \<open>
  Properties of the HTTP client: how many requests an operation sends, what counts as a
  successful login, the bound on version strings, and the pin that a displayed fingerprint gives.
\<close>

section \<open>Recording what is sent\<close>

text \<open>The same network and client over a world that also lists the requests sent.\<close>

definition recorded :: "'w net \<Rightarrow> (http_request list \<times> 'w) net" where
  "recorded net = \<lparr>n_send = (\<lambda>tls rq (l, w). let (r, w') = n_send net tls rq w in (r, (l @ [rq], w'))),
     n_sha = n_sha net\<rparr>"

definition lifted :: "'w client \<Rightarrow> (http_request list \<times> 'w) client" where
  "lifted c = \<lparr>cl_base = cl_base c, cl_user = cl_user c, cl_tls = cl_tls c,
     cl_fetch = map_option (\<lambda>f (l, w). let (r, w') = f w in (r, (l, w'))) (cl_fetch c)\<rparr>"

lemma lifted_fields [simp]:
  "cl_base (lifted c) = cl_base c" "cl_user (lifted c) = cl_user c" "cl_tls (lifted c) = cl_tls c"
  by (simp_all add: lifted_def)

lemma login_password_log:
  assumes "login_password (lifted c) (l, w) = (r, (l', w'))"
  shows "l' = l"
  using assms by (auto simp: login_password_def lifted_def split: option.splits prod.splits sum.splits if_splits)

definition is_login :: "'w client \<Rightarrow> http_request \<Rightarrow> bool" where
  "is_login c rq \<longleftrightarrow> hq_method rq = ''POST'' \<and> hq_url rq = login_url c"

lemma Login_log:
  assumes "Login (recorded net) (lifted c) (l, w) = (r, (l', w'))"
  shows "(l' = l \<and> (r = None \<longrightarrow> cl_user c = [])) \<or> (\<exists>rq. is_login c rq \<and> l' = l @ [rq])"
proof (cases "cl_user c = []")
  case True
  then show ?thesis using assms by (simp add: Login_def)
next
  case False
  obtain a l1 w1 where pw: "login_password (lifted c) (l, w) = (a, (l1, w1))"
    by (metis surj_pair)
  note l1 = login_password_log[OF pw]
  show ?thesis
  proof (cases a)
    case (Inl e)
    then show ?thesis using assms False pw l1 by (auto simp: Login_def)
  next
    case (Inr p)
    then show ?thesis
      using assms False pw l1
      by (auto simp: Login_def recorded_def is_login_def login_url_def split: prod.splits)
  qed
qed

text \<open>An action that sends exactly one given request.\<close>

definition sends_one :: "http_request \<Rightarrow> (http_request list \<times> 'w \<Rightarrow> (err + string) \<times> (http_request list \<times> 'w)) \<Rightarrow> bool" where
  "sends_one rq act \<longleftrightarrow> (\<forall>l w r l' w'. act (l, w) = (r, (l', w')) \<longrightarrow> l' = l @ [rq])"

lemma relogin_log:
  assumes one: "sends_one rq act" and run: "with_relogin (recorded net) (lifted c) act (l, w) = (r, (l', w'))"
  shows "l' = l @ [rq] \<or> (\<exists>lg. is_login c lg \<and> cl_user c \<noteq> [] \<and> (l' = l @ [rq, lg] \<or> l' = l @ [rq, lg, rq]))"
proof -
  obtain a l1 w1 where act1: "act (l, w) = (a, (l1, w1))"
    by (metis surj_pair)
  have l1: "l1 = l @ [rq]"
    using one act1 unfolding sends_one_def by blast
  show ?thesis
  proof (cases "\<exists>e. a = Inl e \<and> errors_Is e ErrUnauthorized \<and> cl_user c \<noteq> []")
    case False
    then have "l' = l1"
      using run act1 by (auto simp: with_relogin_def split: sum.splits if_splits)
    then show ?thesis using l1 by simp
  next
    case True
    obtain le l2 w2 where log: "Login (recorded net) (lifted c) (l1, w1) = (le, (l2, w2))"
      by (metis surj_pair)
    obtain b l3 w3 where act2: "act (l2, w2) = (b, (l3, w3))"
      by (metis surj_pair)
    have l3: "l3 = l2 @ [rq]"
      using one act2 unfolding sends_one_def by blast
    have l': "l' = (if le = None then l3 else l2)"
      using run act1 True log act2 by (auto simp: with_relogin_def split: option.splits)
    show ?thesis
      using Login_log[OF log] True l' l1 l3 by (cases le) auto
  qed
qed

lemma doFetch_one:
  "sends_one \<lparr>hq_method = ''GET'', hq_url = cl_base c @ p, hq_form = []\<rparr> (doFetch (recorded net) (lifted c) p)"
  by (auto simp: sends_one_def doFetch_def recorded_def split: prod.splits)

lemma doPost_one:
  "sends_one \<lparr>hq_method = ''POST'', hq_url = cl_base c @ p, hq_form = form\<rparr>
     (doPostForm (recorded net) (lifted c) p form)"
  by (auto simp: sends_one_def doPostForm_def recorded_def split: prod.splits)

section \<open>Properties\<close>

text \<open>
  Every authenticated request is sent once, or, after a 403 and only with configured
  credentials, followed by one login and at most one repetition of the same request: no
  operation loops on a rejecting backend, and an anonymous client never logs in.
\<close>

theorem requests_bounded:
  "(fetch (recorded net) (lifted c) p (l, w) = (r, (l', w')) \<longrightarrow>
     (\<exists>ts. l' = l @ ts \<and> length ts \<le> 3 \<and> length (filter (is_login c) (tl ts)) \<le> 1 \<and>
        (cl_user c = [] \<longrightarrow> length ts = 1) \<and>
        (\<forall>rq \<in> set ts. is_login c rq \<or> rq = \<lparr>hq_method = ''GET'', hq_url = cl_base c @ p, hq_form = []\<rparr>))) \<and>
   (postFormBody (recorded net) (lifted c) p form (l, w) = (r, (l', w')) \<longrightarrow>
     (\<exists>ts. l' = l @ ts \<and> length ts \<le> 3 \<and> (cl_user c = [] \<longrightarrow> length ts = 1) \<and>
        (\<forall>rq \<in> set ts. is_login c rq \<or> rq = \<lparr>hq_method = ''POST'', hq_url = cl_base c @ p, hq_form = form\<rparr>)))"
proof (intro conjI impI)
  let ?g = "\<lparr>hq_method = ''GET'', hq_url = cl_base c @ p, hq_form = []\<rparr>"
  have g: "\<not> is_login c ?g" by (simp add: is_login_def)
  assume "fetch (recorded net) (lifted c) p (l, w) = (r, (l', w'))"
  from relogin_log[OF doFetch_one this[unfolded fetch_def]]
  show "\<exists>ts. l' = l @ ts \<and> length ts \<le> 3 \<and> length (filter (is_login c) (tl ts)) \<le> 1 \<and>
      (cl_user c = [] \<longrightarrow> length ts = 1) \<and> (\<forall>rq \<in> set ts. is_login c rq \<or> rq = ?g)"
    using g by auto
next
  assume "postFormBody (recorded net) (lifted c) p form (l, w) = (r, (l', w'))"
  from relogin_log[OF doPost_one this[unfolded postFormBody_def]]
  show "\<exists>ts. l' = l @ ts \<and> length ts \<le> 3 \<and> (cl_user c = [] \<longrightarrow> length ts = 1) \<and>
      (\<forall>rq \<in> set ts. is_login c rq \<or> rq = \<lparr>hq_method = ''POST'', hq_url = cl_base c @ p, hq_form = form\<rparr>)"
    by auto
qed

text \<open>
  A login succeeds exactly on 204, or on 200 with the body "Ok."; everything else is an
  error, and only 401 and the body "Fails." are reported as bad credentials, only 403 as a ban.
\<close>

theorem login_classification:
  "(login_result sha (Inr resp) = None \<longleftrightarrow> \<not> hr_broken resp \<and>
      (hr_status resp = 204 \<or> hr_status resp = 200 \<and> take 65536 (hr_body resp) = ''Ok.'')) \<and>
   (login_result sha (Inr resp) = Some (Wrapped ErrBadCredentials) \<longleftrightarrow> \<not> hr_broken resp \<and>
      (hr_status resp = 401 \<or> hr_status resp = 200 \<and> take 65536 (hr_body resp) = ''Fails.'')) \<and>
   (login_result sha (Inr resp) = Some (Wrapped ErrBanned) \<longleftrightarrow> \<not> hr_broken resp \<and> hr_status resp = 403)"
  by (auto simp: login_result_def Let_def)

text \<open>
  A version string never exceeds 64 characters (256 bytes), whatever the backend answers.
\<close>

theorem version_bounded:
  assumes "getText net c p w = (Inr v, w')"
  shows "length (runes v) \<le> 64"
proof -
  obtain body w1 where "fetch net c p w = (Inr body, w1)"
    using assms by (auto simp: getText_def split: sum.splits prod.splits)
  then have v: "v = (if length (runes (trim_space body)) > 64
      then of_runes (take 64 (runes (trim_space body))) else trim_space body)"
    using assms by (simp add: getText_def Let_def)
  have "runes (of_runes (take 64 (runes (trim_space body)))) = take 64 (runes (trim_space body))"
    by (rule runes_of_runes) (auto dest: valid_take_runes)
  then show ?thesis
    unfolding v by simp
qed

section \<open>Pins\<close>

lemma hex_decode_encode: "\<forall>b \<in> set bs. b < 256 \<Longrightarrow> hex_decode (hex_of_bytes bs) = Some bs"
proof (induction bs)
  case (Cons b bs)
  then have "b div 16 < 16" "b mod 16 < 16" by auto
  then show ?case
    using Cons by (simp add: hex_of_bytes_def is_hex_digit)
qed (simp add: hex_of_bytes_def)

lemma length_hex: "length (hex_of_bytes bs) = 2 * length bs"
  by (induction bs) (simp_all add: hex_of_bytes_def)

text \<open>
  Trust on first use locks onto the certificate that was shown: the fingerprint offered for
  a certificate, given back as a pin, decodes to its digest, and the pin then accepts exactly
  the connections whose first certificate has that digest.
\<close>

theorem offered_fingerprint_pins_certificate:
  assumes "length (sha der) = 32" "\<forall>b \<in> set (sha der). b < 256" "te_der t = der"
    "classifyTLS sha (CertVerification why (der # rest)) = Some t"
  shows "DecodeFingerprint (te_offered t) = Some (sha der) \<and>
    (\<forall>certs. verify_pin sha (sha der) certs = None \<longleftrightarrow> certs \<noteq> [] \<and> sha (hd certs) = sha der)"
proof -
  have "te_offered t = hex_of_bytes (sha der)"
    using assms(4) by (auto simp: classifyTLS_def Let_def Fingerprint_def split: cert_failure.splits)
  then have "DecodeFingerprint (te_offered t) = Some (sha der)"
    using assms(1) hex_decode_encode[OF assms(2)] by (simp add: DecodeFingerprint_def length_hex)
  moreover have "verify_pin sha (sha der) certs = None \<longleftrightarrow> certs \<noteq> [] \<and> sha (hd certs) = sha der" for certs
    by (auto simp: verify_pin_def split: list.splits)
  ultimately show ?thesis by blast
qed

section \<open>Witnesses\<close>

definition wn_net :: "nat net" where
  "wn_net = \<lparr>n_send = (\<lambda>tls rq n. (Inr \<lparr>hr_status = (if n = 0 then 403 else 200), hr_body = ''Ok.'',
     hr_broken = False\<rparr>, Suc n)), n_sha = (\<lambda>_. replicate 32 7)\<rparr>"

definition wn_client :: "nat client" where
  "wn_client = \<lparr>cl_base = ''http://h'', cl_user = ''u'', cl_tls = SystemRoots,
     cl_fetch = Some (staticSecret ''pw'')\<rparr>"

lemma wn_fetch: "\<exists>l'. fetch (recorded wn_net) (lifted wn_client) ''/x'' ([], 0) = (Inr ''Ok.'', (l', 3))"
  by (simp add: fetch_def with_relogin_def doFetch_def recorded_def wn_net_def fetch_result_def Login_def
      login_password_def lifted_def wn_client_def staticSecret_def login_result_def)

theorem requests_bounded_witness:
  "\<exists>ts. length ts \<le> 3 \<and> fetch (recorded wn_net) (lifted wn_client) ''/x'' ([], 0) = (Inr ''Ok.'', (ts, 3))"
proof -
  obtain l' where f: "fetch (recorded wn_net) (lifted wn_client) ''/x'' ([], 0) = (Inr ''Ok.'', (l', 3))"
    using wn_fetch by blast
  then have "length l' \<le> 3"
    using requests_bounded[of wn_net wn_client "''/x''" "[]" 0 "Inr ''Ok.''" l' 3 "[]"] by auto
  with f show ?thesis by blast
qed

lemma wn_text: "getText wn_net wn_client ''/x'' 0 = (Inr ''Ok.'', 3)"
  by (simp add: getText_def fetch_def with_relogin_def doFetch_def wn_net_def fetch_result_def Login_def
      login_password_def wn_client_def staticSecret_def login_result_def) code_simp

theorem version_bounded_witness: "length (runes ''Ok.'') \<le> 64"
  by (rule version_bounded[OF wn_text])

theorem offered_fingerprint_pins_certificate_witness:
  "DecodeFingerprint (hex_of_bytes (replicate 32 7)) = Some (replicate 32 7)"
proof -
  let ?t = "\<lparr>te_class = ErrTLSHostname, te_offered = hex_of_bytes (replicate 32 7), te_der = ''cert''\<rparr>"
  have "classifyTLS (\<lambda>_. replicate 32 7) (CertVerification HostnameFailure (''cert'' # [])) = Some ?t"
    by (simp add: classifyTLS_def Fingerprint_def)
  from offered_fingerprint_pins_certificate[OF _ _ _ this] show ?thesis
    by simp
qed

end
