(* ===== verification/Secrets.thy ===== *)
theory Secrets
  imports GoText
begin

text \<open>
  The credential holder (internal/secrets/secrets.go). Its contract is the locale
  \<open>secret_provider\<close>: what each operation does to the one stored secret, and that a failed
  operation changes nothing (the assumption \<^verbatim>\<open>Configure\<close> documents). The in-memory provider \<open>fake\<close>
  satisfies it. The production provider is given over the subprocess: \<open>run\<close> executes
  \<^verbatim>\<open>secret-tool\<close> with arguments and standard input.
\<close>

section \<open>The contract\<close>

locale secret_provider =
  fixes store :: "string \<Rightarrow> 's \<Rightarrow> bool \<times> 's"
    and get :: "'s \<Rightarrow> string option option \<times> 's"
    and delete :: "'s \<Rightarrow> bool \<times> 's"
    and stored :: "'s \<Rightarrow> string option"
  assumes store_ok: "store x s = (True, s') \<Longrightarrow> stored s' = Some x"
    and store_failed: "store x s = (False, s') \<Longrightarrow> stored s' = stored s"
    and delete_ok: "delete s = (True, s') \<Longrightarrow> stored s' = None"
    and delete_failed: "delete s = (False, s') \<Longrightarrow> stored s' = stored s"
    and get_value: "get s = (Some v, s') \<Longrightarrow> v = stored s"
    and get_keeps: "get s = (r, s') \<Longrightarrow> stored s' = stored s"
begin

text \<open>Putting back what was read: the value is the one that was stored then.\<close>

lemma restore:
  assumes "get s = (Some prev, s1)"
    and "(case prev of Some x \<Rightarrow> store x s2 | None \<Rightarrow> delete s2) = (True, s3)"
  shows "stored s3 = stored s"
  using assms get_value[OF assms(1)] by (auto dest: store_ok delete_ok split: option.splits)

end

text \<open>A provider that has just changed the secret can put the previous one back.\<close>

locale steady_provider = secret_provider store get delete stored
  for store :: "string \<Rightarrow> 's \<Rightarrow> bool \<times> 's"
    and get :: "'s \<Rightarrow> string option option \<times> 's"
    and delete :: "'s \<Rightarrow> bool \<times> 's"
    and stored :: "'s \<Rightarrow> string option" +
  assumes can_undo: "get s = (Some prev, s1) \<Longrightarrow> store x s1 = (True, s2) \<or> delete s1 = (True, s2) \<Longrightarrow>
    fst (case prev of Some y \<Rightarrow> store y s2 | None \<Rightarrow> delete s2)"
begin

lemma undo_works:
  assumes "get s = (Some prev, s1)" "store x s1 = (True, s2) \<or> delete s1 = (True, s2)"
  shows "\<exists>s3. (case prev of Some x \<Rightarrow> store x s2 | None \<Rightarrow> delete s2) = (True, s3) \<and> stored s3 = stored s"
proof -
  have "fst (case prev of Some x \<Rightarrow> store x s2 | None \<Rightarrow> delete s2)"
    using assms(2) can_undo[OF assms(1)] by blast
  then obtain s3 where "(case prev of Some x \<Rightarrow> store x s2 | None \<Rightarrow> delete s2) = (True, s3)"
    by (metis (full_types) prod.collapse)
  with restore[OF assms(1) this] show ?thesis by blast
qed

end

section \<open>The in-memory provider\<close>

record fake =
  fk_secret :: "string option"
  fk_unavailable :: bool
  fk_stores :: nat
  fk_gets :: nat
  fk_deletes :: nat

definition fake_Store :: "string \<Rightarrow> fake \<Rightarrow> bool \<times> fake" where
  "fake_Store x f =
     (let f1 = f\<lparr>fk_stores := Suc (fk_stores f)\<rparr> in
      if fk_unavailable f1 then (False, f1) else (True, f1\<lparr>fk_secret := Some x\<rparr>))"

definition fake_Get :: "fake \<Rightarrow> string option option \<times> fake" where
  "fake_Get f =
     (let f1 = f\<lparr>fk_gets := Suc (fk_gets f)\<rparr> in
      if fk_unavailable f1 then (None, f1) else (Some (fk_secret f1), f1))"

definition fake_Delete :: "fake \<Rightarrow> bool \<times> fake" where
  "fake_Delete f =
     (let f1 = f\<lparr>fk_deletes := Suc (fk_deletes f)\<rparr> in
      if fk_unavailable f1 then (False, f1) else (True, f1\<lparr>fk_secret := None\<rparr>))"

definition SetSecret :: "string option \<Rightarrow> fake \<Rightarrow> fake" where
  "SetSecret x f = f\<lparr>fk_secret := (if x = Some [] then None else x)\<rparr>"

definition SetUnavailable :: "bool \<Rightarrow> fake \<Rightarrow> fake" where
  "SetUnavailable v f = f\<lparr>fk_unavailable := v\<rparr>"

definition Counts :: "fake \<Rightarrow> nat \<times> nat \<times> nat" where
  "Counts f = (fk_gets f, fk_stores f, fk_deletes f)"

interpretation fake: secret_provider fake_Store fake_Get fake_Delete fk_secret
  by unfold_locales
    (auto simp: fake_Store_def fake_Get_def fake_Delete_def Let_def split: if_splits)

interpretation steady: steady_provider fake_Store fake_Get fake_Delete fk_secret
  by unfold_locales
    (auto simp: fake_Get_def fake_Store_def fake_Delete_def Let_def split: if_splits option.splits)

definition Wipe :: "string \<Rightarrow> string" where
  "Wipe b = List.map (\<lambda>_. CHR 0x00) b"

section \<open>secret-tool\<close>

text \<open>A subprocess: the program, its arguments and its environment, what it reads, and what it leaves.\<close>

datatype run_error = ExitCode nat | RunFailed

record process =
  pr_program :: string
  pr_args :: "string list"
  pr_env :: "string list"
  pr_stdin :: "string option"

type_synonym 's spawn = "process \<Rightarrow> 's \<Rightarrow> (string \<times> run_error option) \<times> 's"
type_synonym 's runner = "string list \<Rightarrow> string option \<Rightarrow> 's \<Rightarrow> (string \<times> run_error option) \<times> 's"

definition tool :: "string \<Rightarrow> string" where
  "tool binPath = (if binPath \<noteq> [] then binPath else ''secret-tool'')"

definition kept_variables :: "string list" where
  "kept_variables = [''PATH='', ''HOME='', ''DBUS_SESSION_BUS_ADDRESS='', ''XDG_RUNTIME_DIR='', ''LANG='', ''LC_ALL='',
     ''LC_CTYPE='']"

definition minimalEnv :: "string list \<Rightarrow> string list" where
  "minimalEnv environ = concat (List.map (\<lambda>kv. List.map (\<lambda>_. kv) (filter (\<lambda>keep. has_prefix keep kv) kept_variables)) environ)"

text \<open>Of os/exec: a command whose \<^verbatim>\<open>Env\<close> is nil inherits the whole environment, and \<^verbatim>\<open>minimalEnv\<close> is nil when
  it keeps nothing.\<close>

definition command_env :: "string list \<Rightarrow> string list" where
  "command_env environ = (let env = minimalEnv environ in if env = [] then environ else env)"

text \<open>A subprocess that exceeds the five seconds is killed and counts as \<open>RunFailed\<close>.\<close>

definition run_tool :: "string \<Rightarrow> string list \<Rightarrow> 's spawn \<Rightarrow> 's runner" where
  "run_tool binPath environ spawn args stdin s =
     spawn \<lparr>pr_program = tool binPath, pr_args = args, pr_env = command_env environ, pr_stdin = stdin\<rparr> s"

definition attrArgs :: "string list" where
  "attrArgs = [''service'', ''omatorrent'', ''kind'', ''qbt-webui-password'']"

definition tool_Store :: "'s runner \<Rightarrow> string \<Rightarrow> 's \<Rightarrow> bool \<times> 's" where
  "tool_Store run secret s =
     (if secret = [] then (False, s)
      else case run ([''store'', ''--label=OmaTorrent qBittorrent WebUI password''] @ attrArgs)
             (Some secret) s of
        ((_, e), s1) \<Rightarrow> (e = None, s1))"

definition strip_newline :: "string \<Rightarrow> string" where
  "strip_newline out = (if out \<noteq> [] \<and> last out = CHR 0x0A then butlast out else out)"

definition tool_Get :: "'s runner \<Rightarrow> 's \<Rightarrow> string option option \<times> 's" where
  "tool_Get run s =
     (case run ([''lookup''] @ attrArgs) None s of
        ((out, None), s1) \<Rightarrow>
          (let v = strip_newline out in if v = [] then (Some None, s1) else (Some (Some v), s1))
      | ((out, Some e), s1) \<Rightarrow>
          if e = ExitCode 1 \<and> out = [] then (Some None, s1) else (None, s1))"

definition tool_Delete :: "'s runner \<Rightarrow> 's \<Rightarrow> bool \<times> 's" where
  "tool_Delete run s = (case run ([''clear''] @ attrArgs) None s of ((_, e), s1) \<Rightarrow> (e = None, s1))"

end
