(* ===== verification/Manager.thy ===== *)
theory Manager
  imports Client Store Secrets MutatorLemmas
begin

text \<open>
  The connection manager (internal/connection/manager.go): status derivation, one-shot
  connection tests with the bounded cache of offered certificates, and the \<open>Configure\<close>
  transaction over the secret provider, the profile store, the syncer and the mutator.

  \<open>daemon\<close> is everything a transaction touches. \<open>env\<close> holds what the manager is given: the store
  path, which system calls fail (separately for the snapshot, the save and the rollback), the
  secret provider, the JSON encoding, and the certificate check. Secret buffers that are wiped
  while a closure still refers to them live in an explicit store (\<open>buffers\<close>).
\<close>

section \<open>Names\<close>

definition StatusConnecting :: string where "StatusConnecting = ''connecting''"
definition StatusConnected :: string where "StatusConnected = ''connected''"
definition StatusUnreachable :: string where "StatusUnreachable = ''unreachable''"
definition StatusAuthRequired :: string where "StatusAuthRequired = ''auth_required''"
definition StatusAuthFailed :: string where "StatusAuthFailed = ''auth_failed''"
definition StatusBanned :: string where "StatusBanned = ''banned''"
definition StatusTLSUntrusted :: string where "StatusTLSUntrusted = ''tls_untrusted''"
definition StatusTLSHostname :: string where "StatusTLSHostname = ''tls_hostname''"
definition StatusSecretsUnavailable :: string where "StatusSecretsUnavailable = ''secrets_unavailable''"
definition StatusInsecureHTTP :: string where "StatusInsecureHTTP = ''insecure_http''"
definition StatusInvalidConfig :: string where "StatusInvalidConfig = ''invalid_configuration''"
definition StatusBackendError :: string where "StatusBackendError = ''backend_error''"

definition RejectInvalidURL :: string where "RejectInvalidURL = ''invalid_url''"
definition RejectInsecureHTTP :: string where "RejectInsecureHTTP = ''insecure_http''"
definition RejectPinUnknown :: string where "RejectPinUnknown = ''pin_unknown''"
definition RejectSecretsMissing :: string where "RejectSecretsMissing = ''secrets_unavailable''"
definition RejectMutationsPending :: string where "RejectMutationsPending = ''mutations_pending''"
definition RejectStorageError :: string where "RejectStorageError = ''storage_error''"

lemmas status_names = StatusConnecting_def StatusConnected_def StatusUnreachable_def
  StatusAuthRequired_def StatusAuthFailed_def StatusBanned_def StatusTLSUntrusted_def
  StatusTLSHostname_def StatusSecretsUnavailable_def StatusInsecureHTTP_def
  StatusInvalidConfig_def StatusBackendError_def

definition testLoginWindow :: nat where "testLoginWindow = 5000000000"
definition offeredCacheCap :: nat where "offeredCacheCap = 8"
definition offeredDERCap :: nat where "offeredDERCap = 65536"
definition maxCAPEMBytes :: nat where "maxCAPEMBytes = 262144"

section \<open>State\<close>

text \<open>\<open>mg_testAt\<close> is None before the first paced login (Go's zero time, far in the past).\<close>

record 'w manager =
  mg_profile :: profile
  mg_endpoint :: endpoint
  mg_epoch :: nat
  mg_valid :: bool
  mg_hasSecret :: bool
  mg_current :: "'w client option"
  mg_testAt :: "nat option"
  mg_testPace :: nat
  mg_offered :: "(string, string) gomap"
  mg_offeredIO :: "string list"

record status =
  su_configured :: bool
  su_mode :: string
  su_url :: string
  su_host :: string
  su_transport :: string
  su_insecure :: bool
  su_user :: string
  su_hasSecret :: bool
  su_tls :: string
  su_pin :: string
  su_status :: string
  su_detail :: string
  su_epoch :: nat

record test_params =
  tp_url :: string
  tp_user :: string
  tp_password :: "string option"
  tp_stored :: bool
  tp_tls :: string
  tp_pin :: string
  tp_ack :: bool

record configure_params = test_params +
  cp_action :: string

record test_result =
  tr_ok :: bool
  tr_status :: string
  tr_detail :: string
  tr_host :: string
  tr_transport :: string
  tr_app :: string
  tr_api :: string
  tr_offered :: string

record configure_result =
  cr_ok :: bool
  cr_rejection :: string
  cr_epoch :: nat
  cr_mode :: string
  cr_host :: string
  cr_transport :: string

definition no_result :: test_result where
  "no_result = \<lparr>tr_ok = False, tr_status = [], tr_detail = [], tr_host = [], tr_transport = [],
     tr_app = [], tr_api = [], tr_offered = []\<rparr>"

definition new_manager :: "profile \<Rightarrow> endpoint \<Rightarrow> 'w manager" where
  "new_manager p ep = \<lparr>mg_profile = p, mg_endpoint = ep, mg_epoch = 0, mg_valid = True,
     mg_hasSecret = False, mg_current = None, mg_testAt = None, mg_testPace = testLoginWindow,
     mg_offered = m_empty, mg_offeredIO = []\<rparr>"

definition NewManager :: "(string \<Rightarrow> profile option) \<Rightarrow> fails \<Rightarrow> fs \<Rightarrow> path \<Rightarrow> profile \<Rightarrow>
    string + 'w manager" where
  "NewManager unmarshal fails fs path fallback =
     (case LoadActive unmarshal fails fs path fallback of
        Inl e \<Rightarrow> Inl e | Inr (p, ep) \<Rightarrow> Inr (new_manager p ep))"

definition AttachClient :: "'w client \<Rightarrow> 'w manager \<Rightarrow> 'w manager" where
  "AttachClient c m = m\<lparr>mg_current := Some c\<rparr>"

text \<open>\<^verbatim>\<open>refreshSecretPresence\<close>, with the answer of the provider.\<close>

definition refreshSecretPresence :: "string option option \<Rightarrow> 'w manager \<Rightarrow> 'w manager" where
  "refreshSecretPresence answer m =
     (case answer of None \<Rightarrow> m\<lparr>mg_hasSecret := False\<rparr> | Some v \<Rightarrow> m\<lparr>mg_hasSecret := (v \<noteq> None)\<rparr>)"

section \<open>Status\<close>

definition mapErrorClass :: "string \<Rightarrow> string \<times> string" where
  "mapErrorClass class =
     (if class = StatusLoading then (StatusConnecting, [])
      else if class = ErrClassBadCredentials
        then (StatusAuthFailed, ''credentials rejected (or Host validation failed on pre-5.2 backends)'')
      else if class = ErrClassBanned
        then (StatusBanned, ''too many failed logins; waiting out the backend ban'')
      else if class = ErrClassCredentialsUnavailable
        then (StatusSecretsUnavailable, ''secret store unavailable or locked'')
      else if class = ErrClassUnauthorized
        then (StatusAuthRequired, ''backend requires authentication and none is configured'')
      else if class = ErrClassTLSUntrusted then (StatusTLSUntrusted, [])
      else if class = ErrClassTLSHostname then (StatusTLSHostname, [])
      else if class = ErrClassUnreachable then (StatusUnreachable, [])
      else (StatusBackendError, []))"

definition mode_of :: "endpoint \<Rightarrow> string" where
  "mode_of ep = (if ep_loopback ep then ''local'' else ''remote'')"

definition Status :: "'w manager \<Rightarrow> state \<Rightarrow> status" where
  "Status m cur =
     (let p = mg_profile m; ep = mg_endpoint m;
          st = \<lparr>su_configured = mg_valid m, su_mode = mode_of ep, su_url = pf_url p,
            su_host = truncateRunes (ep_host ep) 128, su_transport = ep_scheme ep,
            su_insecure = InsecureTransport ep, su_user = pf_user p, su_hasSecret = mg_hasSecret m,
            su_tls = pf_tls p, su_pin = pf_pin p, su_status = [], su_detail = [],
            su_epoch = mg_epoch m\<rparr> in
      if \<not> mg_valid m
      then st\<lparr>su_status := StatusInvalidConfig, su_detail := ''profile failed validation''\<rparr>
      else if st_ok cur then st\<lparr>su_status := StatusConnected\<rparr>
      else let (s, d) = mapErrorClass (st_err cur) in st\<lparr>su_status := s, su_detail := d\<rparr>)"

section \<open>Offered certificates and TLS options\<close>

definition cacheOffered :: "string \<Rightarrow> string \<Rightarrow> 'w manager \<Rightarrow> 'w manager" where
  "cacheOffered fp der m =
     (if fp = [] \<or> der = [] \<or> length der > offeredDERCap then m
      else if m_get (mg_offered m) fp \<noteq> None then m\<lparr>mg_offered := m_put fp der (mg_offered m)\<rparr>
      else
        let m1 = (if length (mg_offeredIO m) \<ge> offeredCacheCap
              then m\<lparr>mg_offeredIO := tl (mg_offeredIO m),
                     mg_offered := m_del (hd (mg_offeredIO m)) (mg_offered m)\<rparr>
              else m)
        in m1\<lparr>mg_offered := m_put fp der (mg_offered m1), mg_offeredIO := mg_offeredIO m1 @ [fp]\<rparr>)"

definition validateTLSRequest :: "string \<Rightarrow> string \<Rightarrow> string option" where
  "validateTLSRequest mode pin =
     (if mode = [] \<or> mode = TLSSystem then None
      else if mode = TLSPin then
        (if length pin \<noteq> 64 then Some ''pin must be 64 hex characters''
         else case decodeHex pin of Inl _ \<Rightarrow> Some ''pin must be lowercase hex'' | Inr _ \<Rightarrow> None)
      else Some ''unknown TLS mode'')"

text \<open>\<^verbatim>\<open>pemEncode\<close>: the base64 text in lines of 64 characters between the markers.\<close>

definition b64_char :: "nat \<Rightarrow> char" where
  "b64_char n = (if n < 26 then char_of (65 + n) else if n < 52 then char_of (71 + n)
     else if n < 62 then char_of (n - 4) else if n = 62 then CHR ''+'' else CHR ''/'')"

fun base64 :: "nat list \<Rightarrow> string" where
  "base64 (a # b # c # r) = [b64_char (a div 4), b64_char (a mod 4 * 16 + b div 16),
     b64_char (b mod 16 * 4 + c div 64), b64_char (c mod 64)] @ base64 r"
| "base64 [a, b] = [b64_char (a div 4), b64_char (a mod 4 * 16 + b div 16), b64_char (b mod 16 * 4), CHR ''='']"
| "base64 [a] = [b64_char (a div 4), b64_char (a mod 4 * 16), CHR ''='', CHR ''='']"
| "base64 [] = []"

function wrap_lines :: "string \<Rightarrow> string" where
  "wrap_lines s = (if length s > 64 then take 64 s @ [CHR 0x0A] @ wrap_lines (drop 64 s)
     else s @ [CHR 0x0A])"
  by pat_completeness auto

termination wrap_lines
  by (relation "measure length") auto

declare wrap_lines.simps [simp del]

definition pemEncode :: "string \<Rightarrow> string" where
  "pemEncode der = ''-----BEGIN CERTIFICATE-----'' @ [CHR 0x0A] @ wrap_lines (base64 (bytes der))
     @ ''-----END CERTIFICATE-----'' @ [CHR 0x0A]"

definition resolveTLSOptions :: "string \<Rightarrow> string \<Rightarrow> 'w manager \<Rightarrow> string + tls_options" where
  "resolveTLSOptions mode pin m =
     (if mode = [] \<or> mode = TLSSystem
        then Inr \<lparr>to_mode = ''system'', to_ca = [], to_pin = [], to_pem = []\<rparr>
      else if mode = TLSPin then
        (case m_get (mg_offered m) pin of
           Some der \<Rightarrow> Inr \<lparr>to_mode = ''pin'', to_ca = [], to_pin = pin, to_pem = pemEncode der\<rparr>
         | None \<Rightarrow>
             if pin = pf_pin (mg_profile m) \<and> pf_pem (mg_profile m) \<noteq> []
             then Inr \<lparr>to_mode = ''pin'', to_ca = [], to_pin = pin, to_pem = pf_pem (mg_profile m)\<rparr>
             else Inl ''pin fingerprint has no trusted certificate (run connection.test first)'')
      else Inl ''unknown TLS mode'')"

section \<open>Building a client\<close>

record ('s, 'w) env =
  e_path :: path
  e_uid :: nat
  e_readFails :: fails
  e_saveFails :: fails
  e_undoFails :: fails
  e_store :: "string \<Rightarrow> 's \<Rightarrow> bool \<times> 's"
  e_get :: "'s \<Rightarrow> string option option \<times> 's"
  e_delete :: "'s \<Rightarrow> bool \<times> 's"
  e_fetch :: "'w \<Rightarrow> string option option \<times> 'w"
  e_marshal :: "profile \<Rightarrow> string"
  e_certs :: "string \<Rightarrow> bool"
  e_caPath :: "string \<Rightarrow> path"
  e_hook :: "profile \<Rightarrow> bool"

text \<open>\<^verbatim>\<open>readCA\<close>\<close>

definition readCA :: "fails \<Rightarrow> (string \<Rightarrow> path) \<Rightarrow> fs \<Rightarrow> string \<Rightarrow> string + string" where
  "readCA fails to_path fs path =
     (if path = [] then Inl ''empty CA path''
      else case fs (to_path path) of
        None \<Rightarrow> Inl ''open CA bundle''
      | Some NLink \<Rightarrow> Inl ''refusing symlinked CA bundle''
      | Some n \<Rightarrow>
          if fails SysOpenRead then Inl ''open CA bundle''
          else if fails SysStat then Inl ''stat CA bundle''
          else (case n of
              NFile _ _ data \<Rightarrow> if fails SysRead then Inl ''read CA bundle''
                else if length data > maxCAPEMBytes then Inl ''CA bundle exceeds 262144 bytes''
                else Inr data
            | _ \<Rightarrow> Inl ''CA bundle is not a regular file''))"

text \<open>The fetcher of a built client: the provider's current secret, at each login.\<close>

definition provider_fetcher :: "('w \<Rightarrow> string option option \<times> 'w) \<Rightarrow> 'w secret_fetcher" where
  "provider_fetcher get w =
     (case get w of
        (None, w1) \<Rightarrow> (Inl ''secret store unavailable'', w1)
      | (Some None, w1) \<Rightarrow> (Inl ''no stored credentials'', w1)
      | (Some (Some x), w1) \<Rightarrow> (Inr x, w1))"

definition buildClient :: "('s, 'w) env \<Rightarrow> fs \<Rightarrow> profile \<Rightarrow> endpoint \<Rightarrow> 'w client option" where
  "buildClient env fs p ep =
     (case (if pf_tls p = TLSCA then readCA (e_readFails env) (e_caPath env) fs (pf_ca p) else Inr []) of
        Inl _ \<Rightarrow> None
      | Inr ca \<Rightarrow>
          NewConfigurable (e_certs env)
            \<lparr>cc_url = ep_url ep, cc_user = pf_user p,
             cc_fetch = (if pf_user p \<noteq> [] then Some (provider_fetcher (e_fetch env)) else None),
             cc_tls = \<lparr>to_mode = (if pf_tls p = [] then ''system'' else pf_tls p), to_ca = ca,
               to_pin = pf_pin p, to_pem = pf_pem p\<rparr>\<rparr>)"

definition BuildClient :: "('s, 'w) env \<Rightarrow> fs \<Rightarrow> profile \<Rightarrow> 'w client option" where
  "BuildClient env fs p =
     (case Validate p of Inl _ \<Rightarrow> None | Inr ep \<Rightarrow> buildClient env fs p ep)"

definition ActiveClient :: "('s, 'w) env \<Rightarrow> fs \<Rightarrow> 'w manager \<Rightarrow> 'w client option" where
  "ActiveClient env fs m =
     (if \<not> mg_valid m then None else buildClient env fs (mg_profile m) (mg_endpoint m))"

section \<open>Connection tests\<close>

text \<open>Byte buffers by address: a slice is an address, a wipe changes what every alias reads.\<close>

record buffers =
  bf_mem :: "nat \<Rightarrow> string"
  bf_next :: nat

definition alloc :: "string \<Rightarrow> buffers \<Rightarrow> nat \<times> buffers" where
  "alloc s b = (bf_next b, b\<lparr>bf_mem := (bf_mem b)(bf_next b := s), bf_next := Suc (bf_next b)\<rparr>)"

definition wipe_buffer :: "nat \<Rightarrow> buffers \<Rightarrow> buffers" where
  "wipe_buffer a b = b\<lparr>bf_mem := (bf_mem b)(a := Wipe (bf_mem b a))\<rparr>"

text \<open>The closure \<^verbatim>\<open>resolveSecret\<close> returns captures the request's password, or the slice that the
  provider returned.\<close>

datatype secret_source = NoSource | FromRequest string | FromBuffer nat

definition read_source :: "secret_source \<Rightarrow> buffers \<Rightarrow> string" where
  "read_source src b = (case src of NoSource \<Rightarrow> [] | FromRequest pw \<Rightarrow> pw | FromBuffer a \<Rightarrow> bf_mem b a)"

definition resolveSecret :: "('w \<Rightarrow> string option option \<times> 'w) \<Rightarrow> test_params \<Rightarrow> buffers \<Rightarrow> 'w \<Rightarrow>
    (test_result + secret_source) \<times> buffers \<times> 'w" where
  "resolveSecret get p b w =
     (case tp_password p of
        Some pw \<Rightarrow> (Inr (FromRequest pw), b, w)
      | None \<Rightarrow>
          if tp_stored p then
            (if tp_user p = [] then (Inr NoSource, b, w)
             else case get w of
               (None, w1) \<Rightarrow> (Inl (no_result\<lparr>tr_status := StatusSecretsUnavailable,
                   tr_detail := ''secret store unavailable or locked''\<rparr>), b, w1)
             | (Some None, w1) \<Rightarrow> (Inl (no_result\<lparr>tr_status := StatusAuthRequired,
                   tr_detail := ''no stored credentials''\<rparr>), b, w1)
             | (Some (Some x), w1) \<Rightarrow>
                 (let (a, b1) = alloc x b in (Inr (FromBuffer a), wipe_buffer a b1, w1)))
          else (Inr NoSource, b, w))"

definition classifyTestErr :: "err \<Rightarrow> endpoint \<Rightarrow> 'w manager \<Rightarrow> test_result \<times> 'w manager" where
  "classifyTestErr e ep m =
     (let res = no_result\<lparr>tr_host := truncateRunes (ep_host ep) 128, tr_transport := ep_scheme ep\<rparr> in
      case e of
        TLSError t \<Rightarrow>
          let res1 = (if te_class t = ErrTLSHostname
                then res\<lparr>tr_status := StatusTLSHostname,
                         tr_detail := ''certificate is not valid for this host''\<rparr>
                else res\<lparr>tr_status := StatusTLSUntrusted\<rparr>)
          in if te_offered t \<noteq> []
             then (res1\<lparr>tr_offered := te_offered t\<rparr>, cacheOffered (te_offered t) (te_der t) m)
             else (res1, m)
      | _ \<Rightarrow>
          ((if errors_Is e ErrBadCredentials then res\<lparr>tr_status := StatusAuthFailed,
              tr_detail := ''credentials rejected (or Host validation failed on pre-5.2 backends)''\<rparr>
            else if errors_Is e ErrBanned then res\<lparr>tr_status := StatusBanned,
              tr_detail := ''client IP is banned by the backend''\<rparr>
            else if errors_Is e ErrCredentialsUnavailable then res\<lparr>tr_status := StatusSecretsUnavailable,
              tr_detail := ''secret store unavailable or locked''\<rparr>
            else if errors_Is e ErrUnauthorized then res\<lparr>tr_status := StatusAuthRequired,
              tr_detail := ''backend requires authentication and none was provided''\<rparr>
            else if errors_Is e ErrUnreachable then res\<lparr>tr_status := StatusUnreachable\<rparr>
            else res\<lparr>tr_status := StatusBackendError\<rparr>), m))"

text \<open>The pacing gate: check and stamp in one critical section.\<close>

definition pace_gate :: "nat \<Rightarrow> 'w manager \<Rightarrow> bool \<times> 'w manager" where
  "pace_gate now m =
     (let waiting = (mg_testPace m > 0 \<and>
            (case mg_testAt m of None \<Rightarrow> False | Some t \<Rightarrow> now - t < mg_testPace m))
      in if waiting then (True, m) else (False, m\<lparr>mg_testAt := Some now\<rparr>))"

text \<open>What a test does with the client it built.\<close>

definition probe :: "'w net \<Rightarrow> 'w client \<Rightarrow> bool \<Rightarrow> endpoint \<Rightarrow> 'w manager \<Rightarrow> 'w \<Rightarrow>
    test_result \<times> 'w manager \<times> 'w" where
  "probe net c login ep m w =
     (let (le, w1) = (if login then Login net c w else (None, w)) in
      case le of
        Some e \<Rightarrow> (let (r, m1) = classifyTestErr e ep m in (r, m1, w1))
      | None \<Rightarrow>
          (case AppVersion net c w1 of
             (Inl e, w2) \<Rightarrow> (let (r, m1) = classifyTestErr e ep m in (r, m1, w2))
           | (Inr app, w2) \<Rightarrow>
               (case WebAPIVersion net c w2 of
                  (Inl e, w3) \<Rightarrow> (let (r, m1) = classifyTestErr e ep m in (r, m1, w3))
                | (Inr api, w3) \<Rightarrow>
                    (no_result\<lparr>tr_ok := True, tr_status := StatusConnected,
                       tr_host := truncateRunes (ep_host ep) 128, tr_transport := ep_scheme ep,
                       tr_app := app, tr_api := api\<rparr>, m, w3))))"

definition Test :: "('s, 'w) env \<Rightarrow> 'w net \<Rightarrow> test_params \<Rightarrow> nat \<Rightarrow> buffers \<Rightarrow> 'w manager \<Rightarrow> 'w \<Rightarrow>
    test_result \<times> 'w manager \<times> 'w" where
  "Test env net p now b m w =
     (case ValidateURL (tp_url p) of
        Inl e \<Rightarrow> (no_result\<lparr>tr_status := StatusInvalidConfig, tr_detail := e\<rparr>, m, w)
      | Inr ep \<Rightarrow>
          let host = no_result\<lparr>tr_host := truncateRunes (ep_host ep) 128, tr_transport := ep_scheme ep\<rparr> in
          if httpPolicyError ep (tp_ack p)
          then (host\<lparr>tr_status := StatusInsecureHTTP,
                  tr_detail := ''plain HTTP to a non-loopback host requires explicit acknowledgement''\<rparr>, m, w)
          else case validateTLSRequest (tp_tls p) (tp_pin p) of
            Some e \<Rightarrow> (no_result\<lparr>tr_status := StatusInvalidConfig, tr_detail := e\<rparr>, m, w)
          | None \<Rightarrow>
          case resolveTLSOptions (tp_tls p) (tp_pin p) m of
            Inl e \<Rightarrow> (no_result\<lparr>tr_status := StatusInvalidConfig, tr_detail := e\<rparr>, m, w)
          | Inr tls \<Rightarrow>
          (case resolveSecret (e_fetch env) p b w of
             (Inl res, _, w1) \<Rightarrow> (res\<lparr>tr_host := tr_host host, tr_transport := ep_scheme ep\<rparr>, m, w1)
           | (Inr src, b1, w1) \<Rightarrow>
               let login = (tp_user p \<noteq> [] \<and> src \<noteq> NoSource);
                   (waiting, m1) = (if login then pace_gate now m else (False, m)) in
               if waiting
               then (host\<lparr>tr_status := StatusAuthRequired,
                       tr_detail := ''login attempts throttled'' \<rparr>, m1, w1)
               else case NewConfigurable (e_certs env)
                      \<lparr>cc_url = ep_url ep, cc_user = tp_user p,
                       cc_fetch = (if src = NoSource then None else Some (\<lambda>w. (Inr (read_source src b1), w))),
                       cc_tls = tls\<rparr> of
                 None \<Rightarrow> (host\<lparr>tr_status := StatusInvalidConfig\<rparr>, m1, w1)
               | Some c \<Rightarrow> probe net c login ep m1 w1))"

end
