(* ===== verification/Configure.thy ===== *)
theory Configure
  imports Manager SyncerLemmas
begin

text \<open>
  \<^verbatim>\<open>Manager.Configure\<close> (internal/connection/manager.go): the transaction that changes the secret, the
  profile file and the backend together. \<open>cfg_check\<close> is the validation of the request alone;
  \<open>configure_tx\<close> is what runs between \<open>BeginSwitch\<close> and the release of the drain; \<open>activate\<close> is the
  switch of syncer, manager and mutator; \<open>fail_tx\<close> undoes what was changed.

  The two components that a transaction drives are used through contracts: \<open>switch_drain\<close> is what
  the manager needs of the mutator, \<open>backend_holder\<close> what it needs of the syncer. Both are
  interpreted on the models of those components.
\<close>

section \<open>The contracts of the switched components\<close>

locale switch_drain =
  fixes begin_switch :: "'m \<Rightarrow> bool \<times> 'm"
    and commit_swap :: "'b \<Rightarrow> 'm \<Rightarrow> 'm"
    and abort :: "'m \<Rightarrow> 'm"
    and backend :: "'m \<Rightarrow> 'b"
    and epoch :: "'m \<Rightarrow> nat"
    and draining :: "'m \<Rightarrow> bool"
  assumes begin_refused: "begin_switch m = (False, m') \<Longrightarrow> m' = m"
    and begin_idle: "begin_switch m = (True, m') \<Longrightarrow> \<not> draining m"
    and begin_drains: "begin_switch m = (True, m') \<Longrightarrow> draining m'"
    and begin_frame: "begin_switch m = (True, m') \<Longrightarrow> backend m' = backend m \<and> epoch m' = epoch m"
    and abort_undoes: "begin_switch m = (True, m') \<Longrightarrow> abort m' = m"
    and commit_backend: "backend (commit_swap b m) = b"
    and commit_epoch: "epoch (commit_swap b m) = Suc (epoch m)"
    and commit_releases: "\<not> draining (commit_swap b m)"
begin

text \<open>A second switch is refused while the first drains.\<close>

lemma exclusive: "begin_switch m = (True, m') \<Longrightarrow> \<not> fst (begin_switch m')"
  using begin_idle[of m' "snd (begin_switch m')"] begin_drains[of m m']
  by (cases "begin_switch m'") auto

text \<open>Both ends of a transaction release the drain.\<close>

lemma released: "begin_switch m = (True, m') \<Longrightarrow> \<not> draining (abort m') \<and> \<not> draining (commit_swap b m')"
  using abort_undoes[of m m'] begin_idle[of m m'] commit_releases[of b m'] by simp

end

locale backend_holder =
  fixes switch :: "'b \<Rightarrow> 's \<Rightarrow> 's"
    and backend :: "'s \<Rightarrow> 'b"
    and epoch :: "'s \<Rightarrow> nat"
    and up :: "'s \<Rightarrow> bool"
  assumes switch_backend: "backend (switch b s) = b"
    and switch_epoch: "epoch (switch b s) = Suc (epoch s)"
    and switch_degrades: "\<not> up (switch b s)"

interpretation drain: switch_drain BeginSwitch CommitSwap AbortSwitch mt_backend mt_epoch mt_draining
  by unfold_locales (auto simp: BeginSwitch_def CommitSwap_def AbortSwitch_def split: if_splits)

interpretation sync: backend_holder SwitchBackend s_backend s_epoch "\<lambda>s. st_ok (s_cur s)"
  by unfold_locales (simp_all add: switch_fields switched_fields)

section \<open>State\<close>

record ('s, 'w) daemon =
  da_mgr :: "'w manager"
  da_sync :: "'w client syncer"
  da_mut :: "'w client mutator"
  da_sec :: 's
  da_fs :: fs

definition rejection :: "string \<Rightarrow> configure_result" where
  "rejection rcode = \<lparr>cr_ok = False, cr_rejection = rcode, cr_epoch = 0, cr_mode = [], cr_host = [],
     cr_transport = []\<rparr>"

section \<open>The request alone\<close>

definition cfg_check :: "configure_params \<Rightarrow> string + endpoint" where
  "cfg_check p =
     (case ValidateURL (tp_url p) of
        Inl _ \<Rightarrow> Inl RejectInvalidURL
      | Inr ep \<Rightarrow>
          if httpPolicyError ep (tp_ack p) then Inl RejectInsecureHTTP
          else if cp_action p \<notin> {''keep'', ''replace'', ''delete''} then Inl RejectInvalidURL
          else if cp_action p = ''replace'' \<and> (tp_password p = None \<or> tp_password p = Some [])
          then Inl RejectInvalidURL
          else if validateTLSRequest (tp_tls p) (tp_pin p) \<noteq> None then Inl RejectInvalidURL
          else Inr ep)"

definition next_profile :: "configure_params \<Rightarrow> endpoint \<Rightarrow> tls_options \<Rightarrow> profile" where
  "next_profile p ep tls = \<lparr>pf_url = ep_url ep, pf_user = tp_user p,
     pf_tls = (if tp_tls p = [] then TLSSystem else tp_tls p), pf_ca = [], pf_pin = tp_pin p,
     pf_pem = (if tp_tls p = TLSPin then to_pem tls else []), pf_ack = tp_ack p\<rparr>"

section \<open>The secret\<close>

text \<open>The snapshot: None is a provider error, \<open>Some v\<close> the previous secret (for \<^verbatim>\<open>keep\<close>, unused).\<close>

definition snapshot_secret :: "('s, 'w) env \<Rightarrow> string \<Rightarrow> 's \<Rightarrow> string option option \<times> 's" where
  "snapshot_secret env act s = (if act = ''keep'' then (Some None, s) else e_get env s)"

text \<open>The mutation: whether it succeeded, and whether the secret was changed.\<close>

definition change_secret :: "('s, 'w) env \<Rightarrow> configure_params \<Rightarrow> 's \<Rightarrow> (bool \<times> bool) \<times> 's" where
  "change_secret env p s =
     (if cp_action p = ''replace'' then
        (case e_store env (case tp_password p of None \<Rightarrow> [] | Some pw \<Rightarrow> pw) s of (ok, s1) \<Rightarrow> ((ok, ok), s1))
      else if cp_action p = ''delete'' then (case e_delete env s of (ok, s1) \<Rightarrow> ((ok, ok), s1))
      else ((True, False), s))"

definition rollbackSecret :: "('s, 'w) env \<Rightarrow> string option \<Rightarrow> ('s, 'w) daemon \<Rightarrow> ('s, 'w) daemon" where
  "rollbackSecret env prev d =
     (case prev of
        Some x \<Rightarrow>
          (case e_store env x (da_sec d) of
             (True, s) \<Rightarrow> d\<lparr>da_sec := s, da_mgr := (da_mgr d)\<lparr>mg_hasSecret := True\<rparr>\<rparr>
           | (False, s) \<Rightarrow> d\<lparr>da_sec := s\<rparr>)
      | None \<Rightarrow>
          (case e_delete env (da_sec d) of
             (True, s) \<Rightarrow> d\<lparr>da_sec := s, da_mgr := (da_mgr d)\<lparr>mg_hasSecret := False\<rparr>\<rparr>
           | (False, s) \<Rightarrow> d\<lparr>da_sec := s\<rparr>))"

section \<open>The file\<close>

definition rollbackStoreBytes :: "('s, 'w) env \<Rightarrow> string option \<Rightarrow> ('s, 'w) daemon \<Rightarrow> ('s, 'w) daemon" where
  "rollbackStoreBytes env before d =
     d\<lparr>da_fs := (case before of
        None \<Rightarrow> snd (removeStore (e_undoFails env) (e_path env) (da_fs d))
      | Some data \<Rightarrow> snd (SaveStoreRaw (e_undoFails env) (e_uid env) (e_path env) data (da_fs d)))\<rparr>"

definition fail_tx :: "('s, 'w) env \<Rightarrow> string \<Rightarrow> bool \<Rightarrow> string option \<Rightarrow> bool \<Rightarrow> string option \<Rightarrow>
    ('s, 'w) daemon \<Rightarrow> configure_result \<times> ('s, 'w) daemon" where
  "fail_tx env rcode secretMutated prev storeMutated before d =
     (let d1 = (if secretMutated then rollbackSecret env prev d else d);
          d2 = (if storeMutated then rollbackStoreBytes env before d1 else d1)
      in (rejection rcode, d2))"

section \<open>Activation\<close>

definition activate :: "configure_params \<Rightarrow> profile \<Rightarrow> endpoint \<Rightarrow> 'w client \<Rightarrow> ('s, 'w) daemon \<Rightarrow>
    configure_result \<times> ('s, 'w) daemon" where
  "activate p nxt ep c d =
     (let m = da_mgr d;
          m1 = m\<lparr>mg_current := Some c, mg_profile := nxt, mg_endpoint := ep, mg_valid := True,
                 mg_epoch := Suc (mg_epoch m),
                 mg_hasSecret := (if cp_action p = ''replace'' then True
                    else if cp_action p = ''delete'' then False else mg_hasSecret m)\<rparr>
      in (\<lparr>cr_ok = True, cr_rejection = [], cr_epoch = mg_epoch m1, cr_mode = mode_of ep,
            cr_host = truncateRunes (ep_host ep) 128, cr_transport = ep_scheme ep\<rparr>,
          d\<lparr>da_sync := SwitchBackend c (da_sync d), da_mgr := m1, da_mut := CommitSwap c (da_mut d)\<rparr>))"

section \<open>The transaction\<close>

definition persist_and_switch :: "('s, 'w) env \<Rightarrow> configure_params \<Rightarrow> profile \<Rightarrow> endpoint \<Rightarrow> bool \<Rightarrow>
    string option \<Rightarrow> string option \<Rightarrow> ('s, 'w) daemon \<Rightarrow> configure_result \<times> ('s, 'w) daemon" where
  "persist_and_switch env p nxt ep mutated prev before d =
     (case SaveStore (e_marshal env) (e_saveFails env) (e_uid env) (e_path env) nxt (da_fs d) of
        (Some _, fs1) \<Rightarrow> fail_tx env RejectStorageError mutated prev False before (d\<lparr>da_fs := fs1\<rparr>)
      | (None, fs1) \<Rightarrow>
          let d1 = d\<lparr>da_fs := fs1\<rparr> in
          if e_hook env nxt then fail_tx env RejectInvalidURL mutated prev True before d1
          else case buildClient env fs1 nxt ep of
             None \<Rightarrow> fail_tx env RejectInvalidURL mutated prev True before d1
           | Some c \<Rightarrow> activate p nxt ep c d1)"

definition configure_tx :: "('s, 'w) env \<Rightarrow> configure_params \<Rightarrow> endpoint \<Rightarrow> ('s, 'w) daemon \<Rightarrow>
    configure_result \<times> ('s, 'w) daemon" where
  "configure_tx env p ep d =
     (case ReadStoreRaw (e_readFails env) (da_fs d) (e_path env) of
        Inl _ \<Rightarrow> (rejection RejectStorageError, d)
      | Inr before \<Rightarrow>
          (case snapshot_secret env (cp_action p) (da_sec d) of
             (None, s1) \<Rightarrow> (rejection RejectSecretsMissing, d\<lparr>da_sec := s1\<rparr>)
           | (Some prev, s1) \<Rightarrow>
               (case resolveTLSOptions (tp_tls p) (tp_pin p) (da_mgr d) of
                  Inl _ \<Rightarrow> (rejection RejectPinUnknown, d\<lparr>da_sec := s1\<rparr>)
                | Inr tls \<Rightarrow>
                    (case change_secret env p s1 of
                       ((False, _), s2) \<Rightarrow> (rejection RejectSecretsMissing, d\<lparr>da_sec := s2\<rparr>)
                     | ((True, mutated), s2) \<Rightarrow>
                         persist_and_switch env p (next_profile p ep tls) ep mutated prev before
                           (d\<lparr>da_sec := s2\<rparr>)))))"

text \<open>The whole call; the last component is the superseded client that is logged out.\<close>

definition Configure :: "('s, 'w) env \<Rightarrow> configure_params \<Rightarrow> ('s, 'w) daemon \<Rightarrow>
    configure_result \<times> ('s, 'w) daemon \<times> 'w client option" where
  "Configure env p d =
     (case cfg_check p of
        Inl rcode \<Rightarrow> (rejection rcode, d, None)
      | Inr ep \<Rightarrow>
          (case BeginSwitch (da_mut d) of
             (False, mu) \<Rightarrow> (rejection RejectMutationsPending, d\<lparr>da_mut := mu\<rparr>, None)
           | (True, mu) \<Rightarrow>
               (case configure_tx env p ep (d\<lparr>da_mut := mu\<rparr>) of
                  (r, d1) \<Rightarrow>
                    if cr_ok r then (r, d1, mg_current (da_mgr d))
                    else (r, d1\<lparr>da_mut := AbortSwitch (da_mut d1)\<rparr>, None))))"

end
