(* ===== verification/ConfigureProps.thy ===== *)
theory ConfigureProps
  imports Configure StoreProps
begin

text \<open>
  What a connection change guarantees: a rejected one leaves the active backend, the file and the
  secret as they were; a successful one moves the manager, the syncer and the mutator to the same
  new client in one epoch; together, \<open>Configure\<close> refines an atomic register that holds the active
  backend.
\<close>

section \<open>The abstract register\<close>

record 'w active =
  ac_profile :: profile
  ac_endpoint :: endpoint
  ac_client :: "'w client"
  ac_epoch :: nat

definition active_of :: "('s, 'w) daemon \<Rightarrow> 'w active" where
  "active_of d = \<lparr>ac_profile = mg_profile (da_mgr d), ac_endpoint = mg_endpoint (da_mgr d),
     ac_client = s_backend (da_sync d), ac_epoch = s_epoch (da_sync d)\<rparr>"

definition spec_switch :: "profile \<Rightarrow> endpoint \<Rightarrow> 'w client \<Rightarrow> 'w active \<Rightarrow> 'w active" where
  "spec_switch p ep c a = \<lparr>ac_profile = p, ac_endpoint = ep, ac_client = c, ac_epoch = Suc (ac_epoch a)\<rparr>"

text \<open>The three components agree on the backend and on the epoch, and nobody holds the drain.\<close>

definition daemon_ok :: "('s, 'w) daemon \<Rightarrow> bool" where
  "daemon_ok d \<longleftrightarrow> mg_valid (da_mgr d) \<and> mg_current (da_mgr d) = Some (s_backend (da_sync d)) \<and>
     mt_backend (da_mut d) = s_backend (da_sync d) \<and> mg_epoch (da_mgr d) = s_epoch (da_sync d) \<and>
     mt_epoch (da_mut d) = s_epoch (da_sync d) \<and> \<not> mt_draining (da_mut d)"

section \<open>Frames\<close>

text \<open>Nothing but the file, the secret and its presence flag.\<close>

definition same_backend :: "('s, 'w) daemon \<Rightarrow> ('s, 'w) daemon \<Rightarrow> bool" where
  "same_backend d d' \<longleftrightarrow> da_sync d' = da_sync d \<and> da_mut d' = da_mut d \<and>
     (\<exists>b. da_mgr d' = (da_mgr d)\<lparr>mg_hasSecret := b\<rparr>)"

lemma manager_self: "\<exists>b. m = m\<lparr>mg_hasSecret := b\<rparr>"
  by (rule exI[of _ "mg_hasSecret m"]) simp

lemma same_backend_refl: "same_backend d d"
  by (simp add: same_backend_def manager_self)

lemma same_backend_trans: "same_backend d1 d2 \<Longrightarrow> same_backend d2 d3 \<Longrightarrow> same_backend d1 d3"
  by (auto simp: same_backend_def)

lemma same_backend_upd:
  "same_backend (d\<lparr>da_fs := x\<rparr>) d' \<longleftrightarrow> same_backend d d'"
  "same_backend (d\<lparr>da_sec := y\<rparr>) d' \<longleftrightarrow> same_backend d d'"
  "same_backend d (d'\<lparr>da_fs := x\<rparr>) \<longleftrightarrow> same_backend d d'"
  "same_backend d (d'\<lparr>da_sec := y\<rparr>) \<longleftrightarrow> same_backend d d'"
  by (simp_all add: same_backend_def)

lemma rollbackSecret_frame:
  "same_backend d (rollbackSecret env prev d)" "da_fs (rollbackSecret env prev d) = da_fs d"
  by (auto simp: rollbackSecret_def same_backend_def manager_self split: option.splits prod.splits bool.splits)

lemma rollbackStoreBytes_frame:
  "same_backend d (rollbackStoreBytes env before d)"
  "da_sec (rollbackStoreBytes env before d) = da_sec d"
  by (auto simp: rollbackStoreBytes_def same_backend_upd same_backend_refl)

lemma fail_tx_frame:
  "fail_tx env k mut prev st before d = (r, d') \<Longrightarrow> \<not> cr_ok r \<and> same_backend d d'"
  using rollbackSecret_frame(1)[of d env prev] rollbackStoreBytes_frame(1)[of d env before]
    rollbackStoreBytes_frame(1)[of "rollbackSecret env prev d" env before]
  by (auto simp: fail_tx_def rejection_def Let_def same_backend_refl intro: same_backend_trans
      split: if_splits)

lemma activate_ok: "activate p nxt ep c d = (r, d') \<Longrightarrow> cr_ok r"
  by (auto simp: activate_def Let_def)

text \<open>How the last part of a transaction ends.\<close>

lemma persist_cases:
  assumes "persist_and_switch env p nxt ep mut prev before d = (r, d')"
  obtains (save_failed) e fs1 where
      "SaveStore (e_marshal env) (e_saveFails env) (e_uid env) (e_path env) nxt (da_fs d) = (Some e, fs1)"
      "fail_tx env RejectStorageError mut prev False before (d\<lparr>da_fs := fs1\<rparr>) = (r, d')"
  | (build_failed) fs1 where
      "SaveStore (e_marshal env) (e_saveFails env) (e_uid env) (e_path env) nxt (da_fs d) = (None, fs1)"
      "fail_tx env RejectInvalidURL mut prev True before (d\<lparr>da_fs := fs1\<rparr>) = (r, d')"
  | (switched) fs1 c where
      "SaveStore (e_marshal env) (e_saveFails env) (e_uid env) (e_path env) nxt (da_fs d) = (None, fs1)"
      "buildClient env fs1 nxt ep = Some c" "activate p nxt ep c (d\<lparr>da_fs := fs1\<rparr>) = (r, d')"
proof -
  obtain e fs1 where sv: "SaveStore (e_marshal env) (e_saveFails env) (e_uid env) (e_path env) nxt (da_fs d) = (e, fs1)"
    by force
  show ?thesis
  proof (cases e)
    case None
    then show ?thesis
      using sv assms by (auto simp: persist_and_switch_def Let_def split: if_splits option.splits
          intro: build_failed switched)
  next
    case (Some x)
    then show ?thesis
      using sv assms by (auto simp: persist_and_switch_def intro: save_failed)
  qed
qed

lemma persist_frame:
  assumes "persist_and_switch env p nxt ep mut prev before d = (r, d')" "\<not> cr_ok r"
  shows "same_backend d d'"
  using assms(1)
  by (cases rule: persist_cases) (use assms(2) in \<open>auto dest!: fail_tx_frame activate_ok simp: same_backend_upd\<close>)

text \<open>How a transaction ends: before anything changed, or in its last part.\<close>

lemma configure_tx_cases:
  assumes "configure_tx env p ep d = (r, d')"
  obtains (early) s where "\<not> cr_ok r" "d' = d\<lparr>da_sec := s\<rparr>"
      "s = da_sec d \<or> s = snd (snapshot_secret env (cp_action p) (da_sec d)) \<or>
       (\<exists>v s1 b. snapshot_secret env (cp_action p) (da_sec d) = (Some v, s1) \<and> change_secret env p s1 = ((False, b), s))"
  | (late) before prev s1 mut s2 tls where
      "ReadStoreRaw (e_readFails env) (da_fs d) (e_path env) = Inr before"
      "snapshot_secret env (cp_action p) (da_sec d) = (Some prev, s1)"
      "resolveTLSOptions (tp_tls p) (tp_pin p) (da_mgr d) = Inr tls"
      "change_secret env p s1 = ((True, mut), s2)"
      "persist_and_switch env p (next_profile p ep tls) ep mut prev before (d\<lparr>da_sec := s2\<rparr>) = (r, d')"
proof (cases "ReadStoreRaw (e_readFails env) (da_fs d) (e_path env)")
  case (Inl e)
  then show ?thesis
    using assms by (intro early[of "da_sec d"]) (auto simp: configure_tx_def rejection_def)
next
  case (Inr before)
  note rd = this
  obtain sv s1 where sn: "snapshot_secret env (cp_action p) (da_sec d) = (sv, s1)" by force
  show ?thesis
  proof (cases sv)
    case None
    then show ?thesis
      using assms rd sn by (intro early[of s1]) (auto simp: configure_tx_def rejection_def)
  next
    case (Some prev)
    show ?thesis
    proof (cases "resolveTLSOptions (tp_tls p) (tp_pin p) (da_mgr d)")
      case (Inl e)
      then show ?thesis
        using assms rd sn Some by (intro early[of s1]) (auto simp: configure_tx_def rejection_def)
    next
      case (Inr tls)
      obtain ok mut s2 where ch: "change_secret env p s1 = ((ok, mut), s2)"
        by (metis surj_pair)
      show ?thesis
      proof (cases ok)
        case True
        then show ?thesis
          using assms rd sn Some Inr ch by (intro late) (auto simp: configure_tx_def)
      next
        case False
        then show ?thesis
          using assms rd sn Some Inr ch
          by (intro early[of s2]) (auto simp: configure_tx_def rejection_def)
      qed
    qed
  qed
qed

lemma configure_tx_frame:
  assumes "configure_tx env p ep d = (r, d')" "\<not> cr_ok r"
  shows "same_backend d d'"
  using assms(1)
proof (cases rule: configure_tx_cases)
  case (early s)
  then show ?thesis by (simp add: same_backend_upd same_backend_refl)
next
  case late
  then show ?thesis
    using persist_frame[OF late(5) assms(2)] by (simp add: same_backend_upd)
qed

text \<open>How a call ends.\<close>

lemma Configure_cases:
  assumes "Configure env p d = (r, d', lo)"
  obtains (refused) "\<not> cr_ok r" "d' = d" "lo = None"
  | (rejected) ep mu d1 where "cfg_check p = Inr ep" "BeginSwitch (da_mut d) = (True, mu)"
      "configure_tx env p ep (d\<lparr>da_mut := mu\<rparr>) = (r, d1)" "\<not> cr_ok r"
      "d' = d1\<lparr>da_mut := AbortSwitch (da_mut d1)\<rparr>" "lo = None"
  | (switched) ep mu where "cfg_check p = Inr ep" "BeginSwitch (da_mut d) = (True, mu)"
      "configure_tx env p ep (d\<lparr>da_mut := mu\<rparr>) = (r, d')" "cr_ok r" "lo = mg_current (da_mgr d)"
proof (cases "cfg_check p")
  case (Inl e)
  then show ?thesis
    using assms by (intro refused) (auto simp: Configure_def rejection_def)
next
  case (Inr ep)
  obtain ok mu where b: "BeginSwitch (da_mut d) = (ok, mu)" by force
  obtain r1 d1 where t: "configure_tx env p ep (d\<lparr>da_mut := mu\<rparr>) = (r1, d1)" by force
  show ?thesis
  proof (cases ok)
    case False
    then show ?thesis
      using assms Inr b drain.begin_refused[of "da_mut d" mu]
      by (intro refused) (auto simp: Configure_def rejection_def)
  next
    case True
    then show ?thesis
      using assms Inr b t by (auto simp: Configure_def intro: rejected switched split: if_splits)
  qed
qed

lemma Configure_frame:
  assumes "Configure env p d = (r, d', lo)" "\<not> cr_ok r"
  shows "same_backend d d' \<and> lo = None"
  using assms(1)
proof (cases rule: Configure_cases)
  case refused
  then show ?thesis by (simp add: same_backend_refl)
next
  case (rejected ep mu d1)
  have "same_backend (d\<lparr>da_mut := mu\<rparr>) d1"
    by (rule configure_tx_frame[OF rejected(3,4)])
  then show ?thesis
    using rejected(5,6) drain.abort_undoes[OF rejected(2)] by (simp add: same_backend_def)
next
  case switched
  then show ?thesis using assms(2) by simp
qed

text \<open>What a successful call went through.\<close>

lemma Configure_ok:
  assumes "Configure env p d = (r, d', lo)" "cr_ok r"
  obtains ep mu before prev s1 mut s2 tls nxt fs1 c where
    "cfg_check p = Inr ep" "BeginSwitch (da_mut d) = (True, mu)"
    "snapshot_secret env (cp_action p) (da_sec d) = (Some prev, s1)"
    "resolveTLSOptions (tp_tls p) (tp_pin p) (da_mgr d) = Inr tls"
    "change_secret env p s1 = ((True, mut), s2)" "nxt = next_profile p ep tls"
    "SaveStore (e_marshal env) (e_saveFails env) (e_uid env) (e_path env) nxt (da_fs d) = (None, fs1)"
    "buildClient env fs1 nxt ep = Some c"
    "activate p nxt ep c (d\<lparr>da_mut := mu, da_sec := s2, da_fs := fs1\<rparr>) = (r, d')"
    "lo = mg_current (da_mgr d)"
proof -
  have ok: "cr_ok r" by (rule assms(2))
  obtain ep mu where a: "cfg_check p = Inr ep" "BeginSwitch (da_mut d) = (True, mu)"
    "configure_tx env p ep (d\<lparr>da_mut := mu\<rparr>) = (r, d')" "lo = mg_current (da_mgr d)"
    using assms(1) by (cases rule: Configure_cases) (use ok in auto)
  obtain before prev s1 mut s2 tls where b:
    "snapshot_secret env (cp_action p) (da_sec d) = (Some prev, s1)"
    "resolveTLSOptions (tp_tls p) (tp_pin p) (da_mgr d) = Inr tls"
    "change_secret env p s1 = ((True, mut), s2)"
    "persist_and_switch env p (next_profile p ep tls) ep mut prev before (d\<lparr>da_mut := mu, da_sec := s2\<rparr>) = (r, d')"
    using a(3) by (cases rule: configure_tx_cases) (use ok in auto)
  obtain fs1 c where
    "SaveStore (e_marshal env) (e_saveFails env) (e_uid env) (e_path env) (next_profile p ep tls) (da_fs d) = (None, fs1)"
    "buildClient env fs1 (next_profile p ep tls) ep = Some c"
    "activate p (next_profile p ep tls) ep c (d\<lparr>da_mut := mu, da_sec := s2, da_fs := fs1\<rparr>) = (r, d')"
    using b(4) by (cases rule: persist_cases) (use ok in \<open>auto dest: fail_tx_frame\<close>)
  with a b show ?thesis
    by (intro that) simp_all
qed

section \<open>Undoing\<close>

definition file_data :: "fs \<Rightarrow> path \<Rightarrow> string option" where
  "file_data fs path = (case fs path of Some (NFile _ _ data) \<Rightarrow> Some data | _ \<Rightarrow> None)"

lemma ReadStoreRaw_data:
  assumes "ReadStoreRaw fails fs path = Inr before"
  shows "before = file_data fs path" "before = None \<Longrightarrow> fs path = None"
  using assms
  by (auto simp: ReadStoreRaw_def openProfileForRead_def file_data_def split: if_splits option.splits node.splits)

lemma rollbackStoreBytes_undoes:
  assumes "good_path (e_path env)" "fs_tree fs" "e_undoFails env = (\<lambda>_. False)"
    and "SaveStoreRaw fails (e_uid env) (e_path env) data fs = (None, fs1)"
    and "ReadStoreRaw rf fs (e_path env) = Inr before" "da_fs d = fs1"
  shows "file_data (da_fs (rollbackStoreBytes env before d)) (e_path env) = file_data fs (e_path env)"
proof (cases before)
  case None
  have "fs1 (e_path env) = Some (NFile 384 (e_uid env) data)"
    using save_is_atomic_raw[OF assms(1,4)] by simp
  then show ?thesis
    using None assms(3,6) ReadStoreRaw_data[OF assms(5)]
    by (simp add: rollbackStoreBytes_def removeStore_def file_data_def)
next
  case (Some old)
  then have "fs (e_path env) \<noteq> None"
    using ReadStoreRaw_data(1)[OF assms(5)] by (auto simp: file_data_def split: option.splits)
  note again = save_again[OF assms(4,1,2) this, of old]
  show ?thesis
    using Some again assms(3,6) ReadStoreRaw_data(1)[OF assms(5)] tmp_path_neq[OF assms(1)]
    by (simp add: rollbackStoreBytes_def file_data_def)
qed

text \<open>Even when a system call of the rollback fails, the file is one of the two complete files.\<close>

lemma rollbackStoreBytes_either:
  assumes "good_path (e_path env)"
    and "SaveStoreRaw fails (e_uid env) (e_path env) data fs = (None, fs1)"
    and "ReadStoreRaw rf fs (e_path env) = Inr before" "da_fs d = fs1"
  shows "file_data (da_fs (rollbackStoreBytes env before d)) (e_path env) \<in> {file_data fs (e_path env), Some data}"
proof -
  have new: "fs1 (e_path env) = Some (NFile 384 (e_uid env) data)"
    using save_is_atomic_raw[OF assms(1,2)] by simp
  note old = ReadStoreRaw_data[OF assms(3)]
  show ?thesis
  proof (cases before)
    case None
    then show ?thesis
      using new old assms(4) by (auto simp: rollbackStoreBytes_def removeStore_def file_data_def)
  next
    case (Some x)
    obtain e fs2 where again: "SaveStoreRaw (e_undoFails env) (e_uid env) (e_path env) x fs1 = (e, fs2)" by force
    show ?thesis
      using Some new old(1) assms(4) save_is_atomic_raw[OF assms(1) again]
      by (cases e) (simp_all add: rollbackStoreBytes_def again file_data_def)
  qed
qed

lemma fail_tx_result:
  assumes "fail_tx env k mut prev st before d = (r, d')"
  shows "da_sec d' = (if mut then da_sec (rollbackSecret env prev d) else da_sec d)"
    "da_fs d' = (if st then da_fs (rollbackStoreBytes env before d) else da_fs d)"
  using assms
  by (auto simp: fail_tx_def Let_def rollbackStoreBytes_def rollbackSecret_frame(2) split: option.splits)

lemma rollbackSecret_result:
  "da_sec (rollbackSecret env prev d) =
     snd (case prev of Some x \<Rightarrow> e_store env x (da_sec d) | None \<Rightarrow> e_delete env (da_sec d))"
  by (auto simp: rollbackSecret_def split: option.splits prod.splits bool.splits)

context steady_provider
begin

lemma snapshot_keeps:
  assumes "e_get env = get" "snapshot_secret env act s = (v, s1)"
  shows "stored s1 = stored s"
  using assms get_keeps by (auto simp: snapshot_secret_def split: if_splits)

lemma change_failed:
  assumes "e_store env = store" "e_delete env = delete" "change_secret env p s = ((False, b), s1)"
  shows "stored s1 = stored s"
  using assms store_failed delete_failed by (auto simp: change_secret_def split: if_splits prod.splits)

lemma change_ok:
  assumes "e_store env = store" "e_delete env = delete" "change_secret env p s = ((True, b), s1)"
  shows "if b then (if cp_action p = ''replace'' then stored s1 = Some (case tp_password p of None \<Rightarrow> [] | Some pw \<Rightarrow> pw)
      else stored s1 = None \<and> cp_action p = ''delete'') else s1 = s \<and> cp_action p \<noteq> ''replace'' \<and> cp_action p \<noteq> ''delete''"
  using assms store_ok delete_ok by (auto simp: change_secret_def split: if_splits prod.splits)

lemma rollback_secret:
  assumes "e_store env = store" "e_get env = get" "e_delete env = delete"
    and "snapshot_secret env (cp_action p) s = (Some prev, s1)"
    and "change_secret env p s1 = ((True, True), s2)" "da_sec d = s2"
  shows "stored (da_sec (rollbackSecret env prev d)) = stored s"
proof -
  have g: "get s = (Some prev, s1)" and c: "(\<exists>x. store x s1 = (True, s2)) \<or> delete s1 = (True, s2)"
    using assms by (auto simp: snapshot_secret_def change_secret_def split: if_splits prod.splits)
  from c obtain s3 where
    "(case prev of Some x \<Rightarrow> store x s2 | None \<Rightarrow> delete s2) = (True, s3)" "stored s3 = stored s"
    using undo_works[OF g] by blast
  then show ?thesis
    unfolding rollbackSecret_result assms by simp
qed

text \<open>A transaction that is rejected leaves the secret as it found it.\<close>

lemma tx_restores_secret:
  assumes env: "e_store env = store" "e_get env = get" "e_delete env = delete"
    and tx: "configure_tx env p ep d = (r, d')" "\<not> cr_ok r"
  shows "stored (da_sec d') = stored (da_sec d)"
  using tx(1)
proof (cases rule: configure_tx_cases)
  case (early s)
  then show ?thesis
    using snapshot_keeps[OF env(2)] change_failed[OF env(1,3)]
    by (cases "snapshot_secret env (cp_action p) (da_sec d)") fastforce
next
  case (late before prev s1 mut s2 tls)
  have secret: "stored (da_sec (rollbackSecret env prev x)) = stored (da_sec d)" if "mut" "da_sec x = s2" for x
    using rollback_secret[OF env late(2), of s2 x] late(4) that by simp
  have kept: "stored s2 = stored (da_sec d)" if "\<not> mut"
    using change_ok[OF env(1,3) late(4)] that snapshot_keeps[OF env(2) late(2)] by simp
  from late(5) show ?thesis
  proof (cases rule: persist_cases)
    case (save_failed e fs1)
    then show ?thesis using fail_tx_result[OF save_failed(2)] secret kept by auto
  next
    case (build_failed fs1)
    then show ?thesis using fail_tx_result[OF build_failed(2)] secret kept by auto
  next
    case (switched fs1 c)
    then show ?thesis using activate_ok tx(2) by blast
  qed
qed

end

text \<open>It leaves the file as it found it when the system calls of the rollback succeed; when one fails, the
  file may be the new one, complete.\<close>

lemma tx_restores_file:
  assumes good: "good_path (e_path env)"
    and tx: "configure_tx env p ep d = (r, d')" "\<not> cr_ok r"
  shows "\<exists>ep' tls. file_data (da_fs d') (e_path env) \<in>
      {file_data (da_fs d) (e_path env), Some (e_marshal env (next_profile p ep' tls) @ [CHR 0x0A])}"
    "fs_tree (da_fs d) \<Longrightarrow> e_undoFails env = (\<lambda>_. False) \<Longrightarrow>
      file_data (da_fs d') (e_path env) = file_data (da_fs d) (e_path env)"
proof -
  have "(\<exists>ep' tls. file_data (da_fs d') (e_path env) \<in>
        {file_data (da_fs d) (e_path env), Some (e_marshal env (next_profile p ep' tls) @ [CHR 0x0A])}) \<and>
      (fs_tree (da_fs d) \<longrightarrow> e_undoFails env = (\<lambda>_. False) \<longrightarrow>
        file_data (da_fs d') (e_path env) = file_data (da_fs d) (e_path env))"
    using tx(1)
  proof (cases rule: configure_tx_cases)
    case (early s)
    then show ?thesis by auto
  next
    case (late before prev s1 mut s2 tls)
    from late(5) show ?thesis
    proof (cases rule: persist_cases)
      case (save_failed e fs1)
      then have "file_data fs1 (e_path env) = file_data (da_fs d) (e_path env)"
        using save_is_atomic_raw[OF good] by (fastforce simp: SaveStore_def file_data_def split: sum.splits)
      then show ?thesis using fail_tx_result[OF save_failed(2)] by auto
    next
      case (build_failed fs1)
      then have sv: "SaveStoreRaw (e_saveFails env) (e_uid env) (e_path env)
          (e_marshal env (next_profile p ep tls) @ [CHR 0x0A]) (da_fs d) = (None, fs1)"
        by (auto simp: SaveStore_def split: sum.splits)
      show ?thesis
        using fail_tx_result(2)[OF build_failed(2)] rollbackStoreBytes_either[OF good sv late(1), of "d\<lparr>da_sec := s2, da_fs := fs1\<rparr>"]
          rollbackStoreBytes_undoes[OF good _ _ sv late(1), of "d\<lparr>da_sec := s2, da_fs := fs1\<rparr>"]
        by (intro conjI exI[of _ ep] exI[of _ tls]) simp_all
    next
      case (switched fs1 c)
      then show ?thesis using activate_ok tx(2) by blast
    qed
  qed
  then show "\<exists>ep' tls. file_data (da_fs d') (e_path env) \<in>
      {file_data (da_fs d) (e_path env), Some (e_marshal env (next_profile p ep' tls) @ [CHR 0x0A])}"
    "fs_tree (da_fs d) \<Longrightarrow> e_undoFails env = (\<lambda>_. False) \<Longrightarrow>
      file_data (da_fs d') (e_path env) = file_data (da_fs d) (e_path env)" by simp_all
qed

section \<open>Properties\<close>

lemma configure_refines_raw:
  assumes "daemon_ok d" "Configure env p d = (r, d', lo)"
  shows "daemon_ok d' \<and>
    (if cr_ok r
     then (\<exists>ep tls c fs. ValidateURL (tp_url p) = Inr ep \<and>
        resolveTLSOptions (tp_tls p) (tp_pin p) (da_mgr d) = Inr tls \<and>
        buildClient env fs (next_profile p ep tls) ep = Some c \<and> \<not> httpPolicyError ep (tp_ack p) \<and>
        active_of d' = spec_switch (next_profile p ep tls) ep c (active_of d)) \<and>
        cr_epoch r = Suc (ac_epoch (active_of d)) \<and> lo = Some (ac_client (active_of d))
     else active_of d' = active_of d \<and> lo = None)"
proof (cases "cr_ok r")
  case False
  note fr = Configure_frame[OF assms(2) False]
  then show ?thesis
    using assms(1) False by (auto simp: same_backend_def daemon_ok_def active_of_def)
next
  case True
  obtain ep mu s2 tls fs1 c where a:
    "cfg_check p = Inr ep" "BeginSwitch (da_mut d) = (True, mu)"
    "resolveTLSOptions (tp_tls p) (tp_pin p) (da_mgr d) = Inr tls"
    "buildClient env fs1 (next_profile p ep tls) ep = Some c"
    "activate p (next_profile p ep tls) ep c (d\<lparr>da_mut := mu, da_sec := s2, da_fs := fs1\<rparr>) = (r, d')"
    "lo = mg_current (da_mgr d)"
    by (rule Configure_ok[OF assms(2) True]) simp
  have u: "ValidateURL (tp_url p) = Inr ep" "\<not> httpPolicyError ep (tp_ack p)"
    using a(1) by (auto simp: cfg_check_def split: sum.splits if_splits)
  note mu = drain.begin_frame[OF a(2)]
  have d': "mg_current (da_mgr d') = Some c" "mg_profile (da_mgr d') = next_profile p ep tls"
    "mg_endpoint (da_mgr d') = ep" "mg_valid (da_mgr d')" "mg_epoch (da_mgr d') = Suc (mg_epoch (da_mgr d))"
    "da_sync d' = SwitchBackend c (da_sync d)" "da_mut d' = CommitSwap c mu" "cr_epoch r = Suc (mg_epoch (da_mgr d))"
    using a(5) by (auto simp: activate_def Let_def)
  have "daemon_ok d'"
    using assms(1) mu unfolding daemon_ok_def
    by (simp add: d' switch_fields drain.commit_backend drain.commit_epoch drain.commit_releases)
  moreover have "active_of d' = spec_switch (next_profile p ep tls) ep c (active_of d)"
    by (simp add: active_of_def spec_switch_def d' switch_fields)
  moreover have "cr_epoch r = Suc (ac_epoch (active_of d))" "lo = Some (ac_client (active_of d))"
    using assms(1) a(6) by (simp_all add: d' daemon_ok_def active_of_def)
  ultimately show ?thesis
    using True u a(3,4) by auto
qed

text \<open>
  C3. \<^verbatim>\<open>Configure\<close> refines an atomic register of the active backend: a rejected call leaves it alone
  and logs nothing out; a successful one writes the requested profile with the client built for
  it and increments the epoch, hands the superseded client to the logout, and reports the new
  epoch. Manager, syncer and mutator agree before and after, and nobody is left holding the drain.
\<close>

theorem configure_refines_register:
  assumes "daemon_ok d" "Configure env p d = (r, d', lo)"
  shows "daemon_ok d' \<and>
    (if cr_ok r
     then (\<exists>ep tls c fs. ValidateURL (tp_url p) = Inr ep \<and>
        resolveTLSOptions (tp_tls p) (tp_pin p) (da_mgr d) = Inr tls \<and>
        buildClient env fs (next_profile p ep tls) ep = Some c \<and>
        active_of d' = spec_switch (next_profile p ep tls) ep c (active_of d)) \<and>
        cr_epoch r = Suc (ac_epoch (active_of d)) \<and> lo = Some (ac_client (active_of d))
     else active_of d' = active_of d \<and> lo = None)"
  using configure_refines_raw[OF assms] by (cases "cr_ok r"; simp only: if_True if_False simp_thms; blast)

text \<open>
  C14. What a rejected \<^verbatim>\<open>Configure\<close> leaves behind, wherever in the transaction it failed. The syncer, the
  mutator, the active profile and the client in use are untouched, always. The stored secret is the one from
  before if the provider keeps its contract and can undo a change it has just made. The profile file is
  the one from before if the system calls of the rollback succeed; the rollback is best effort, and when one of
  its calls fails the file may stay the new one, but it is always one of the two complete files.
\<close>

theorem rejected_configure_restores:
  assumes "Configure env p d = (r, d', lo)" "\<not> cr_ok r"
  shows "da_sync d' = da_sync d \<and> da_mut d' = da_mut d \<and> active_of d' = active_of d \<and>
    mg_current (da_mgr d') = mg_current (da_mgr d) \<and> lo = None \<and>
    (steady_provider (e_store env) (e_get env) (e_delete env) stored \<longrightarrow> stored (da_sec d') = stored (da_sec d)) \<and>
    (good_path (e_path env) \<longrightarrow>
      (\<exists>ep' tls. file_data (da_fs d') (e_path env) \<in>
         {file_data (da_fs d) (e_path env), Some (e_marshal env (next_profile p ep' tls) @ [CHR 0x0A])}) \<and>
      (fs_tree (da_fs d) \<and> e_undoFails env = (\<lambda>_. False) \<longrightarrow>
         file_data (da_fs d') (e_path env) = file_data (da_fs d) (e_path env)))"
proof -
  note fr = Configure_frame[OF assms]
  have "(steady_provider (e_store env) (e_get env) (e_delete env) stored \<longrightarrow> stored (da_sec d') = stored (da_sec d)) \<and>
    (good_path (e_path env) \<longrightarrow>
      (\<exists>ep' tls. file_data (da_fs d') (e_path env) \<in>
         {file_data (da_fs d) (e_path env), Some (e_marshal env (next_profile p ep' tls) @ [CHR 0x0A])}) \<and>
      (fs_tree (da_fs d) \<and> e_undoFails env = (\<lambda>_. False) \<longrightarrow>
         file_data (da_fs d') (e_path env) = file_data (da_fs d) (e_path env)))"
    using assms(1)
  proof (cases rule: Configure_cases)
    case (rejected ep mu d1)
    then show ?thesis
      using steady_provider.tx_restores_secret[OF _ refl refl refl rejected(3,4)]
        tx_restores_file[OF _ rejected(3,4)] by simp
  qed (use assms(2) in simp_all)
  then show ?thesis
    using fr by (auto simp: same_backend_def active_of_def)
qed

lemma successful_configure_raw:
  assumes "steady_provider (e_store env) (e_get env) (e_delete env) stored" "good_path (e_path env)"
    and "Configure env p d = (r, d', lo)" "cr_ok r"
  shows "InFlight (da_mut d) = 0 \<and> \<not> mt_draining (da_mut d') \<and>
    (\<exists>ep. Validate (mg_profile (da_mgr d')) = Inr ep) \<and>
    file_data (da_fs d') (e_path env) = Some (e_marshal env (mg_profile (da_mgr d')) @ [CHR 0x0A]) \<and>
    mg_current (da_mgr d') = Some (s_backend (da_sync d')) \<and>
    mt_backend (da_mut d') = s_backend (da_sync d') \<and>
    \<not> st_ok (s_cur (da_sync d')) \<and> st_torrents (s_cur (da_sync d')) = m_empty \<and>
    (if cp_action p = ''replace'' then stored (da_sec d') = tp_password p \<and> mg_hasSecret (da_mgr d')
     else if cp_action p = ''delete'' then stored (da_sec d') = None \<and> \<not> mg_hasSecret (da_mgr d')
     else stored (da_sec d') = stored (da_sec d) \<and> mg_hasSecret (da_mgr d') = mg_hasSecret (da_mgr d))"
proof -
  obtain ep mu prev s1 mut s2 tls fs1 c where a:
    "cfg_check p = Inr ep" "BeginSwitch (da_mut d) = (True, mu)"
    "snapshot_secret env (cp_action p) (da_sec d) = (Some prev, s1)"
    "change_secret env p s1 = ((True, mut), s2)"
    "SaveStore (e_marshal env) (e_saveFails env) (e_uid env) (e_path env) (next_profile p ep tls) (da_fs d) = (None, fs1)"
    "activate p (next_profile p ep tls) ep c (d\<lparr>da_mut := mu, da_sec := s2, da_fs := fs1\<rparr>) = (r, d')"
    by (rule Configure_ok[OF assms(3,4)]) simp
  have d': "mg_profile (da_mgr d') = next_profile p ep tls" "mg_current (da_mgr d') = Some c"
    "da_sync d' = SwitchBackend c (da_sync d)" "da_mut d' = CommitSwap c mu" "da_sec d' = s2" "da_fs d' = fs1"
    "mg_hasSecret (da_mgr d') = (if cp_action p = ''replace'' then True
       else if cp_action p = ''delete'' then False else mg_hasSecret (da_mgr d))"
    using a(6) by (auto simp: activate_def Let_def)
  have saved: "(\<exists>v. Validate (next_profile p ep tls) = Inr v) \<and>
      file_data fs1 (e_path env) = Some (e_marshal env (next_profile p ep tls) @ [CHR 0x0A])"
    using a(5) save_is_atomic_raw[OF assms(2), of "e_saveFails env" "e_uid env" _ "da_fs d" None fs1]
    by (auto simp: SaveStore_def file_data_def split: sum.splits)
  have pw: "cp_action p = ''replace'' \<longrightarrow> tp_password p \<noteq> None"
    using a(1) by (auto simp: cfg_check_def split: sum.splits if_splits)
  note ch = steady_provider.change_ok[OF assms(1) refl refl a(4)]
  note sn = steady_provider.snapshot_keeps[OF assms(1) refl a(3)]
  have idle: "InFlight (da_mut d) = 0"
    using a(2) by (auto simp: BeginSwitch_def InFlight_def split: if_splits)
  have changed: "mut \<longleftrightarrow> cp_action p = ''replace'' \<or> cp_action p = ''delete''"
    using ch by (auto split: if_splits)
  have "stored s2 = (if cp_action p = ''replace'' then tp_password p
      else if cp_action p = ''delete'' then None else stored (da_sec d))"
    using ch pw sn unfolding changed by (cases "tp_password p") (auto split: if_splits)
  then show ?thesis
    using saved by (simp add: d' idle switch_fields switched_fields drain.commit_backend
        drain.commit_releases)
qed

text \<open>
  A successful \<^verbatim>\<open>Configure\<close>: no mutation was in flight; the profile file holds the encoding of the
  new, valid profile with mode 0600; the manager, the syncer and the mutator use one and the same
  new client; the torrents of the old backend are gone and the connection counts as down until
  the new one answered; the drain is released; the stored secret and the presence flag follow the
  requested action.
\<close>

theorem successful_configure_commits:
  assumes "steady_provider (e_store env) (e_get env) (e_delete env) stored" "good_path (e_path env)"
    and "Configure env p d = (r, d', lo)" "cr_ok r"
  shows "InFlight (da_mut d) = 0 \<and> \<not> mt_draining (da_mut d') \<and>
    (\<exists>ep. Validate (mg_profile (da_mgr d')) = Inr ep) \<and>
    file_data (da_fs d') (e_path env) = Some (e_marshal env (mg_profile (da_mgr d')) @ [CHR 0x0A]) \<and>
    mg_current (da_mgr d') = Some (s_backend (da_sync d')) \<and>
    mt_backend (da_mut d') = s_backend (da_sync d') \<and>
    \<not> st_ok (s_cur (da_sync d')) \<and> st_torrents (s_cur (da_sync d')) = m_empty \<and>
    (if cp_action p = ''replace'' then stored (da_sec d') = tp_password p \<and> mg_hasSecret (da_mgr d')
     else if cp_action p = ''delete'' then stored (da_sec d') = None \<and> \<not> mg_hasSecret (da_mgr d')
     else stored (da_sec d') = stored (da_sec d) \<and> mg_hasSecret (da_mgr d') = mg_hasSecret (da_mgr d))"
  using assms by (rule successful_configure_raw)

text \<open>
  C40. A client that has been superseded still logs in with whatever secret is stored: after a successful
  \<^verbatim>\<open>Configure\<close> with a new password, a request of the old client (of a cycle or a submission that straddles the
  switch) that finds its session expired posts the new password to the old backend.
\<close>

theorem superseded_client_gets_new_password:
  assumes "steady_provider (e_store env) (e_get env) (e_delete env) stored" "good_path (e_path env)"
    and "Configure env p d = (r, d', lo)" "cr_ok r" "cp_action p = ''replace''" "tp_password p = Some pw"
    and "lo = Some old" "buildClient env fs0 oldp oldep = Some old" "pf_user oldp \<noteq> []"
    and "e_fetch env w = (Some (stored (da_sec d')), w)"
    and "act w = (Inl (Wrapped ErrUnauthorized), w)"
  shows "\<exists>r2 w2. n_send net (cl_tls old) \<lparr>hq_method = ''POST'', hq_url = login_url old,
        hq_form = [(''username'', pf_user oldp), (''password'', pw)]\<rparr> w = (r2, w2) \<and>
      with_relogin net old act w = (case login_result (n_sha net) r2 of Some le \<Rightarrow> (Inl le, w2) | None \<Rightarrow> act w2)"
proof -
  have st: "stored (da_sec d') = Some pw"
    using successful_configure_raw[OF assms(1-4)] assms(5,6) by simp
  have "pw \<noteq> []" 
    using assms(3-6) by (auto simp: Configure_def cfg_check_def rejection_def split: sum.splits if_splits)
  moreover have "cl_user old = pf_user oldp" "cl_fetch old = Some (provider_fetcher (e_fetch env))"
    using assms(8,9) by (auto simp: buildClient_def NewConfigurable_def split: sum.splits option.splits if_splits)
  ultimately show ?thesis
    using assms(9-11) st
    by (cases "n_send net (cl_tls old) \<lparr>hq_method = ''POST'', hq_url = login_url old,
        hq_form = [(''username'', pf_user oldp), (''password'', pw)]\<rparr> w")
      (auto simp: with_relogin_def Login_def login_password_def provider_fetcher_def split: option.splits)
qed

section \<open>Witnesses\<close>

definition wc_client :: "nat client" where
  "wc_client = \<lparr>cl_base = ''http://127.0.0.1:8080'', cl_user = [], cl_tls = SystemRoots, cl_fetch = None\<rparr>"

definition wc_fs :: fs where
  "wc_fs = full_fs(home_path \<mapsto> NFile 384 1000 ''old'')"

definition wc_env :: "bool \<Rightarrow> (fake, nat) env" where
  "wc_env b = \<lparr>e_path = home_path, e_uid = 1000, e_readFails = (\<lambda>_. False), e_saveFails = (\<lambda>_. False),
     e_undoFails = (\<lambda>_. False), e_store = fake_Store, e_get = fake_Get, e_delete = fake_Delete,
     e_fetch = (\<lambda>w. (Some None, w)), e_marshal = toy_marshal, e_certs = (\<lambda>_. False),
     e_caPath = (\<lambda>_. []), e_hook = (\<lambda>_. b)\<rparr>"

definition wc_params :: configure_params where
  "wc_params = \<lparr>tp_url = ''http://127.0.0.1:8080'', tp_user = [], tp_password = Some ''new'', tp_stored = False,
     tp_tls = [], tp_pin = [], tp_ack = False, cp_action = ''replace''\<rparr>"

definition wc_daemon :: "(fake, nat) daemon" where
  "wc_daemon = \<lparr>da_mgr = (new_manager DefaultProfile local_endpoint)\<lparr>mg_current := Some wc_client\<rparr>,
     da_sync = new_syncer wc_client,
     da_mut = new_mutator wc_client \<lparr>mo_submit = 0, mo_window = 0, mo_max = 0, mo_ring = 0\<rparr>,
     da_sec = \<lparr>fk_secret = Some ''was'', fk_unavailable = False, fk_stores = 0, fk_gets = 0, fk_deletes = 0\<rparr>,
     da_fs = wc_fs\<rparr>"

lemma wc_check: "cfg_check wc_params = Inr local_endpoint"
  using default_endpoint
  by (simp add: cfg_check_def wc_params_def Validate_ok DefaultProfile_def validateTLSRequest_def)

lemma wc_next: "next_profile wc_params local_endpoint tls = DefaultProfile"
  by (simp add: next_profile_def wc_params_def local_endpoint_def DefaultProfile_def TLSPin_def)

lemma wc_save: "SaveStoreRaw (\<lambda>_. False) 1000 home_path data wc_fs =
    (None, wc_fs(home_path \<mapsto> NFile 384 1000 data, tmp_path home_path := None))"
  by (simp add: SaveStoreRaw_def ensurePrivateDir_def configRoot_def home_path_def home_fs_def wc_fs_def
      full_fs_def tmp_path_def TmpName_def is_dir_def node_perm_def)

lemma wc_read: "ReadStoreRaw (\<lambda>_. False) wc_fs home_path = Inr (Some ''old'')"
  by (simp add: ReadStoreRaw_def openProfileForRead_def refuseSymlinkedDir_def home_path_def wc_fs_def
      full_fs_def home_fs_def node_perm_def private_mode_def MaxProfileBytes_def)

lemma wc_url: "map_option (\<lambda>u. (pu_scheme u, pu_host u, pu_user u, url_String u))
    (url_Parse (trim_right (CHR ''/'') ''http://127.0.0.1:8080'')) =
    Some (''http'', ''127.0.0.1:8080'', False, ''http://127.0.0.1:8080'')"
  by code_simp

lemma wc_env_simps:
  "e_path (wc_env b) = home_path" "e_uid (wc_env b) = 1000" "e_readFails (wc_env b) = (\<lambda>_. False)"
  "e_saveFails (wc_env b) = (\<lambda>_. False)" "e_undoFails (wc_env b) = (\<lambda>_. False)"
  "e_store (wc_env b) = fake_Store" "e_get (wc_env b) = fake_Get" "e_delete (wc_env b) = fake_Delete"
  "e_marshal (wc_env b) = toy_marshal" "e_hook (wc_env b) = (\<lambda>_. b)"
  by (simp_all add: wc_env_def)

lemma wc_daemon_simps:
  "da_fs wc_daemon = wc_fs"
  "da_sec wc_daemon = \<lparr>fk_secret = Some ''was'', fk_unavailable = False, fk_stores = 0, fk_gets = 0, fk_deletes = 0\<rparr>"
  "mg_epoch (da_mgr wc_daemon) = 0"
  by (simp_all add: wc_daemon_def new_manager_def)

lemma wc_params_simps: "cp_action wc_params = ''replace''" "tp_password wc_params = Some ''new''" "tp_tls wc_params = []"
  by (simp_all add: wc_params_def)

lemma wc_build: "buildClient (wc_env b) fs DefaultProfile local_endpoint = Some wc_client"
proof -
  have "NewConfigurable (\<lambda>_. False) \<lparr>cc_url = ''http://127.0.0.1:8080'', cc_user = [],
      cc_fetch = (None :: nat secret_fetcher option),
      cc_tls = \<lparr>to_mode = ''system'', to_ca = [], to_pin = [], to_pem = []\<rparr>\<rparr> = Some wc_client"
    using wc_url by (auto simp: NewConfigurable_def BuildTLSConfig_def wc_client_def)
  then show ?thesis
    by (simp add: buildClient_def DefaultProfile_def wc_env_def local_endpoint_def TLSSystem_def TLSCA_def)
qed

lemma wc_begin: "BeginSwitch (da_mut wc_daemon) = (True, (da_mut wc_daemon)\<lparr>mt_draining := True\<rparr>)"
  by (simp add: BeginSwitch_def wc_daemon_def new_mutator_def gm.len_empty)

lemmas wc_run = Configure_def wc_check wc_begin configure_tx_def snapshot_secret_def change_secret_def
  resolveTLSOptions_def persist_and_switch_def wc_next SaveStore_def default_endpoint wc_build
  wc_env_simps wc_daemon_simps wc_params_simps wc_read wc_save fake_Store_def fake_Get_def

lemma wc_tree: "fs_tree wc_fs"
  by (auto simp: fs_tree_def wc_fs_def full_fs_def home_fs_def home_path_def is_dir_def)

lemma wc_ok: "\<exists>d' lo. Configure (wc_env False) wc_params wc_daemon =
    (\<lparr>cr_ok = True, cr_rejection = [], cr_epoch = 1, cr_mode = ''local'', cr_host = ''127.0.0.1:8080'',
      cr_transport = ''http''\<rparr>, d', lo)"
proof -
  have "truncateRunes ''127.0.0.1:8080'' 128 = ''127.0.0.1:8080''" by code_simp
  then show ?thesis
    by (simp add: wc_run activate_def mode_of_def) (simp add: local_endpoint_def)
qed

lemma wc_rejected: "\<exists>d' lo. Configure (wc_env True) wc_params wc_daemon = (rejection RejectInvalidURL, d', lo)"
  by (simp add: wc_run fail_tx_def rejection_def)

lemma wc_daemon_ok: "daemon_ok wc_daemon"
  by (simp add: daemon_ok_def wc_daemon_def new_manager_def new_syncer_def new_mutator_def)

theorem configure_refines_register_witness:
  "\<exists>d' r lo. Configure (wc_env False) wc_params wc_daemon = (r, d', lo) \<and> daemon_ok d' \<and> lo = Some wc_client"
proof -
  obtain r d' lo where c: "Configure (wc_env False) wc_params wc_daemon = (r, d', lo)" "cr_ok r"
    using wc_ok by force
  then have "daemon_ok d' \<and> lo = Some (ac_client (active_of wc_daemon))"
    using configure_refines_register[OF wc_daemon_ok c(1)] by simp
  moreover have "ac_client (active_of wc_daemon) = wc_client"
    by (simp add: active_of_def wc_daemon_def new_syncer_def)
  ultimately show ?thesis using c by auto
qed

theorem rejected_configure_restores_witness:
  "\<exists>d' lo. Configure (wc_env True) wc_params wc_daemon = (rejection RejectInvalidURL, d', lo) \<and>
     fk_secret (da_sec d') = Some ''was'' \<and> file_data (da_fs d') home_path = Some ''old''"
proof -
  obtain d' lo where c: "Configure (wc_env True) wc_params wc_daemon = (rejection RejectInvalidURL, d', lo)"
    using wc_rejected by blast
  have "steady_provider (e_store (wc_env True)) (e_get (wc_env True)) (e_delete (wc_env True)) fk_secret"
    by (simp add: wc_env_def steady.steady_provider_axioms)
  from rejected_configure_restores[OF c, of fk_secret] this show ?thesis
    using c home_good wc_tree by (simp add: wc_env_def wc_daemon_def rejection_def) (simp add: file_data_def wc_fs_def)
qed

theorem successful_configure_commits_witness:
  "\<exists>r d' lo. Configure (wc_env False) wc_params wc_daemon = (r, d', lo) \<and>
     fk_secret (da_sec d') = Some ''new'' \<and> \<not> st_ok (s_cur (da_sync d'))"
proof -
  obtain r d' lo where c: "Configure (wc_env False) wc_params wc_daemon = (r, d', lo)" "cr_ok r"
    using wc_ok by force
  have "steady_provider (e_store (wc_env False)) (e_get (wc_env False)) (e_delete (wc_env False)) fk_secret"
    by (simp add: wc_env_def steady.steady_provider_axioms)
  from successful_configure_commits[OF this _ c] show ?thesis
    using c home_good by (simp add: wc_env_def wc_params_def)
qed

text \<open>A daemon whose client logs in as bob, and a world in which the stored secret can be fetched.\<close>

definition wu_profile :: profile where
  "wu_profile = DefaultProfile\<lparr>pf_user := ''bob''\<rparr>"

definition wu_env :: "(fake, nat) env" where
  "wu_env = (wc_env False)\<lparr>e_fetch := (\<lambda>w. (Some (Some ''new''), w))\<rparr>"

definition wu_client :: "nat client" where
  "wu_client = \<lparr>cl_base = ''http://127.0.0.1:8080'', cl_user = ''bob'', cl_tls = SystemRoots,
     cl_fetch = Some (provider_fetcher (\<lambda>w. (Some (Some ''new''), w)))\<rparr>"

definition wu_daemon :: "(fake, nat) daemon" where
  "wu_daemon = wc_daemon\<lparr>da_mgr := (da_mgr wc_daemon)\<lparr>mg_current := Some wu_client\<rparr>\<rparr>"

lemma wu_build: "buildClient wu_env fs wu_profile local_endpoint = Some wu_client"
  "buildClient wu_env fs DefaultProfile local_endpoint = Some wc_client"
  using wc_url
  by (auto simp: buildClient_def wu_profile_def DefaultProfile_def wu_env_def wc_env_def local_endpoint_def TLSSystem_def TLSCA_def
      NewConfigurable_def BuildTLSConfig_def wu_client_def wc_client_def)

lemma wu_simps: "da_fs wu_daemon = da_fs wc_daemon" "da_sec wu_daemon = da_sec wc_daemon" "da_mut wu_daemon = da_mut wc_daemon"
  "mg_current (da_mgr wu_daemon) = Some wu_client" "mg_epoch (da_mgr wu_daemon) = 0"
  "e_path wu_env = home_path" "e_uid wu_env = 1000" "e_readFails wu_env = (\<lambda>_. False)" "e_saveFails wu_env = (\<lambda>_. False)"
  "e_store wu_env = fake_Store" "e_get wu_env = fake_Get" "e_delete wu_env = fake_Delete"
  "e_marshal wu_env = toy_marshal" "e_hook wu_env = (\<lambda>_. False)"
  by (simp_all add: wu_daemon_def wu_env_def wc_env_def wc_daemon_def new_manager_def)

theorem superseded_client_gets_new_password_witness:
  "\<exists>r2 w2. n_send \<lparr>n_send = (\<lambda>tls rq w. (Inr \<lparr>hr_status = 204, hr_body = [], hr_broken = False\<rparr>, w + length (hq_form rq))), n_sha = (\<lambda>_. [])\<rparr>
     SystemRoots \<lparr>hq_method = ''POST'', hq_url = login_url wu_client, hq_form = [(''username'', ''bob''), (''password'', ''new'')]\<rparr> (7::nat) = (r2, w2) \<and>
     with_relogin \<lparr>n_send = (\<lambda>tls rq w. (Inr \<lparr>hr_status = 204, hr_body = [], hr_broken = False\<rparr>, w + length (hq_form rq))), n_sha = (\<lambda>_. [])\<rparr>
       wu_client (\<lambda>w. (Inl (Wrapped ErrUnauthorized), w)) 7 = (Inl (Wrapped ErrUnauthorized), w2)"
proof -
  obtain r d' lo where c: "Configure wu_env wc_params wu_daemon = (r, d', lo)" by (metis surj_pair)
  have ok: "cr_ok r" "lo = Some wu_client" "fk_secret (da_sec d') = Some ''new''"
    using c by (auto simp: wc_run wu_simps wu_build activate_def Let_def)
  have st: "steady_provider (e_store wu_env) (e_get wu_env) (e_delete wu_env) fk_secret"
    by (simp add: wu_simps steady.steady_provider_axioms)
  have f: "e_fetch wu_env 7 = (Some (fk_secret (da_sec d')), 7)" by (simp add: wu_env_def ok(3))
  have g: "good_path (e_path wu_env)" using home_good by (simp add: wu_simps)
  have u: "pf_user wu_profile \<noteq> []" by (simp add: wu_profile_def)
  from superseded_client_gets_new_password[OF st g c ok(1) _ _ ok(2) wu_build(1) u f, of "''new''" "\<lambda>w. (Inl (Wrapped ErrUnauthorized), w)"
      "\<lparr>n_send = (\<lambda>tls rq w. (Inr \<lparr>hr_status = 204, hr_body = [], hr_broken = False\<rparr>, w + length (hq_form rq))), n_sha = (\<lambda>_. [])\<rparr>"]
  show ?thesis
    by (simp add: wc_params_simps wu_client_def wu_profile_def login_result_def)
qed

end
