(* ===== verification/ManagerProps.thy ===== *)
theory ManagerProps
  imports Manager
begin

text \<open>
  What the connection manager reports and caches: status tokens, the agreement of a connection
  test with the live status, the bounded cache of offered certificates, the pacing of logins by
  tests, and the wiped password of a test with the stored secret.
\<close>

section \<open>The cache of offered certificates\<close>

definition offered_ok :: "'w manager \<Rightarrow> bool" where
  "offered_ok m \<longleftrightarrow> m_ok (mg_offered m) \<and> distinct (mg_offeredIO m) \<and>
     set (m_keys (mg_offered m)) = set (mg_offeredIO m) \<and> length (mg_offeredIO m) \<le> offeredCacheCap \<and>
     (\<forall>fp der. m_get (mg_offered m) fp = Some der \<longrightarrow> fp \<noteq> [] \<and> der \<noteq> [] \<and> length der \<le> offeredDERCap)"

lemma offered_ok_new: "offered_ok (new_manager p ep)"
  by (simp add: offered_ok_def new_manager_def gomap_simps)

lemma offered_ok_put:
  assumes "offered_ok m" "fp \<noteq> []" "der \<noteq> []" "length der \<le> offeredDERCap"
  shows "m_get (mg_offered m) fp \<noteq> None \<Longrightarrow> offered_ok (m\<lparr>mg_offered := m_put fp der (mg_offered m)\<rparr>)"
    "m_get (mg_offered m) fp = None \<Longrightarrow> length (mg_offeredIO m) < offeredCacheCap \<Longrightarrow>
      offered_ok (m\<lparr>mg_offered := m_put fp der (mg_offered m), mg_offeredIO := mg_offeredIO m @ [fp]\<rparr>)"
proof -
  have k: "k \<in> set (mg_offeredIO m) \<longleftrightarrow> m_get (mg_offered m) k \<noteq> None" for k
    using assms(1) gm.in_keys[of k "mg_offered m"] by (simp add: offered_ok_def)
  show "offered_ok (m\<lparr>mg_offered := m_put fp der (mg_offered m)\<rparr>)" if "m_get (mg_offered m) fp \<noteq> None"
    using assms k[of fp] that by (auto simp: offered_ok_def gomap_simps)
  show "offered_ok (m\<lparr>mg_offered := m_put fp der (mg_offered m), mg_offeredIO := mg_offeredIO m @ [fp]\<rparr>)"
    if "m_get (mg_offered m) fp = None" "length (mg_offeredIO m) < offeredCacheCap"
    using assms k[of fp] that by (auto simp: offered_ok_def gomap_simps)
qed

lemma offered_ok_evict:
  assumes "offered_ok m" "mg_offeredIO m \<noteq> []"
  shows "offered_ok (m\<lparr>mg_offeredIO := tl (mg_offeredIO m), mg_offered := m_del (hd (mg_offeredIO m)) (mg_offered m)\<rparr>)"
  using assms by (cases "mg_offeredIO m") (auto simp: offered_ok_def gomap_simps)

lemma offered_ok_cache: "offered_ok m \<Longrightarrow> offered_ok (cacheOffered fp der m)"
proof -
  assume ok: "offered_ok m"
  show ?thesis
  proof (cases "fp = [] \<or> der = [] \<or> length der > offeredDERCap \<or> m_get (mg_offered m) fp \<noteq> None")
    case True
    then show ?thesis
      using ok offered_ok_put(1)[OF ok] by (auto simp: cacheOffered_def)
  next
    case False
    then have f: "fp \<noteq> []" "der \<noteq> []" "length der \<le> offeredDERCap" "m_get (mg_offered m) fp = None"
      by auto
    define m1 where "m1 = (if length (mg_offeredIO m) \<ge> offeredCacheCap
      then m\<lparr>mg_offeredIO := tl (mg_offeredIO m), mg_offered := m_del (hd (mg_offeredIO m)) (mg_offered m)\<rparr> else m)"
    have "offered_ok m1"
    proof (cases "length (mg_offeredIO m) \<ge> offeredCacheCap")
      case True
      then have "mg_offeredIO m \<noteq> []" by (auto simp: offeredCacheCap_def)
      then show ?thesis using offered_ok_evict[OF ok] True by (simp add: m1_def)
    qed (simp add: m1_def ok)
    moreover have "length (mg_offeredIO m1) < offeredCacheCap"
      using ok by (auto simp: m1_def offeredCacheCap_def offered_ok_def)
    moreover have "m_get (mg_offered m1) fp = None"
      using f(4) by (simp add: m1_def gomap_simps)
    ultimately show ?thesis
      using offered_ok_put(2)[of m1 fp der] f by (simp add: cacheOffered_def m1_def[symmetric] Let_def)
  qed
qed

lemma offered_ok_classify: "classifyTestErr e ep m = (r, m') \<Longrightarrow> offered_ok m \<Longrightarrow> offered_ok m'"
  by (auto simp: classifyTestErr_def Let_def offered_ok_cache split: err.splits if_splits)

lemma offered_ok_probe: "offered_ok m \<Longrightarrow> probe net c l ep m w = (r, m', w') \<Longrightarrow> offered_ok m'"
  by (auto simp: probe_def Let_def intro: offered_ok_classify split: prod.splits option.splits sum.splits if_splits)

lemma offered_ok_stamp: "offered_ok (m\<lparr>mg_testAt := x\<rparr>) \<longleftrightarrow> offered_ok m"
  by (simp add: offered_ok_def)

lemma offered_ok_gate: "offered_ok m \<Longrightarrow> pace_gate now m = (b, m') \<Longrightarrow> offered_ok m'"
  by (auto simp: pace_gate_def Let_def offered_ok_stamp split: if_splits)

text \<open>
  The cache of offered certificates never holds more than eight entries, each with a certificate
  of at most 64 KiB, and its order list names exactly the cached fingerprints; a connection test
  keeps it so, whatever the server offered.
\<close>

theorem offered_cache_bounded:
  assumes "offered_ok m" "Test env net p now b m w = (r, m', w')"
  shows "offered_ok m' \<and> m_len (mg_offered m') \<le> 8"
proof -
  have "offered_ok m'"
    using assms offered_ok_gate[OF assms(1), of now] offered_ok_probe
    by (auto simp: Test_def Let_def split: sum.splits if_splits option.splits prod.splits)
  moreover from this have "m_len (mg_offered m') = length (mg_offeredIO m')"
    unfolding offered_ok_def by (metis gm.len_card distinct_card)
  ultimately show ?thesis
    by (simp add: offered_ok_def offeredCacheCap_def)
qed

section \<open>Status\<close>

text \<open>
  The status of \<^verbatim>\<open>connection.status\<close> is one of the documented tokens, is \<^verbatim>\<open>connected\<close> exactly when
  the profile is valid and the last cycle succeeded, and carries the active epoch; the host shown
  has at most 128 characters.
\<close>

theorem status_truthful:
  "su_status (Status m cur) \<in> {StatusConnecting, StatusConnected, StatusUnreachable, StatusAuthRequired,
     StatusAuthFailed, StatusBanned, StatusTLSUntrusted, StatusTLSHostname, StatusSecretsUnavailable,
     StatusInvalidConfig, StatusBackendError} \<and>
   (su_status (Status m cur) = StatusConnected \<longleftrightarrow> mg_valid m \<and> st_ok cur) \<and>
   su_epoch (Status m cur) = mg_epoch m \<and> length (runes (su_host (Status m cur))) \<le> 128"
  by (simp add: Status_def Let_def mapErrorClass_def length_truncateRunes split: prod.split)
    (simp add: status_names)

definition adapter_error :: "err \<Rightarrow> bool" where
  "adapter_error e \<longleftrightarrow> (case e of TLSError t \<Rightarrow> te_class t = ErrTLSUntrusted \<or> te_class t = ErrTLSHostname
     | Wrapped c \<Rightarrow> c \<noteq> ErrTLSUntrusted \<and> c \<noteq> ErrTLSHostname | Opaque _ \<Rightarrow> True)"

text \<open>
  A connection test and the live status agree: for every error an adapter produces, the token
  that the test reports is the token the status shows after a cycle that failed with it.
\<close>

theorem test_agrees_with_status:
  assumes "adapter_error e" "mg_valid m"
  shows "tr_status (fst (classifyTestErr e ep m)) = su_status (Status m (degraded_state e prev))"
proof (cases e)
  case (TLSError t)
  then show ?thesis
    using assms by (auto simp: adapter_error_def classifyTestErr_def Let_def Status_def degraded_state_def
        classify_def mapErrorClass_def class_names no_result_def)
next
  case (Wrapped c)
  then show ?thesis
    using assms by (cases c) (simp_all add: adapter_error_def classifyTestErr_def Let_def Status_def degraded_state_def
        classify_def mapErrorClass_def class_names no_result_def)
next
  case (Opaque s)
  then show ?thesis
    using assms by (simp add: classifyTestErr_def Let_def Status_def degraded_state_def
        classify_def mapErrorClass_def class_names no_result_def)
qed

section \<open>Pacing\<close>

text \<open>
  A test with a password that comes within the pacing window of an earlier one is refused
  without any contact with the backend and leaves the manager as it is.
\<close>

theorem test_logins_paced:
  assumes "tp_password p = Some pw" "tp_user p \<noteq> []" "mg_testAt m = Some t" "t \<le> now" "now < t + mg_testPace m"
    and "Test env net p now b m w = (r, m', w')"
  shows "\<not> tr_ok r \<and> m' = m \<and> w' = w"
proof -
  have "pace_gate now m = (True, m)"
    using assms(3-5) by (auto simp: pace_gate_def Let_def)
  then show ?thesis
    using assms(1,2,6) by (auto simp: Test_def Let_def resolveSecret_def no_result_def
        split: sum.splits if_splits option.splits)
qed

section \<open>The stored password\<close>

text \<open>
  A test that is to use the stored password does not: \<^verbatim>\<open>resolveSecret\<close> wipes the buffer when it
  returns, and the closure it returned copies that buffer when the login asks for the password,
  so the password sent consists of NUL bytes.
\<close>

theorem stored_password_test_sends_nul:
  assumes "tp_password p = None" "tp_stored p" "tp_user p \<noteq> []" "get w = (Some (Some x), w1)"
  shows "\<exists>src b1. resolveSecret get p b w = (Inr src, b1, w1) \<and> src \<noteq> NoSource \<and>
    read_source src b1 = replicate (length x) (CHR 0x00)"
  using assms by (simp add: resolveSecret_def alloc_def wipe_buffer_def Wipe_def read_source_def map_replicate_const)

section \<open>Witnesses\<close>

definition wm_url :: string where
  "wm_url = ''https://127.0.0.1:8443''"

definition wm_ep :: endpoint where
  "wm_ep = \<lparr>ep_url = wm_url, ep_scheme = ''https'', ep_hostname = ''127.0.0.1'', ep_host = ''127.0.0.1:8443'',
     ep_path = [], ep_loopback = True\<rparr>"

lemma wm_validate: "ValidateURL wm_url = Inr wm_ep"
  by code_simp

lemma wm_parse: "map_option (\<lambda>u. (pu_scheme u, pu_host u, pu_user u, url_String u))
    (url_Parse (trim_right (CHR ''/'') wm_url)) = Some (''https'', ''127.0.0.1:8443'', False, wm_url)"
  by code_simp

lemma wm_text: "(let v = trim_space ''v5''; r = runes v in (Inr (if length r > 64 then of_runes (take 64 r) else v) :: err + string, w :: string)) =
    (Inr ''v5'', w)"
proof -
  have "trim_space ''v5'' = ''v5''" "length (runes ''v5'') \<le> 64" by code_simp+
  then show ?thesis by simp
qed

lemma wm_hex: "hex_of_bytes [7] = ''07''"
  by code_simp

lemma wm_http: "\<not> httpPolicyError wm_ep b"
  by (simp add: httpPolicyError_def InsecureTransport_def wm_ep_def)

lemma wm_client:
  "ft \<noteq> None \<or> user = [] \<Longrightarrow> NewConfigurable certs \<lparr>cc_url = wm_url, cc_user = user, cc_fetch = ft,
     cc_tls = \<lparr>to_mode = ''system'', to_ca = [], to_pin = [], to_pem = []\<rparr>\<rparr> =
   Some \<lparr>cl_base = wm_url, cl_user = user, cl_tls = SystemRoots, cl_fetch = ft\<rparr>"
  using wm_parse by (auto simp: NewConfigurable_def BuildTLSConfig_def)

definition wm_params :: test_params where
  "wm_params = \<lparr>tp_url = wm_url, tp_user = ''u'', tp_password = None, tp_stored = True, tp_tls = [], tp_pin = [],
     tp_ack = False\<rparr>"

definition wm_env :: "(nat, string) env" where
  "wm_env = \<lparr>e_path = [], e_uid = 0, e_readFails = (\<lambda>_. False), e_saveFails = (\<lambda>_. False),
     e_undoFails = (\<lambda>_. False), e_store = (\<lambda>_ s. (False, s)), e_get = (\<lambda>s. (None, s)),
     e_delete = (\<lambda>s. (False, s)), e_fetch = (\<lambda>w. (Some (Some w), w)), e_marshal = (\<lambda>_. []),
     e_certs = (\<lambda>_. False), e_caPath = (\<lambda>_. []), e_hook = (\<lambda>_. False)\<rparr>"

text \<open>A backend whose password is the stored secret (the world), and one with a self-signed certificate.\<close>

definition wm_net :: "string net" where
  "wm_net = \<lparr>n_send = (\<lambda>tls rq w. (Inr \<lparr>hr_status = 200,
     hr_body = (if hq_form rq = [] then ''v5'' else if hq_form rq = [(''username'', ''u''), (''password'', w)]
       then ''Ok.'' else ''Fails.''), hr_broken = False\<rparr>, w)), n_sha = (\<lambda>_. replicate 32 7)\<rparr>"

definition wm_selfsigned :: "string net" where
  "wm_selfsigned = \<lparr>n_send = (\<lambda>tls rq w. (Inl (CertVerification UnknownAuthority [''der'']), w)),
     n_sha = (\<lambda>_. [7])\<rparr>"

definition wm_manager :: "string manager" where
  "wm_manager = new_manager DefaultProfile local_endpoint"

definition wm_buffers :: buffers where
  "wm_buffers = \<lparr>bf_mem = (\<lambda>_. []), bf_next = 0\<rparr>"

lemmas wm_run = Test_def wm_validate wm_http validateTLSRequest_def resolveTLSOptions_def resolveSecret_def
  wm_client pace_gate_def probe_def Login_def login_password_def login_result_def alloc_def wipe_buffer_def
  read_source_def Wipe_def wm_params_def wm_env_def wm_manager_def new_manager_def AppVersion_def WebAPIVersion_def
  getText_def fetch_def with_relogin_def doFetch_def fetch_result_def transportErr_def classifyTLS_def

text \<open>The stored password is the right one and the test fails; the same password typed in passes.\<close>

theorem stored_password_test_sends_nul_witness:
  "tr_status (fst (Test wm_env wm_net wm_params 0 wm_buffers wm_manager ''pw'')) = StatusAuthFailed \<and>
   tr_status (fst (Test wm_env wm_net (wm_params\<lparr>tp_password := Some ''pw''\<rparr>) 0 wm_buffers wm_manager ''pw'')) =
     StatusConnected \<and>
   (\<exists>src b. resolveSecret (e_fetch wm_env) wm_params wm_buffers ''pw'' = (Inr src, b, ''pw'') \<and>
      read_source src b = [CHR 0x00, CHR 0x00])"
proof (intro conjI)
  have ep: "ep_url wm_ep = wm_url" "ep_scheme wm_ep = ''https''" by (simp_all add: wm_ep_def)
  show "tr_status (fst (Test wm_env wm_net wm_params 0 wm_buffers wm_manager ''pw'')) = StatusAuthFailed"
    by (simp add: wm_run ep wm_net_def wm_buffers_def classifyTestErr_def no_result_def)
  show "tr_status (fst (Test wm_env wm_net (wm_params\<lparr>tp_password := Some ''pw''\<rparr>) 0 wm_buffers wm_manager ''pw'')) =
      StatusConnected"
    by (simp add: wm_run ep wm_net_def no_result_def wm_text)
  have "tp_password wm_params = None" "tp_stored wm_params" "tp_user wm_params \<noteq> []"
    "e_fetch wm_env ''pw'' = (Some (Some ''pw''), ''pw'')"
    by (simp_all add: wm_params_def wm_env_def)
  note hyps = this
  from stored_password_test_sends_nul[where p = wm_params and get = "e_fetch wm_env" and w = "''pw''" and
      x = "''pw''" and ?w1.0 = "''pw''" and b = wm_buffers, OF hyps]
  show "\<exists>src b. resolveSecret (e_fetch wm_env) wm_params wm_buffers ''pw'' = (Inr src, b, ''pw'') \<and>
      read_source src b = [CHR 0x00, CHR 0x00]"
    by auto
qed

theorem test_logins_paced_witness:
  "snd (snd (Test wm_env wm_net (wm_params\<lparr>tp_password := Some ''pw''\<rparr>) 1 wm_buffers
     (wm_manager\<lparr>mg_testAt := Some 0\<rparr>) ''pw'')) = ''pw''"
proof -
  let ?t = "Test wm_env wm_net (wm_params\<lparr>tp_password := Some ''pw''\<rparr>) 1 wm_buffers (wm_manager\<lparr>mg_testAt := Some 0\<rparr>) ''pw''"
  have "?t = (fst ?t, fst (snd ?t), snd (snd ?t))" by simp
  from test_logins_paced[OF _ _ _ _ _ this] show ?thesis
    by (simp add: wm_params_def wm_manager_def new_manager_def testLoginWindow_def)
qed

theorem offered_cache_bounded_witness:
  "\<exists>r m' w'. Test wm_env wm_selfsigned (wm_params\<lparr>tp_user := []\<rparr>) 0 wm_buffers wm_manager [] = (r, m', w') \<and>
     tr_offered r = ''07'' \<and> offered_ok m'"
proof -
  have ep: "ep_url wm_ep = wm_url" "ep_scheme wm_ep = ''https''" by (simp_all add: wm_ep_def)
  obtain r m' w' where t: "Test wm_env wm_selfsigned (wm_params\<lparr>tp_user := []\<rparr>) 0 wm_buffers wm_manager [] = (r, m', w')"
    by (metis surj_pair)
  have "tr_offered (fst (Test wm_env wm_selfsigned (wm_params\<lparr>tp_user := []\<rparr>) 0 wm_buffers wm_manager [])) = ''07''"
    by (simp add: wm_run ep wm_selfsigned_def classifyTestErr_def no_result_def Fingerprint_def wm_hex)
  moreover have "offered_ok wm_manager"
    by (simp add: wm_manager_def offered_ok_new)
  ultimately show ?thesis
    using offered_cache_bounded[OF _ t] t by auto
qed

theorem test_agrees_with_status_witness:
  "su_status (Status wm_manager (degraded_state (Wrapped ErrBanned) zero_state)) = StatusBanned"
  using test_agrees_with_status[where e = "Wrapped ErrBanned" and m = wm_manager and prev = zero_state]
  by (simp add: adapter_error_def wm_manager_def new_manager_def classifyTestErr_def no_result_def)

end
