(* ===== verification/Json.thy ===== *)
theory Json
  imports GoText
begin

text \<open>
  JSON as the service uses it: \<open>marshal\<close> is \<^verbatim>\<open>json.Marshal\<close> on the response structs (keys in
  declaration order, strings escaped with the HTML-safe table of encoding/json, invalid UTF-8
  replaced), \<open>lex\<close> and \<open>object_members\<close> are what the token interface of \<^verbatim>\<open>json.Decoder\<close> accepts for
  one object: its keys and values in order, duplicates included. A value that is an array or an
  object is only checked and skipped (\<open>VOther\<close>), as no field of a request has such a value.

  The decimal form of a \<^verbatim>\<open>float64\<close> is an argument (\<open>ff\<close>).
\<close>

section \<open>Characters\<close>

abbreviation quote :: char where "quote \<equiv> CHR 0x22"
abbreviation bslash :: char where "bslash \<equiv> CHR 0x5C"

section \<open>Encoding\<close>

text \<open>One rune: its bytes, or an escape. \<open>w\<close> are the bytes it was decoded from.\<close>

definition escape_rune :: "rune \<Rightarrow> nat list \<Rightarrow> string" where
  "escape_rune r w =
     (if r < 128 then
        (if r = 34 \<or> r = 92 then [bslash, char_of r]
         else if r = 8 then [bslash, CHR ''b''] else if r = 12 then [bslash, CHR ''f'']
         else if r = 10 then [bslash, CHR ''n''] else if r = 13 then [bslash, CHR ''r'']
         else if r = 9 then [bslash, CHR ''t'']
         else if r < 32 \<or> r = 60 \<or> r = 62 \<or> r = 38
         then bslash # ''u00'' @ [lower_hex_digit (r div 16), lower_hex_digit (r mod 16)]
         else [char_of r])
      else if r = rune_error \<and> length w = 1 then bslash # ''ufffd''
      else if r = 8232 then bslash # ''u2028'' else if r = 8233 then bslash # ''u2029''
      else of_bytes w)"

function escape_bytes :: "nat list \<Rightarrow> string" where
  "escape_bytes bs =
     (if bs = [] then []
      else escape_rune (fst (decode_rune bs)) (take (snd (decode_rune bs)) bs)
           @ escape_bytes (drop (snd (decode_rune bs)) bs))"
  by pat_completeness auto
termination
  by (relation "measure length") (auto simp: decode_rune_width)

declare escape_bytes.simps [simp del]

definition encode_string :: "string \<Rightarrow> string" where
  "encode_string s = quote # escape_bytes (bytes s) @ [quote]"

definition int_string :: "int \<Rightarrow> string" where
  "int_string i = (if i < 0 then CHR ''-'' # nat_string (nat (- i)) else nat_string (nat i))"

datatype json = JStr string | JInt int | JFloat real | JBool bool | JList "json list"
  | JObj "(string \<times> json) list"

fun marshal :: "(real \<Rightarrow> string) \<Rightarrow> json \<Rightarrow> string"
and marshal_list :: "(real \<Rightarrow> string) \<Rightarrow> json list \<Rightarrow> string"
and marshal_fields :: "(real \<Rightarrow> string) \<Rightarrow> (string \<times> json) list \<Rightarrow> string" where
  "marshal ff (JStr s) = encode_string s"
| "marshal ff (JInt i) = int_string i"
| "marshal ff (JFloat x) = ff x"
| "marshal ff (JBool b) = (if b then ''true'' else ''false'')"
| "marshal ff (JList vs) = ''['' @ marshal_list ff vs @ '']''"
| "marshal ff (JObj fs) = ''{'' @ marshal_fields ff fs @ ''}''"
| "marshal_list ff [] = []"
| "marshal_list ff (v # vs) = marshal ff v @ (if vs = [] then [] else '','' @ marshal_list ff vs)"
| "marshal_fields ff [] = []"
| "marshal_fields ff ((k, v) # fs) =
     encode_string k @ '':'' @ marshal ff v @ (if fs = [] then [] else '','' @ marshal_fields ff fs)"

section \<open>Tokens\<close>

datatype token = LBrace | RBrace | LBracket | RBracket | Colon | Comma | TStr string | TNum string
  | TTrue | TFalse | TNull

definition is_ws :: "char \<Rightarrow> bool" where
  "is_ws c \<longleftrightarrow> of_char c \<in> {32 :: nat, 9, 10, 13}"

text \<open>The four hexadecimal digits of \<^verbatim>\<open>\u\<close> (\<^verbatim>\<open>getu4\<close>).\<close>

definition hex4 :: "string \<Rightarrow> nat option" where
  "hex4 s = (if length s < 4 \<or> \<not> list_all is_hex (take 4 s) then None
     else Some (foldl (\<lambda>n c. n * 16 + hex_value c) 0 (take 4 s)))"

text \<open>A low surrogate escape directly after a high one (\<^verbatim>\<open>utf16.DecodeRune\<close>).\<close>

definition surrogate :: "nat \<Rightarrow> bool" where
  "surrogate r \<longleftrightarrow> 55296 \<le> r \<and> r < 57344"

definition surrogate_pair :: "nat \<Rightarrow> string \<Rightarrow> rune option" where
  "surrogate_pair hi s =
     (if 55296 \<le> hi \<and> hi < 56320 \<and> take 2 s = [bslash, CHR ''u'']
      then (case hex4 (drop 2 s) of
              None \<Rightarrow> None
            | Some lo \<Rightarrow> if 56320 \<le> lo \<and> lo < 57344
                         then Some (65536 + (hi - 55296) * 1024 + (lo - 56320)) else None)
      else None)"

definition simple_escape :: "char \<Rightarrow> char option" where
  "simple_escape c =
     (if c = quote \<or> c = bslash \<or> c = CHR ''/'' then Some c
      else if c = CHR ''b'' then Some (CHR 0x08) else if c = CHR ''f'' then Some (CHR 0x0C)
      else if c = CHR ''n'' then Some (CHR 0x0A) else if c = CHR ''r'' then Some (CHR 0x0D)
      else if c = CHR ''t'' then Some (CHR 0x09) else None)"

text \<open>The rest of a string literal after its opening quote: the decoded string and what follows.\<close>

function lex_string :: "string \<Rightarrow> (string \<times> string) option" where
  "lex_string s =
     (case s of
        [] \<Rightarrow> None
      | c # r \<Rightarrow>
          if c = quote then Some ([], r)
          else if c = bslash then
            (case r of
               [] \<Rightarrow> None
             | e # r' \<Rightarrow>
                 if e = CHR ''u'' then
                   (case hex4 r' of
                      None \<Rightarrow> None
                    | Some u \<Rightarrow>
                        (case surrogate_pair u (drop 4 r') of
                           Some x \<Rightarrow> map_option (apfst (append (of_bytes (encode_rune x)))) (lex_string (drop 10 r'))
                         | None \<Rightarrow> map_option (apfst (append (of_bytes (encode_rune
                             (if surrogate u then rune_error else u))))) (lex_string (drop 4 r'))))
                 else case simple_escape e of
                        None \<Rightarrow> None
                      | Some x \<Rightarrow> map_option (apfst (Cons x)) (lex_string r'))
          else if of_char c < (32 :: nat) then None
          else map_option (apfst (Cons c)) (lex_string r))"
  by pat_completeness auto
termination
  by (relation "measure length") auto

declare lex_string.simps [simp del]

text \<open>Number literals.\<close>

definition lex_digits :: "string \<Rightarrow> (string \<times> string) option" where
  "lex_digits s = (let ds = takeWhile is_digit s in if ds = [] then None else Some (ds, drop (length ds) s))"

definition lex_int :: "string \<Rightarrow> (string \<times> string) option" where
  "lex_int s = (if has_prefix ''0'' s then Some (''0'', drop 1 s) else lex_digits s)"

definition lex_frac :: "string \<Rightarrow> (string \<times> string) option" where
  "lex_frac s = (if has_prefix ''.'' s then map_option (apfst (Cons (CHR ''.''))) (lex_digits (drop 1 s))
     else Some ([], s))"

definition lex_exp :: "string \<Rightarrow> (string \<times> string) option" where
  "lex_exp s =
     (case s of
        [] \<Rightarrow> Some ([], s)
      | e # r \<Rightarrow>
          if e \<noteq> CHR ''e'' \<and> e \<noteq> CHR ''E'' then Some ([], s)
          else (case r of
              [] \<Rightarrow> None
            | c # r' \<Rightarrow>
                if c = CHR ''+'' \<or> c = CHR ''-'' then map_option (apfst (\<lambda>d. e # c # d)) (lex_digits r')
                else map_option (apfst (Cons e)) (lex_digits r)))"

definition lex_number :: "string \<Rightarrow> (string \<times> string) option" where
  "lex_number s =
     (let sign = (if has_prefix ''-'' s then ''-'' else []) in
      case lex_int (drop (length sign) s) of
        None \<Rightarrow> None
      | Some (i, r1) \<Rightarrow>
          (case lex_frac r1 of
             None \<Rightarrow> None
           | Some (f, r2) \<Rightarrow>
               (case lex_exp r2 of None \<Rightarrow> None | Some (e, r3) \<Rightarrow> Some (sign @ i @ f @ e, r3))))"

text \<open>One token; the first character is no white space.\<close>

definition lex_token :: "string \<Rightarrow> (token \<times> string) option" where
  "lex_token s =
     (case s of
        [] \<Rightarrow> None
      | c # r \<Rightarrow>
          if c = CHR ''{'' then Some (LBrace, r) else if c = CHR ''}'' then Some (RBrace, r)
          else if c = CHR ''['' then Some (LBracket, r) else if c = CHR '']'' then Some (RBracket, r)
          else if c = CHR '':'' then Some (Colon, r) else if c = CHR '','' then Some (Comma, r)
          else if c = quote then map_option (apfst TStr) (lex_string r)
          else if has_prefix ''true'' s then Some (TTrue, drop 4 s)
          else if has_prefix ''false'' s then Some (TFalse, drop 5 s)
          else if has_prefix ''null'' s then Some (TNull, drop 4 s)
          else map_option (apfst TNum) (lex_number s))"

section \<open>Objects\<close>

datatype jvalue = VStr string | VNum string | VTrue | VFalse | VNull | VOther

text \<open>What may come next inside a nested value; the stack tells objects (True) from arrays.\<close>

datatype expect = EFirstKey | EKey | EColon | EFirstElem | EValue | EEnd

fun nested :: "bool list \<Rightarrow> expect \<Rightarrow> token list \<Rightarrow> token list option" where
  "nested [] e ts = Some ts"
| "nested (b # st) e [] = None"
| "nested (b # st) e (t # ts) =
     (case e of
        EFirstKey \<Rightarrow> (case t of RBrace \<Rightarrow> nested st EEnd ts | TStr _ \<Rightarrow> nested (b # st) EColon ts | _ \<Rightarrow> None)
      | EKey \<Rightarrow> (case t of TStr _ \<Rightarrow> nested (b # st) EColon ts | _ \<Rightarrow> None)
      | EColon \<Rightarrow> (if t = Colon then nested (b # st) EValue ts else None)
      | EEnd \<Rightarrow> if t = Comma then nested (b # st) (if b then EKey else EValue) ts
               else if t = (if b then RBrace else RBracket) then nested st EEnd ts else None
      | _ \<Rightarrow> (case t of
            LBrace \<Rightarrow> nested (True # b # st) EFirstKey ts
          | LBracket \<Rightarrow> nested (False # b # st) EFirstElem ts
          | RBracket \<Rightarrow> if e = EFirstElem then nested st EEnd ts else None
          | RBrace \<Rightarrow> None | Colon \<Rightarrow> None | Comma \<Rightarrow> None
          | _ \<Rightarrow> nested (b # st) EEnd ts))"

definition value_of :: "token list \<Rightarrow> (jvalue \<times> token list) option" where
  "value_of ts =
     (case ts of
        [] \<Rightarrow> None
      | t # r \<Rightarrow>
          (case t of
             TStr s \<Rightarrow> Some (VStr s, r) | TNum n \<Rightarrow> Some (VNum n, r)
           | TTrue \<Rightarrow> Some (VTrue, r) | TFalse \<Rightarrow> Some (VFalse, r) | TNull \<Rightarrow> Some (VNull, r)
           | LBrace \<Rightarrow> map_option (Pair VOther) (nested [True] EFirstKey r)
           | LBracket \<Rightarrow> map_option (Pair VOther) (nested [False] EFirstElem r)
           | _ \<Rightarrow> None))"

lemma nested_length: "nested st e ts = Some r \<Longrightarrow> length r \<le> length ts"
  by (induction st e ts rule: nested.induct)
    (auto split: expect.splits token.splits if_splits)

lemma value_of_length: "value_of ts = Some (v, r) \<Longrightarrow> length r < length ts"
  by (auto simp: value_of_def dest!: nested_length split: list.splits token.splits)

text \<open>The members after the opening brace, and the tokens after the closing one.\<close>

function members :: "token list \<Rightarrow> ((string \<times> jvalue) list \<times> token list) option" where
  "members ts =
     (case ts of
        TStr k # Colon # r \<Rightarrow>
          (case value_of r of
             None \<Rightarrow> None
           | Some (v, r1) \<Rightarrow>
               (case r1 of
                  RBrace # r2 \<Rightarrow> Some ([(k, v)], r2)
                | Comma # r2 \<Rightarrow> map_option (apfst (Cons (k, v))) (members r2)
                | _ \<Rightarrow> None))
      | _ \<Rightarrow> None)"
  by pat_completeness auto
termination
  by (relation "measure length") (auto dest!: value_of_length)

declare members.simps [simp del]

text \<open>The whole text as tokens.\<close>

lemma lex_string_length: "lex_string s = Some (d, r) \<Longrightarrow> length r < length s"
proof (induction "length s" arbitrary: s d r rule: less_induct)
  case less
  obtain c t where s: "s = c # t"
    using less.prems by (cases s) (simp_all add: lex_string.simps)
  have IH: "length r < Suc (length t)" if "lex_string (drop n t) = Some (d', r)" for n d'
  proof -
    have "length (drop n t) < length s" by (simp add: s)
    from less.hyps[OF this that] show ?thesis by simp
  qed
  have IH0: "length r < Suc (length t)" if "lex_string t = Some (d', r)" for d'
    using IH[of 0 d'] that by simp
  have IH1: "length r < Suc (Suc (length u))" if "lex_string (drop n u) = Some (d', r)" "t = e # u" for n d' e u
    using IH[of "Suc n" d'] that by simp
  have IH2: "length r < Suc (Suc (length u))" if "lex_string u = Some (d', r)" "t = e # u" for d' e u
    using IH1[of 0 u d' e] that by simp
  show ?case
  proof (cases "c = bslash")
    case True
    then show ?thesis
      using less.prems unfolding s
      by (subst (asm) lex_string.simps) (auto split: list.splits if_splits option.splits intro: IH1 IH2)
  next
    case False
    then show ?thesis
      using less.prems unfolding s
      by (subst (asm) lex_string.simps) (auto split: if_splits intro: IH0)
  qed
qed

lemma lex_digits_length: "lex_digits s = Some (d, r) \<Longrightarrow> length r < length s"
  by (cases s) (auto simp: lex_digits_def Let_def split: if_splits)

lemma lex_number_length: "lex_number s = Some (d, r) \<Longrightarrow> length r < length s"
proof -
  assume a: "lex_number s = Some (d, r)"
  have frac: "length r \<le> length s" if "lex_frac s = Some (d, r)" for s d r
    using that lex_digits_length[of "drop 1 s"] by (fastforce simp: lex_frac_def split: if_splits)
  have expo: "length r \<le> length s" if "lex_exp s = Some (d, r)" for s d r
    using that by (auto simp: lex_exp_def split: list.splits if_splits dest!: lex_digits_length)
  have int: "length r < length s" if "lex_int s = Some (d, r)" for s d r
    using that by (cases s) (auto simp: lex_int_def has_prefix_def split: if_splits dest!: lex_digits_length)
  obtain i r1 f r2 e where "lex_int (drop (length (if has_prefix ''-'' s then ''-'' else [])) s) = Some (i, r1)"
    "lex_frac r1 = Some (f, r2)" "lex_exp r2 = Some (e, r)"
    using a by (auto simp: lex_number_def Let_def split: option.splits)
  from int[OF this(1)] frac[OF this(2)] expo[OF this(3)] show ?thesis
    by simp
qed

lemma lex_token_length: "lex_token s = Some (t, r) \<Longrightarrow> length r < length s"
  by (auto simp: lex_token_def split: list.splits if_splits dest!: lex_string_length lex_number_length)

function lex :: "string \<Rightarrow> token list option" where
  "lex s =
     (case dropWhile is_ws s of
        [] \<Rightarrow> Some []
      | c # r \<Rightarrow> (case lex_token (c # r) of None \<Rightarrow> None | Some (t, r') \<Rightarrow> map_option (Cons t) (lex r')))"
  by pat_completeness auto
termination
proof (relation "measure length")
  fix s c r x t r'
  assume "dropWhile is_ws s = c # r" "lex_token (c # r) = Some x" "(t, r') = x"
  then have "length r' < length (dropWhile is_ws s)"
    using lex_token_length[of "c # r" t r'] by simp
  then show "(r', s) \<in> measure length"
    using length_dropWhile_le[of is_ws s] by simp
qed simp

declare lex.simps [simp del]

text \<open>One object and nothing else: its members.\<close>

definition object_members :: "string \<Rightarrow> (string \<times> jvalue) list option" where
  "object_members s =
     (case lex s of
        Some (LBrace # RBrace # []) \<Rightarrow> Some []
      | Some (LBrace # ts) \<Rightarrow> (case members ts of Some (kvs, []) \<Rightarrow> Some kvs | _ \<Rightarrow> None)
      | _ \<Rightarrow> None)"

end
