(* ===== verification/Protocol.thy ===== *)
theory Protocol
  imports Json Dashboard Mutator
begin

text \<open>
  The wire protocol (internal/ipc/protocol.go): the strict request grammar \<open>parseFrame\<close> and the
  encoders of all responses and pushes. A frame is a string without its line feed. Every parse
  failure is the one error \<^verbatim>\<open>invalid_message\<close>, here \<open>None\<close>; the flags \<^verbatim>\<open>hasX\<close> of the code are
  the membership of the key in the list of keys seen.

  The wire mirrors of the dashboard records are the records of Dashboard themselves.
\<close>

section \<open>Names\<close>

definition MaxFrame :: nat where "MaxFrame = 4096"
definition ProtocolVersion :: int where "ProtocolVersion = 1"
definition ServiceName :: string where "ServiceName = ''omatorrent-service''"
definition NameCapRunes :: nat where "NameCapRunes = 512"
definition dashboardActiveNameCapRunes :: nat where "dashboardActiveNameCapRunes = 48"
definition dashboardVersionCapRunes :: nat where "dashboardVersionCapRunes = 64"
definition ActiveListWireCap :: nat where "ActiveListWireCap = 5"

definition CodeInvalidMessage :: string where "CodeInvalidMessage = ''invalid_message''"
definition CodeMessageTooLarge :: string where "CodeMessageTooLarge = ''message_too_large''"
definition CodeHandshakeRequired :: string where "CodeHandshakeRequired = ''handshake_required''"
definition CodeVersionMismatch :: string where "CodeVersionMismatch = ''version_mismatch''"
definition CodeUnsupported :: string where "CodeUnsupported = ''unsupported_message''"

lemmas wire_codes = CodeInvalidMessage_def CodeMessageTooLarge_def CodeHandshakeRequired_def
  CodeVersionMismatch_def CodeUnsupported_def

section \<open>Requests\<close>

record ipc_request =
  q_type :: string
  q_protocol :: int
  q_id :: int
  q_hash :: string
  q_url :: string
  q_delete :: bool
  q_ref :: string
  q_user :: string
  q_password :: string
  q_stored :: bool
  q_tls :: string
  q_pin :: string
  q_ack :: bool
  q_secret :: string

definition no_request :: ipc_request where
  "no_request = \<lparr>q_type = [], q_protocol = 0, q_id = 0, q_hash = [], q_url = [], q_delete = False,
     q_ref = [], q_user = [], q_password = [], q_stored = False, q_tls = [], q_pin = [],
     q_ack = False, q_secret = []\<rparr>"

text \<open>\<^verbatim>\<open>^[A-Za-z0-9._:-]{1,128}$\<close> and \<^verbatim>\<open>^[0-9a-f]{64}$\<close>\<close>

definition ref_char :: "char \<Rightarrow> bool" where
  "ref_char c \<longleftrightarrow> is_digit c \<or> (let n = of_char c :: nat in 65 \<le> n \<and> n \<le> 90 \<or> 97 \<le> n \<and> n \<le> 122)
     \<or> c \<in> set ''._:-''"

definition validRef :: "string \<Rightarrow> bool" where
  "validRef r \<longleftrightarrow> 1 \<le> length r \<and> length r \<le> 128 \<and> list_all ref_char r"

definition validPin :: "string \<Rightarrow> bool" where
  "validPin p \<longleftrightarrow> length p = 64 \<and> list_all is_lower_hex p"

text \<open>The decoded string, the integer and the boolean literal of a member, if it is one.\<close>

definition str_of :: "jvalue \<Rightarrow> (string \<Rightarrow> bool) \<Rightarrow> string option" where
  "str_of v ok = (case v of VStr s \<Rightarrow> if ok s then Some s else None | _ \<Rightarrow> None)"

definition int_of :: "jvalue \<Rightarrow> int option" where
  "int_of v = (case v of VNum n \<Rightarrow> atoi n | _ \<Rightarrow> None)"

definition bool_of :: "jvalue \<Rightarrow> bool option" where
  "bool_of v = (case v of VTrue \<Rightarrow> Some True | VFalse \<Rightarrow> Some False | _ \<Rightarrow> None)"

definition request_field :: "string \<Rightarrow> jvalue \<Rightarrow> ipc_request \<Rightarrow> ipc_request option" where
  "request_field key v q =
     (if key = ''type'' then map_option (\<lambda>s. q\<lparr>q_type := s\<rparr>) (str_of v (\<lambda>_. True))
      else if key = ''protocol'' then map_option (\<lambda>i. q\<lparr>q_protocol := i\<rparr>) (int_of v)
      else if key = ''id'' then map_option (\<lambda>i. q\<lparr>q_id := i\<rparr>) (int_of v)
      else if key = ''hash'' then map_option (\<lambda>s. q\<lparr>q_hash := s\<rparr>) (str_of v validHash)
      else if key = ''url'' then map_option (\<lambda>s. q\<lparr>q_url := s\<rparr>)
        (str_of v (\<lambda>s. 0 < length s \<and> length s \<le> 2048))
      else if key = ''delete_files'' then map_option (\<lambda>b. q\<lparr>q_delete := b\<rparr>) (bool_of v)
      else if key = ''ref'' then map_option (\<lambda>s. q\<lparr>q_ref := s\<rparr>) (str_of v validRef)
      else if key = ''username'' then map_option (\<lambda>s. q\<lparr>q_user := s\<rparr>) (str_of v (\<lambda>s. length s \<le> 64))
      else if key = ''password'' then map_option (\<lambda>s. q\<lparr>q_password := s\<rparr>)
        (str_of v (\<lambda>s. 0 < length s \<and> length s \<le> 256))
      else if key = ''use_stored_password'' then map_option (\<lambda>b. q\<lparr>q_stored := b\<rparr>) (bool_of v)
      else if key = ''tls_mode'' then map_option (\<lambda>s. q\<lparr>q_tls := s\<rparr>)
        (str_of v (\<lambda>s. s = ''system'' \<or> s = ''pin''))
      else if key = ''pin'' then map_option (\<lambda>s. q\<lparr>q_pin := s\<rparr>) (str_of v validPin)
      else if key = ''allow_insecure_http'' then map_option (\<lambda>b. q\<lparr>q_ack := b\<rparr>) (bool_of v)
      else if key = ''secret_action'' then map_option (\<lambda>s. q\<lparr>q_secret := s\<rparr>)
        (str_of v (\<lambda>s. s = ''keep'' \<or> s = ''replace'' \<or> s = ''delete''))
      else None)"

text \<open>The loop over the members: no key twice, no null.\<close>

fun fields_loop :: "(string \<times> jvalue) list \<Rightarrow> string list \<Rightarrow> ipc_request \<Rightarrow>
    (ipc_request \<times> string list) option" where
  "fields_loop [] seen q = Some (q, seen)"
| "fields_loop ((k, v) # r) seen q =
     (if k \<in> set seen then None
      else if v = VNull then None
      else case request_field k v q of
             None \<Rightarrow> None
           | Some q' \<Rightarrow> fields_loop r (k # seen) q')"

definition validConnURL :: "string \<Rightarrow> bool" where
  "validConnURL u \<longleftrightarrow> u \<noteq> [] \<and> length u \<le> 2048 \<and> list_all (\<lambda>r. \<not> (r < 32 \<or> r = 127)) (runes u)"

definition conn_keys :: "string list" where
  "conn_keys = [''username'', ''password'', ''use_stored_password'', ''tls_mode'', ''pin'',
     ''allow_insecure_http'', ''secret_action'']"

text \<open>The exact key sets per type: \<open>need\<close> all of the first list and none of the second.\<close>

definition need :: "string list \<Rightarrow> string list \<Rightarrow> string list \<Rightarrow> bool" where
  "need seen req forbidden \<longleftrightarrow> list_all (\<lambda>k. k \<in> set seen) req \<and> \<not> list_ex (\<lambda>k. k \<in> set seen) forbidden"

definition key_sets :: "ipc_request \<Rightarrow> string list \<Rightarrow> bool" where
  "key_sets q seen \<longleftrightarrow>
     (if q_type q = ''hello'' then
        need seen [''protocol''] ([''id'', ''hash'', ''url'', ''delete_files'', ''ref''] @ conn_keys)
      else if q_type q \<in> {''health'', ''system.status'', ''torrent.subscribe'', ''dashboard.status'',
          ''connection.status''} then
        need seen [''id''] ([''protocol'', ''hash'', ''url'', ''delete_files'', ''ref''] @ conn_keys)
      else if q_type q \<in> {''torrent.pause'', ''torrent.resume''} then
        need seen [''id'', ''hash'', ''ref''] ([''protocol'', ''url'', ''delete_files''] @ conn_keys)
      else if q_type q = ''torrent.add'' then
        need seen [''id'', ''url'', ''ref''] ([''protocol'', ''hash'', ''delete_files''] @ conn_keys)
        \<and> has_prefix ''magnet:'' (q_url q)
      else if q_type q = ''torrent.remove'' then
        need seen [''id'', ''hash'', ''ref'', ''delete_files''] ([''protocol'', ''url''] @ conn_keys)
      else if q_type q \<in> {''connection.test'', ''connection.configure''} then
        need seen [''id'', ''url'', ''tls_mode''] [''protocol'', ''hash'', ''delete_files'', ''ref'']
        \<and> validConnURL (q_url q)
        \<and> \<not> (''password'' \<in> set seen \<and> ''use_stored_password'' \<in> set seen)
        \<and> (q_tls q = ''pin'' \<longleftrightarrow> ''pin'' \<in> set seen)
        \<and> (if q_type q = ''connection.test'' then ''secret_action'' \<notin> set seen
           else ''secret_action'' \<in> set seen \<and> (q_secret q = ''replace'' \<longleftrightarrow> ''password'' \<in> set seen))
      else need seen [] ([''protocol'', ''id'', ''hash'', ''url'', ''delete_files'', ''ref''] @ conn_keys))"

definition parseFrame :: "string \<Rightarrow> ipc_request option" where
  "parseFrame frame =
     (if \<not> utf8_valid frame then None
      else case object_members frame of
        None \<Rightarrow> None
      | Some kvs \<Rightarrow>
          (case fields_loop kvs [] no_request of
             None \<Rightarrow> None
           | Some (q, seen) \<Rightarrow>
               if ''type'' \<notin> set seen then None
               else if key_sets q seen then Some q else None))"

section \<open>Simple responses\<close>

abbreviation capString :: "string \<Rightarrow> nat \<Rightarrow> string" where
  "capString \<equiv> capRunes"

definition CapName :: "string \<Rightarrow> string" where
  "CapName name = capRunes name NameCapRunes"

text \<open>The members every response begins with.\<close>

definition head :: "string \<Rightarrow> (string \<times> json) list" where
  "head t = [(''type'', JStr t), (''protocol'', JInt ProtocolVersion)]"

definition EncodeHello :: "(real \<Rightarrow> string) \<Rightarrow> string" where
  "EncodeHello ff = marshal ff (JObj (head ''hello'' @ [(''service'', JStr ServiceName)]))"

definition EncodeHealth :: "(real \<Rightarrow> string) \<Rightarrow> int \<Rightarrow> bool \<Rightarrow> string" where
  "EncodeHealth ff i ok = marshal ff (JObj (head ''health'' @ [(''id'', JInt i), (''service'', JStr ''ready''),
     (''backend'', JStr (if ok then ''ok'' else ''unavailable''))]))"

record status_data =
  sd_app :: string
  sd_api :: string
  sd_dl :: int
  sd_up :: int
  sd_total :: nat

definition EncodeStatus :: "(real \<Rightarrow> string) \<Rightarrow> int \<Rightarrow> bool \<Rightarrow> status_data \<Rightarrow> string" where
  "EncodeStatus ff i ok d =
     (if \<not> ok then marshal ff (JObj (head ''system.status'' @ [(''id'', JInt i), (''qbittorrent'', JStr ''unavailable'')]))
      else marshal ff (JObj (head ''system.status'' @ [(''id'', JInt i), (''qbittorrent'', JStr ''ok''),
        (''app_version'', JStr (capString (sd_app d) dashboardVersionCapRunes)),
        (''webapi_version'', JStr (capString (sd_api d) dashboardVersionCapRunes)),
        (''dl_speed'', JInt (sd_dl d)), (''up_speed'', JInt (sd_up d)),
        (''torrents_total'', JInt (int (sd_total d)))])))"

definition EncodeError :: "(real \<Rightarrow> string) \<Rightarrow> string \<Rightarrow> string" where
  "EncodeError ff rcode = marshal ff (JObj (head ''error'' @ [(''code'', JStr rcode)]))"

definition EncodeSubscribed :: "(real \<Rightarrow> string) \<Rightarrow> int \<Rightarrow> string" where
  "EncodeSubscribed ff i = marshal ff (JObj (head ''torrent.subscribed'' @ [(''id'', JInt i)]))"

definition EncodeSnapshotBegin :: "(real \<Rightarrow> string) \<Rightarrow> int \<Rightarrow> nat \<Rightarrow> string" where
  "EncodeSnapshotBegin ff i n =
     marshal ff (JObj (head ''torrent.snapshot.begin'' @ [(''id'', JInt i), (''count'', JInt (int n))]))"

definition EncodeSnapshotEnd :: "(real \<Rightarrow> string) \<Rightarrow> int \<Rightarrow> string" where
  "EncodeSnapshotEnd ff i = marshal ff (JObj (head ''torrent.snapshot.end'' @ [(''id'', JInt i)]))"

section \<open>Mutations\<close>

record mutation_request =
  mr_action :: string
  mr_hash :: string
  mr_url :: string
  mr_delete :: bool
  mr_ref :: string

record mutation_result =
  mu_mutation :: nat
  mu_action :: string
  mu_hash :: string
  mu_status :: string

record mutation_stage1 =
  m1_outcome :: string
  m1_mutation :: nat
  m1_action :: string
  m1_hash :: string
  m1_replay :: "mutation_result option"

definition EncodeMutationAccepted :: "(real \<Rightarrow> string) \<Rightarrow> int \<Rightarrow> nat \<Rightarrow> string \<Rightarrow> string \<Rightarrow> string" where
  "EncodeMutationAccepted ff i m a h = marshal ff (JObj (head ''mutation.accepted'' @ [(''id'', JInt i),
     (''mutation'', JInt (int m)), (''action'', JStr a), (''hash'', JStr h)]))"

definition EncodeMutationRejected :: "(real \<Rightarrow> string) \<Rightarrow> int \<Rightarrow> string \<Rightarrow> string" where
  "EncodeMutationRejected ff i rcode =
     marshal ff (JObj (head ''mutation.rejected'' @ [(''id'', JInt i), (''code'', JStr rcode)]))"

definition result_fields :: "mutation_result \<Rightarrow> (string \<times> json) list" where
  "result_fields r = [(''mutation'', JInt (int (mu_mutation r))), (''action'', JStr (mu_action r)),
     (''hash'', JStr (mu_hash r)), (''status'', JStr (mu_status r))]"

definition EncodeMutationResult :: "(real \<Rightarrow> string) \<Rightarrow> mutation_result \<Rightarrow> string" where
  "EncodeMutationResult ff r = marshal ff (JObj (head ''mutation.result'' @ result_fields r))"

definition EncodeMutationResultWithID :: "(real \<Rightarrow> string) \<Rightarrow> int \<Rightarrow> mutation_result \<Rightarrow> string" where
  "EncodeMutationResultWithID ff i r =
     marshal ff (JObj (head ''mutation.result'' @ (''id'', JInt i) # result_fields r))"

section \<open>Torrents\<close>

record torrent_item =
  it_hash :: string
  it_name :: string
  it_state :: string
  it_progress :: real
  it_dl :: int
  it_up :: int
  it_eta :: int
  it_ratio :: real
  it_category :: string
  it_size :: int
  it_completed :: int

record delta_event =
  de_seq :: nat
  de_changed :: "torrent_item list"
  de_removed :: "string list"

definition item_json :: "torrent_item \<Rightarrow> json" where
  "item_json t = JObj [(''hash'', JStr (it_hash t)), (''name'', JStr (it_name t)), (''state'', JStr (it_state t)),
     (''progress'', JFloat (it_progress t)), (''dlspeed'', JInt (it_dl t)), (''upspeed'', JInt (it_up t)),
     (''eta'', JInt (it_eta t)), (''ratio'', JFloat (it_ratio t)), (''category'', JStr (it_category t)),
     (''size'', JInt (it_size t)), (''completed'', JInt (it_completed t))]"

definition delta_frame :: "(real \<Rightarrow> string) \<Rightarrow> nat \<Rightarrow> torrent_item list \<Rightarrow> string list \<Rightarrow> string" where
  "delta_frame ff seq changed removed = marshal ff (JObj (head ''torrent.delta'' @ [(''seq'', JInt (int seq)),
     (''changed'', JList (List.map item_json changed)), (''removed'', JList (List.map JStr removed))]))"

text \<open>What \<^verbatim>\<open>EncodeDeltas\<close> accumulates: the finished frames with their items, the open frame and its size.\<close>

record delta_acc =
  dl_frames :: "(torrent_item list \<times> string list) list"
  dl_changed :: "torrent_item list"
  dl_removed :: "string list"
  dl_size :: nat

definition delta_budget :: nat where
  "delta_budget = 3800"

definition flush :: "delta_acc \<Rightarrow> delta_acc" where
  "flush a =
     (if dl_changed a = [] \<and> dl_removed a = [] then a
      else a\<lparr>dl_frames := dl_frames a @ [(dl_changed a, dl_removed a)], dl_changed := [], dl_removed := []\<rparr>)"

definition flush_full :: "nat \<Rightarrow> delta_acc \<Rightarrow> delta_acc" where
  "flush_full n a =
     (if dl_size a + n > delta_budget \<and> (dl_changed a \<noteq> [] \<or> dl_removed a \<noteq> [])
      then (flush a)\<lparr>dl_size := 0\<rparr> else a)"

fun changed_loop :: "(real \<Rightarrow> string) \<Rightarrow> torrent_item list \<Rightarrow> delta_acc \<Rightarrow> delta_acc option" where
  "changed_loop ff [] a = Some a"
| "changed_loop ff (t0 # ts) a =
     (let t = t0\<lparr>it_name := CapName (it_name t0)\<rparr>;
          n = length (marshal ff (item_json t)) in
      if n > delta_budget then None
      else let a1 = flush_full n a in
           changed_loop ff ts (a1\<lparr>dl_changed := dl_changed a1 @ [t], dl_size := dl_size a1 + n\<rparr>))"

fun removed_hashes_loop :: "string list \<Rightarrow> delta_acc \<Rightarrow> delta_acc option" where
  "removed_hashes_loop [] a = Some a"
| "removed_hashes_loop (h # hs) a =
     (if length h > 64 then None
      else let a1 = flush_full (length h + 16) a in
           removed_hashes_loop hs (a1\<lparr>dl_removed := dl_removed a1 @ [h], dl_size := dl_size a1 + (length h + 16)\<rparr>))"

definition delta_parts :: "(real \<Rightarrow> string) \<Rightarrow> delta_event \<Rightarrow> (torrent_item list \<times> string list) list option" where
  "delta_parts ff ev =
     (case changed_loop ff (de_changed ev) \<lparr>dl_frames = [], dl_changed = [], dl_removed = [], dl_size = 0\<rparr> of
        None \<Rightarrow> None
      | Some a \<Rightarrow> (case removed_hashes_loop (de_removed ev) a of
            None \<Rightarrow> None | Some a' \<Rightarrow> Some (dl_frames (flush a'))))"

definition EncodeDeltas :: "(real \<Rightarrow> string) \<Rightarrow> delta_event \<Rightarrow> string list option" where
  "EncodeDeltas ff ev =
     map_option (List.map (\<lambda>(c, r). delta_frame ff (de_seq ev) c r)) (delta_parts ff ev)"

definition snapshot_frame :: "(real \<Rightarrow> string) \<Rightarrow> int \<Rightarrow> nat \<Rightarrow> torrent_item \<Rightarrow> string" where
  "snapshot_frame ff i idx t = marshal ff (JObj (head ''torrent.snapshot.item'' @ [(''id'', JInt i),
     (''index'', JInt (int idx)), (''torrent'', item_json t)]))"

text \<open>The halving guard: the item whose frame fits, or whose name is down to 32 runes.\<close>

function halve_name :: "(real \<Rightarrow> string) \<Rightarrow> int \<Rightarrow> nat \<Rightarrow> torrent_item \<Rightarrow> torrent_item" where
  "halve_name ff i idx t =
     (if length (snapshot_frame ff i idx t) + 1 > MaxFrame \<and> length (runes (it_name t)) > 32
      then halve_name ff i idx (t\<lparr>it_name := capString (it_name t) (length (runes (it_name t)) div 2)\<rparr>)
      else t)"
  by pat_completeness auto
termination
proof (relation "measure (\<lambda>(ff, i, idx, t). length (runes (it_name t)))")
  fix ff i idx and t :: torrent_item
  assume "length (snapshot_frame ff i idx t) + 1 > MaxFrame \<and> length (runes (it_name t)) > 32"
  then show "((ff, i, idx, t\<lparr>it_name := capString (it_name t) (length (runes (it_name t)) div 2)\<rparr>), ff, i, idx, t)
      \<in> measure (\<lambda>(ff, i, idx, t). length (runes (it_name t)))"
    using length_capRunes[of "length (runes (it_name t)) div 2" "it_name t"] by auto
qed simp

declare halve_name.simps [simp del]

definition EncodeSnapshotItem :: "(real \<Rightarrow> string) \<Rightarrow> int \<Rightarrow> nat \<Rightarrow> torrent_item \<Rightarrow> string option" where
  "EncodeSnapshotItem ff i idx t0 =
     (let t = halve_name ff i idx (t0\<lparr>it_name := CapName (it_name t0), it_category := capString (it_category t0) 128\<rparr>);
          b = snapshot_frame ff i idx t
      in if length b + 1 > MaxFrame then None else Some b)"

section \<open>The dashboard\<close>

record last_known =
  lk_app :: string
  lk_api :: string
  lk_counts :: dashboard_counts
  lk_agg :: dashboard_aggregate

record dashboard_data =
  dd_app :: string
  dd_api :: string
  dd_dl :: int
  dd_up :: int
  dd_free :: "int option"
  dd_counts :: dashboard_counts
  dd_agg :: dashboard_aggregate
  dd_active :: "active_item list"
  dd_last :: "last_known option"

definition counts_json :: "dashboard_counts \<Rightarrow> json" where
  "counts_json c = JObj [(''total'', JInt (int (dc_total c))), (''active'', JInt (int (dc_active c))),
     (''downloading'', JInt (int (dc_downloading c))), (''seeding'', JInt (int (dc_seeding c))),
     (''paused'', JInt (int (dc_paused c))), (''completed'', JInt (int (dc_completed c)))]"

definition aggregate_json :: "dashboard_aggregate \<Rightarrow> json" where
  "aggregate_json a = JObj [(''total_size'', JInt (da_total a)), (''completed_bytes'', JInt (da_completed a)),
     (''remaining_bytes'', JInt (da_remaining a))]"

definition active_json :: "nat \<Rightarrow> active_item \<Rightarrow> json" where
  "active_json nameCap it = JObj [(''name'', JStr (capString (ai_name it) nameCap)), (''state'', JStr (ai_state it)),
     (''progress'', JFloat (ai_progress it)), (''dlspeed'', JInt (ai_dl it)), (''upspeed'', JInt (ai_up it))]"

definition last_known_json :: "last_known \<Rightarrow> json" where
  "last_known_json l = JObj [(''app_version'', JStr (capString (lk_app l) dashboardVersionCapRunes)),
     (''webapi_version'', JStr (capString (lk_api l) dashboardVersionCapRunes)),
     (''counts'', counts_json (lk_counts l)), (''aggregate'', aggregate_json (lk_agg l))]"

definition dashboard_frame :: "(real \<Rightarrow> string) \<Rightarrow> int \<Rightarrow> dashboard_data \<Rightarrow> nat \<Rightarrow> nat \<Rightarrow> string" where
  "dashboard_frame ff i d nameCap n = marshal ff (JObj (head ''dashboard.status'' @ [(''id'', JInt i),
     (''qbittorrent'', JStr ''ok''),
     (''app_version'', JStr (capString (dd_app d) dashboardVersionCapRunes)),
     (''webapi_version'', JStr (capString (dd_api d) dashboardVersionCapRunes)),
     (''dl_speed'', JInt (dd_dl d)), (''up_speed'', JInt (dd_up d))]
     @ (case dd_free d of None \<Rightarrow> [] | Some f \<Rightarrow> [(''free_space'', JInt f)])
     @ [(''counts'', counts_json (dd_counts d)), (''aggregate'', aggregate_json (dd_agg d)),
        (''active'', JList (List.map (active_json nameCap) (take n (dd_active d))))]))"

text \<open>The loop that shortens names and then drops trailing entries, with \<open>n\<close> entries left.\<close>

function dashboard_loop :: "(real \<Rightarrow> string) \<Rightarrow> int \<Rightarrow> dashboard_data \<Rightarrow> nat \<Rightarrow> nat \<Rightarrow> string" where
  "dashboard_loop ff i d nameCap n =
     (let b = dashboard_frame ff i d nameCap n in
      if length b + 1 \<le> MaxFrame then b
      else if nameCap > 12 then dashboard_loop ff i d (nameCap div 2) n
      else if n = 0 then b
      else dashboard_loop ff i d nameCap (n - 1))"
  by pat_completeness auto
termination
  by (relation "measure (\<lambda>(ff, i, d, nameCap, n). nameCap + n)") auto

declare dashboard_loop.simps [simp del]

definition EncodeDashboardStatus :: "(real \<Rightarrow> string) \<Rightarrow> int \<Rightarrow> bool \<Rightarrow> dashboard_data \<Rightarrow> string" where
  "EncodeDashboardStatus ff i ok d0 =
     (if \<not> ok then marshal ff (JObj (head ''dashboard.status'' @ [(''id'', JInt i), (''qbittorrent'', JStr ''unavailable'')]
        @ (case dd_last d0 of None \<Rightarrow> [] | Some l \<Rightarrow> [(''last_known'', last_known_json l)])))
      else let d = (if length (dd_active d0) > ActiveListWireCap
              then d0\<lparr>dd_active := take ActiveListWireCap (dd_active d0)\<rparr> else d0)
           in dashboard_loop ff i d dashboardActiveNameCapRunes (length (dd_active d)))"

end
