(* ===== verification/JsonLemmas.thy ===== *)
theory JsonLemmas
  imports Json
begin

text \<open>
  What the encoders rely on: an encoding holds no line feed, its length is bounded by the number
  of runes and of digits, and the decoder gives back what was encoded.
\<close>

section \<open>Plain strings\<close>

text \<open>Printable ASCII without the characters that are escaped: written as it is.\<close>

definition plain_char :: "char \<Rightarrow> bool" where
  "plain_char c \<longleftrightarrow> (let n = of_char c :: nat in 32 \<le> n \<and> n < 127 \<and> n \<notin> {34, 38, 60, 62, 92})"

definition plain :: "string \<Rightarrow> bool" where
  "plain s \<longleftrightarrow> list_all plain_char s"

lemma escape_bytes_Nil [simp]: "escape_bytes [] = []"
  by (subst escape_bytes.simps) simp

lemma escape_bytes_ascii: "b < 128 \<Longrightarrow> escape_bytes (b # bs) = escape_rune b [b] @ escape_bytes bs"
  by (subst escape_bytes.simps) simp

lemma escape_plain: "plain s \<Longrightarrow> escape_bytes (bytes s) = s"
proof (induction s)
  case (Cons c s)
  then have c: "plain_char c" "plain s" by (simp_all add: plain_def)
  then have "escape_rune (of_char c) [of_char c] = [c]"
    by (simp add: plain_char_def escape_rune_def Let_def)
  with Cons c show ?case
    by (simp add: bytes_def escape_bytes_ascii plain_char_def Let_def)
qed (simp add: bytes_def)

lemma encode_plain: "plain s \<Longrightarrow> encode_string s = quote # s @ [quote]"
  by (simp add: encode_string_def escape_plain)

section \<open>Lengths\<close>

lemma decode_rune_width4: "snd (decode_rune bs) \<le> 4"
  by (cases bs) auto

lemma decode_rune_fits: "bs \<noteq> [] \<Longrightarrow> snd (decode_rune bs) \<le> length bs"
  by (cases bs) (auto split: if_splits)

lemma length_escape_rune: "length w \<le> 4 \<Longrightarrow> length (escape_rune r w) \<le> 6"
  by (simp add: escape_rune_def of_bytes_def)

lemma length_escape: "length (escape_bytes bs) \<le> 6 * length (decode bs)"
proof (induction bs rule: escape_bytes.induct)
  case (1 bs)
  show ?case
  proof (cases "bs = []")
    case False
    have "length (escape_rune (fst (decode_rune bs)) (take (snd (decode_rune bs)) bs)) \<le> 6"
      using decode_rune_width4[of bs] by (intro length_escape_rune) simp
    with 1[OF False] False show ?thesis
      by (subst escape_bytes.simps, subst decode.simps) simp
  qed simp
qed

lemma length_encode_string: "length (encode_string s) \<le> 6 * length (runes s) + 2" "2 \<le> length (encode_string s)"
  using length_escape[of "bytes s"] by (simp_all add: encode_string_def runes_def)

lemma length_encode_capped: "0 < n \<Longrightarrow> length (encode_string (capRunes s n)) \<le> 6 * n + 2"
  using length_encode_string(1)[of "capRunes s n"] length_capRunes[of n s] by linarith

lemma length_nat_string: "n < 10 ^ k \<Longrightarrow> length (nat_string n) \<le> max 1 k"
proof (induction n arbitrary: k rule: nat_string.induct)
  case (1 n)
  show ?case
  proof (cases "n < 10")
    case True
    then show ?thesis by (subst nat_string.simps) simp
  next
    case False
    then have "k \<noteq> 0" "k \<noteq> 1" using 1(2) by (auto intro: ccontr)
    then obtain j where j: "k = Suc j" "0 < j" by (cases k) auto
    then have "n div 10 < 10 ^ j" using 1(2) by (simp add: div_less_iff_less_mult)
    from 1(1)[OF False this] have "length (nat_string (n div 10)) \<le> j" using j by simp
    then show ?thesis
      using False j by (subst nat_string.simps) simp
  qed
qed

lemma length_nat_string_pos: "0 < length (nat_string n)"
  by (subst nat_string.simps) simp

lemma length_int_string: "int64 i \<Longrightarrow> length (int_string i) \<le> 20"
  using length_nat_string[of "nat i" 19] length_nat_string[of "nat (- i)" 19]
  by (auto simp: int_string_def int64_defs nat_less_iff)

lemma length_uint_string: "n < 2 ^ 64 \<Longrightarrow> length (int_string (int n)) \<le> 20"
  using length_nat_string[of n 20] by (simp add: int_string_def)

lemma length_int_string_pos: "0 < length (int_string i)"
  using length_nat_string_pos by (simp add: int_string_def)

section \<open>No control characters\<close>

definition printing :: "char \<Rightarrow> bool" where
  "printing c \<longleftrightarrow> 32 \<le> (of_char c :: nat)"

lemma printing_list: "list_all printing (xs @ ys) \<longleftrightarrow> list_all printing xs \<and> list_all printing ys"
  by simp

lemma printing_digit: "(n :: nat) < 10 \<Longrightarrow> printing (char_of (48 + n))"
  by (simp add: printing_def)

lemma printing_nat_string: "list_all printing (nat_string n)"
proof (induction n rule: nat_string.induct)
  case (1 n)
  then show ?case
    by (subst nat_string.simps) (simp add: printing_digit)
qed

lemma printing_int_string: "list_all printing (int_string i)"
  by (simp add: int_string_def printing_nat_string) (simp add: printing_def)

lemma decode_rune_bytes:
  assumes "decode_rune bs = (r, n)" "128 \<le> r" "\<not> (r = rune_error \<and> n = 1)"
  shows "1 < n \<and> n \<le> length bs \<and> (\<forall>b \<in> set (take n bs). 128 \<le> b)"
proof (cases bs)
  case Nil
  then show ?thesis using assms by simp
next
  case (Cons b0 bs')
  have tk: "take 2 bs = [b0, bs' ! 0]" if "1 \<le> length bs'"
    using that Cons by (cases bs') auto
  have tk3: "take 3 bs = [b0, bs' ! 0, bs' ! 1]" if "2 \<le> length bs'"
    using that Cons by (cases bs'; cases "tl bs'") (auto simp: numeral_3_eq_3)
  have tk4: "take 4 bs = [b0, bs' ! 0, bs' ! 1, bs' ! 2]" if "3 \<le> length bs'"
    using that Cons by (cases bs'; cases "tl bs'"; cases "tl (tl bs')") (auto simp: eval_nat_numeral)
  show ?thesis
    using assms tk tk3 tk4 Cons
    by (auto simp: seq2_def seq3_def seq4_def cont_def split: if_splits)
qed

lemma printing_escape_rune:
  assumes "decode_rune bs = (r, n)" "\<forall>b \<in> set bs. b < 256" "bs \<noteq> []"
  shows "list_all printing (escape_rune r (take n bs))"
proof -
  have hex: "printing (lower_hex_digit k)" if "k < 16" for k
    using that by (simp add: printing_def lower_hex_digit_def)
  have wide: "list_all printing (of_bytes (take n bs))" if "128 \<le> r" "\<not> (r = rune_error \<and> n = 1)"
  proof -
    have "printing (char_of b)" if "b \<in> set (take n bs)" for b
    proof -
      have "128 \<le> b" "b < 256"
        using decode_rune_bytes[OF assms(1) \<open>128 \<le> r\<close> \<open>\<not> (r = rune_error \<and> n = 1)\<close>] that assms(2)
        by (auto dest: in_set_takeD)
      then show ?thesis by (simp add: printing_def)
    qed
    then show ?thesis by (simp add: list_all_iff of_bytes_def)
  qed
  have len: "length (take n bs) = 1 \<longleftrightarrow> n = 1"
    using decode_rune_fits[OF assms(3)] decode_rune_width[of bs] assms(1) by simp
  show ?thesis
    using wide hex[of "r div 16"] hex[of "r mod 16"] unfolding escape_rune_def len
    by (auto simp: printing_def)
qed

lemma printing_escape: "\<forall>b \<in> set bs. b < 256 \<Longrightarrow> list_all printing (escape_bytes bs)"
proof (induction bs rule: escape_bytes.induct)
  case (1 bs)
  show ?case
  proof (cases "bs = []")
    case False
    have "list_all printing (escape_bytes (drop (snd (decode_rune bs)) bs))"
      using 1 False by (auto dest: in_set_dropD)
    then show ?thesis
      using printing_escape_rune[of bs "fst (decode_rune bs)" "snd (decode_rune bs)"] 1 False
      by (subst escape_bytes.simps) simp
  qed simp
qed

lemma printing_encode_string: "list_all printing (encode_string s)"
  using printing_escape[of "bytes s"] by (auto simp: encode_string_def bytes_def printing_def)

lemma printing_marshal:
  assumes "\<And>x. list_all printing (ff x)"
  shows "list_all printing (marshal ff v)" "list_all printing (marshal_list ff vs)"
    "list_all printing (marshal_fields ff fs)"
  using assms
  by (induction ff v and ff vs and ff fs rule: marshal_marshal_list_marshal_fields.induct)
    (simp_all add: printing_encode_string printing_int_string, simp_all add: printing_def)

section \<open>Decoding what was encoded\<close>

lemma lex_string_plain:
  "c \<noteq> quote \<Longrightarrow> c \<noteq> bslash \<Longrightarrow> printing c \<Longrightarrow> lex_string (c # s) = map_option (apfst (Cons c)) (lex_string s)"
  by (subst lex_string.simps) (simp add: printing_def)

lemma lex_string_append:
  "list_all (\<lambda>c. c \<noteq> quote \<and> c \<noteq> bslash \<and> printing c) w \<Longrightarrow>
     lex_string (w @ s) = map_option (apfst (append w)) (lex_string s)"
proof (induction w)
  case Nil
  show ?case by (simp add: apfst_def option.map_id0[unfolded id_def] map_prod_def)
next
  case (Cons c w)
  then show ?case
    by (simp add: lex_string_plain option.map_comp comp_def apfst_def map_prod_def split_beta)
qed

lemma lex_string_escape:
  "e \<noteq> CHR ''u'' \<Longrightarrow> simple_escape e = Some x \<Longrightarrow>
     lex_string (bslash # e # s) = map_option (apfst (Cons x)) (lex_string s)"
  by (subst lex_string.simps) simp

lemma lex_string_unicode:
  assumes "hex4 (h @ s) = Some u" "length h = 4" "\<not> surrogate u"
  shows "lex_string (bslash # CHR ''u'' # h @ s) = map_option (apfst (append (of_bytes (encode_rune u)))) (lex_string s)"
proof -
  have "surrogate_pair u s = None"
    using assms(3) by (auto simp: surrogate_pair_def surrogate_def)
  then show ?thesis
    using assms by (subst lex_string.simps) simp
qed

lemma hex4_four: "hex4 (a # b # c # d # s) =
    (if is_hex a \<and> is_hex b \<and> is_hex c \<and> is_hex d
     then Some (((hex_value a * 16 + hex_value b) * 16 + hex_value c) * 16 + hex_value d) else None)"
proof -
  have "take 4 (a # b # c # d # s) = [a, b, c, d]"
    by (simp add: take_Cons')
  then show ?thesis by (simp add: hex4_def)
qed

lemma hex4_control: "r < 128 \<Longrightarrow> hex4 ([CHR ''0'', CHR ''0'', lower_hex_digit (r div 16), lower_hex_digit (r mod 16)] @ s) = Some r"
  using is_hex_digit[of "r div 16"] is_hex_digit[of "r mod 16"]
  by (simp add: hex4_four) (simp add: hex_value_def is_hex_def is_lower_hex_def is_digit_def)

lemma decode_rune_ascii: "decode_rune bs = (r, n) \<Longrightarrow> r < 128 \<Longrightarrow> bs \<noteq> [] \<Longrightarrow> n = 1 \<and> take n bs = [r]"
  by (cases bs) (auto simp: rune_error_def seq2_def seq3_def seq4_def cont_def split: if_splits)

lemma decode_rune_sep:
  assumes "decode_rune bs = (r, n)" "r = 8232 \<or> r = 8233"
  shows "take n bs = encode_rune r"
proof (cases bs)
  case Nil
  then show ?thesis using assms by (auto simp: rune_error_def)
next
  case (Cons b0 bs')
  have "\<not> b0 < 128" "\<not> (1 \<le> length bs' \<and> seq2 b0 (bs' ! 0))"
    using assms Cons by (auto simp: seq2_def cont_def)
  moreover have "2 \<le> length bs' \<and> seq3 b0 (bs' ! 0) (bs' ! 1)"
    using assms Cons calculation by (auto simp: rune_error_def seq3_def seq4_def cont_def split: if_splits)
  moreover have "(b0 - 224) * 4096 + (bs' ! 0 - 128) * 64 + (bs' ! 1 - 128) = r" "n = 3"
    using assms Cons calculation by auto
  moreover have "b0 = 226 \<and> bs' ! 0 = 128 \<and> bs' ! 1 = r - 8064"
  proof -
    have range: "224 \<le> b0" "128 \<le> bs' ! 0" "bs' ! 0 \<le> 191" "128 \<le> bs' ! 1" "bs' ! 1 \<le> 191"
      using calculation(3) by (auto simp: seq3_def cont_def split: if_splits)
    define a b c where "a = b0 - 224" and "b = bs' ! 0 - 128" and "c = bs' ! 1 - 128"
    have small: "b \<le> 63" "c \<le> 63" using range by (simp_all add: b_def c_def)
    have sum: "a * 4096 + b * 64 + c = r" using calculation(4) by (simp add: a_def b_def c_def)
    have "a \<le> 2" using sum assms(2) by linarith
    moreover have "\<not> a \<le> 1" using sum small assms(2) by linarith
    ultimately have a: "a = 2" by linarith
    then have "b = 0" using sum assms(2) by linarith
    with a sum have "c = r - 8192" by linarith
    then show ?thesis
      using a \<open>b = 0\<close> range assms(2) unfolding a_def b_def c_def by linarith
  qed
  moreover obtain x y z where "bs' = x # y # z"
    using calculation(3) by (cases bs'; cases "tl bs'") auto
  ultimately show ?thesis
    using Cons assms(2) by (auto simp: encode_rune_def valid_rune_def numeral_3_eq_3)
qed

lemma append_single: "append [x] = Cons x"
  by (rule ext) simp

lemma char_of_eqs: "(r :: nat) < 128 \<Longrightarrow> (char_of r = (char_of m :: char)) = (r = m mod 256)"
  by (simp add: char_of_eq_iff take_bit_nat_def)

lemma char_of_specials:
  "char_of (34 :: nat) = quote" "char_of (92 :: nat) = bslash" "char_of (8 :: nat) = CHR 0x08"
  "char_of (12 :: nat) = CHR 0x0C" "char_of (10 :: nat) = CHR 0x0A" "char_of (13 :: nat) = CHR 0x0D"
  "char_of (9 :: nat) = CHR 0x09"
  by code_simp+

lemma lex_escape_ascii:
  assumes "r < 128"
  shows "lex_string (escape_rune r [r] @ s) = map_option (apfst (Cons (char_of r))) (lex_string s)"
proof -
  consider "r \<in> {34, 92, 8, 12, 10, 13, 9}" | "r \<notin> {34, 92, 8, 12, 10, 13, 9}" "r < 32 \<or> r = 60 \<or> r = 62 \<or> r = 38"
    | "r \<notin> {34, 92, 8, 12, 10, 13, 9}" "\<not> (r < 32 \<or> r = 60 \<or> r = 62 \<or> r = 38)"
    by blast
  then show ?thesis
  proof cases
    case 1
    then show ?thesis
      by (elim insertE emptyE)
        (simp_all add: escape_rune_def simple_escape_def lex_string_escape char_of_specials)
  next
    case 2
    have "\<not> surrogate r" using assms by (simp add: surrogate_def)
    from lex_string_unicode[OF hex4_control[OF assms, of s] _ this] show ?thesis
      using 2 assms by (simp add: escape_rune_def encode_rune_def of_bytes_def append_single)
  next
    case 3
    have "(char_of r :: char) \<noteq> quote" "(char_of r :: char) \<noteq> bslash"
      using 3(1) assms char_of_eqs[OF assms, of 34] char_of_eqs[OF assms, of 92]
      by (simp_all add: char_of_specials)
    moreover have "printing (char_of r)" using 3 assms by (simp add: printing_def)
    ultimately show ?thesis
      using 3 assms by (simp add: escape_rune_def lex_string_plain)
  qed
qed

lemma lex_escape_rune:
  assumes "decode_rune bs = (r, n)" "bs \<noteq> []" "\<forall>b \<in> set bs. b < 256" "\<not> (r = rune_error \<and> n = 1)"
  shows "lex_string (escape_rune r (take n bs) @ s) =
    map_option (apfst (append (of_bytes (take n bs)))) (lex_string s)"
proof (cases "r < 128")
  case True
  then have "take n bs = [r]" using decode_rune_ascii[OF assms(1) True assms(2)] by blast
  then show ?thesis
    using lex_escape_ascii[OF True, of s] by (simp only: of_bytes_def append_single list.map)
next
  case False
  note wide = decode_rune_bytes[OF assms(1) _ assms(4)]
  show ?thesis
  proof (cases "r = 8232 \<or> r = 8233")
    case True
    then have "take n bs = encode_rune r" "\<not> surrogate r"
      using decode_rune_sep[OF assms(1)] by (auto simp: surrogate_def)
    moreover have "hex4 (''2028'' @ s) = Some 8232" "hex4 (''2029'' @ s) = Some 8233"
      by (simp_all add: hex4_four hex_value_def is_hex_def is_lower_hex_def is_digit_def)
    ultimately show ?thesis
      using True lex_string_unicode[of "''2028''" s 8232] lex_string_unicode[of "''2029''" s 8233]
      by (auto simp: escape_rune_def rune_error_def)
  next
    case False
    have "length (take n bs) \<noteq> 1"
      using wide \<open>\<not> r < 128\<close> by simp
    then have e: "escape_rune r (take n bs) = of_bytes (take n bs)"
      using False \<open>\<not> r < 128\<close> by (auto simp: escape_rune_def)
    have "char_of b \<noteq> quote \<and> char_of b \<noteq> bslash \<and> printing (char_of b)" if "b \<in> set (take n bs)" for b
    proof -
      have "128 \<le> b" "b < 256"
        using wide \<open>\<not> r < 128\<close> that assms(3) by (auto dest: in_set_takeD)
      then have "(of_char (char_of b :: char) :: nat) = b" by simp
      then have "c \<noteq> char_of b" if "(of_char c :: nat) < 128" for c :: char
        using that \<open>128 \<le> b\<close> by (metis not_le)
      from this[of quote] this[of bslash] show ?thesis
        using \<open>128 \<le> b\<close> \<open>b < 256\<close> by (simp add: printing_def)
    qed
    then show ?thesis
      unfolding e by (intro lex_string_append) (auto simp: of_bytes_def list_all_iff)
  qed
qed

lemma lex_escape_bytes:
  "\<forall>b \<in> set bs. b < 256 \<Longrightarrow> utf8_valid_bytes bs \<Longrightarrow>
     lex_string (escape_bytes bs @ quote # s) = Some (of_bytes bs, s)"
proof (induction bs rule: escape_bytes.induct)
  case (1 bs)
  show ?case
  proof (cases "bs = []")
    case True
    then show ?thesis by (subst lex_string.simps) (simp add: of_bytes_def)
  next
    case False
    obtain r n where d: "decode_rune bs = (r, n)" by force
    have v: "utf8_valid_bytes (drop n bs)" "\<not> (r = rune_error \<and> n = 1)"
      using "1.prems"(2) False d by (subst (asm) utf8_valid_bytes.simps; auto split: if_splits)+
    have "lex_string (escape_bytes (drop n bs) @ quote # s) = Some (of_bytes (drop n bs), s)"
      using "1.IH"[OF False] "1.prems"(1) v(1) d by (auto dest: in_set_dropD)
    moreover have "of_bytes (take n bs) @ of_bytes (drop n bs) = of_bytes bs"
      by (simp add: of_bytes_def flip: map_append)
    ultimately show ?thesis
      using lex_escape_rune[OF d False "1.prems"(1) v(2), of "escape_bytes (drop n bs) @ quote # s"] d False
      by (subst escape_bytes.simps) simp
  qed
qed

lemma lex_encode_string:
  assumes "utf8_valid s"
  shows "lex_token (encode_string s @ r) = Some (TStr s, r)"
proof -
  have "of_bytes (bytes s) = s"
    by (simp add: of_bytes_def bytes_def comp_def)
  then show ?thesis
    using assms lex_escape_bytes[of "bytes s" r]
    by (simp add: encode_string_def lex_token_def utf8_valid_def bytes_def)
qed

end
