(* ===== verification/ProtocolLemmas.thy ===== *)
theory ProtocolLemmas
  imports Protocol JsonLemmas
begin

text \<open>
  Lemmas on the protocol: what the member loop of \<open>parseFrame\<close> has established, the decoding of an
  encoded request, and the accounting of the delta splitter.
\<close>

section \<open>The member loop\<close>

lemma atoi_int64: "atoi s = Some i \<Longrightarrow> int64 i"
  by (auto simp: atoi_def Let_def split: if_splits prod.splits list.splits)

text \<open>A field is valid if its key was seen, and at its default otherwise.\<close>

definition field_ok :: "string list \<Rightarrow> string \<Rightarrow> bool \<Rightarrow> bool \<Rightarrow> bool" where
  "field_ok seen k valid dflt \<longleftrightarrow> (if k \<in> set seen then valid else dflt)"

lemma field_ok_Cons: "field_ok (k # seen) k' valid dflt = (if k' = k then valid else field_ok seen k' valid dflt)"
  by (simp add: field_ok_def)

definition fields_inv :: "ipc_request \<Rightarrow> string list \<Rightarrow> bool" where
  "fields_inv q seen \<longleftrightarrow> int64 (q_protocol q) \<and> int64 (q_id q) \<and>
     field_ok seen ''hash'' (validHash (q_hash q)) (q_hash q = []) \<and>
     field_ok seen ''url'' (0 < length (q_url q) \<and> length (q_url q) \<le> 2048) (q_url q = []) \<and>
     field_ok seen ''ref'' (validRef (q_ref q)) (q_ref q = []) \<and>
     field_ok seen ''username'' (length (q_user q) \<le> 64) (q_user q = []) \<and>
     field_ok seen ''password'' (0 < length (q_password q) \<and> length (q_password q) \<le> 256) (q_password q = []) \<and>
     field_ok seen ''tls_mode'' (q_tls q = ''system'' \<or> q_tls q = ''pin'') (q_tls q = []) \<and>
     field_ok seen ''pin'' (validPin (q_pin q)) (q_pin q = []) \<and>
     field_ok seen ''secret_action'' (q_secret q = ''keep'' \<or> q_secret q = ''replace'' \<or> q_secret q = ''delete'')
       (q_secret q = []) \<and>
     field_ok seen ''use_stored_password'' True (\<not> q_stored q) \<and>
     field_ok seen ''delete_files'' True (\<not> q_delete q)"

lemma str_of_Some: "str_of v ok = Some s \<longleftrightarrow> v = VStr s \<and> ok s"
  by (auto simp: str_of_def split: jvalue.splits)

lemma int_of_int64: "int_of v = Some i \<Longrightarrow> int64 i"
  by (auto simp: int_of_def atoi_int64 split: jvalue.splits)

lemma field_okD: "field_ok seen k valid dflt \<Longrightarrow> k \<in> set seen \<Longrightarrow> valid"
  by (simp add: field_ok_def)

lemma field_ok_default: "field_ok seen k valid dflt \<Longrightarrow> k \<notin> set seen \<Longrightarrow> dflt"
  by (simp add: field_ok_def)

lemma field_ok_either: "field_ok seen k valid dflt \<Longrightarrow> valid \<or> dflt"
  by (auto simp: field_ok_def split: if_split_asm)

text \<open>What an accepted request's fields satisfy, and which key a non-default value shows.\<close>

lemma fields_inv_bounds:
  assumes "fields_inv q seen"
  shows "int64 (q_protocol q)" "int64 (q_id q)" "length (q_url q) \<le> 2048" "length (q_user q) \<le> 64"
    "length (q_password q) \<le> 256"
proof -
  have ok: "field_ok seen ''url'' (0 < length (q_url q) \<and> length (q_url q) \<le> 2048) (q_url q = [])"
    "field_ok seen ''username'' (length (q_user q) \<le> 64) (q_user q = [])"
    "field_ok seen ''password'' (0 < length (q_password q) \<and> length (q_password q) \<le> 256) (q_password q = [])"
    using assms by (simp_all only: fields_inv_def)
  show "int64 (q_protocol q)" "int64 (q_id q)"
    using assms by (simp_all only: fields_inv_def)
  show "length (q_url q) \<le> 2048" using field_ok_either[OF ok(1)] by auto
  show "length (q_user q) \<le> 64" using field_ok_either[OF ok(2)] by auto
  show "length (q_password q) \<le> 256" using field_ok_either[OF ok(3)] by auto
qed

lemma fields_inv_valid:
  assumes "fields_inv q seen"
  shows "''hash'' \<in> set seen \<Longrightarrow> validHash (q_hash q)" "''ref'' \<in> set seen \<Longrightarrow> validRef (q_ref q)"
    "''tls_mode'' \<in> set seen \<Longrightarrow> q_tls q \<in> {''system'', ''pin''}"
    "''secret_action'' \<in> set seen \<Longrightarrow> q_secret q \<in> {''keep'', ''replace'', ''delete''}"
proof -
  have ok: "field_ok seen ''hash'' (validHash (q_hash q)) (q_hash q = [])"
    "field_ok seen ''ref'' (validRef (q_ref q)) (q_ref q = [])"
    "field_ok seen ''tls_mode'' (q_tls q = ''system'' \<or> q_tls q = ''pin'') (q_tls q = [])"
    "field_ok seen ''secret_action'' (q_secret q = ''keep'' \<or> q_secret q = ''replace'' \<or> q_secret q = ''delete'')
       (q_secret q = [])"
    using assms by (simp_all only: fields_inv_def)
  show "''hash'' \<in> set seen \<Longrightarrow> validHash (q_hash q)" by (rule field_okD[OF ok(1)])
  show "''ref'' \<in> set seen \<Longrightarrow> validRef (q_ref q)" by (rule field_okD[OF ok(2)])
  show "''tls_mode'' \<in> set seen \<Longrightarrow> q_tls q \<in> {''system'', ''pin''}" using field_okD[OF ok(3)] by simp
  show "''secret_action'' \<in> set seen \<Longrightarrow> q_secret q \<in> {''keep'', ''replace'', ''delete''}"
    using field_okD[OF ok(4)] by simp
qed

lemma fields_inv_pin:
  assumes "fields_inv q seen"
  shows "''pin'' \<in> set seen \<longleftrightarrow> validPin (q_pin q)"
proof -
  have ok: "field_ok seen ''pin'' (validPin (q_pin q)) (q_pin q = [])"
    using assms by (simp only: fields_inv_def)
  have "\<not> validPin []" by (simp add: validPin_def)
  then show ?thesis using field_okD[OF ok] field_ok_default[OF ok] by metis
qed

lemma fields_inv_password:
  assumes "fields_inv q seen"
  shows "''password'' \<in> set seen \<longleftrightarrow> q_password q \<noteq> []"
proof -
  have ok: "field_ok seen ''password'' (0 < length (q_password q) \<and> length (q_password q) \<le> 256) (q_password q = [])"
    using assms by (simp only: fields_inv_def)
  then show ?thesis using field_okD[OF ok] field_ok_default[OF ok] by auto
qed

lemma fields_inv_stored:
  assumes "fields_inv q seen"
  shows "q_stored q \<Longrightarrow> ''use_stored_password'' \<in> set seen"
proof -
  have ok: "field_ok seen ''use_stored_password'' True (\<not> q_stored q)"
    using assms by (simp only: fields_inv_def)
  then show "q_stored q \<Longrightarrow> ''use_stored_password'' \<in> set seen" using field_ok_default[OF ok] by blast
qed

lemma fields_inv_init: "fields_inv no_request []"
  by (simp add: fields_inv_def field_ok_def no_request_def int64_defs)

lemma request_field_key:
  "request_field key v q = Some q' \<Longrightarrow> key \<in> {''type'', ''protocol'', ''id'', ''hash'', ''url'', ''delete_files'',
     ''ref'', ''username'', ''password'', ''use_stored_password'', ''tls_mode'', ''pin'', ''allow_insecure_http'',
     ''secret_action''}"
  by (rule ccontr) (simp add: request_field_def)

lemma request_field_simps:
  "request_field ''type'' v q = map_option (\<lambda>s. q\<lparr>q_type := s\<rparr>) (str_of v (\<lambda>_. True))"
  "request_field ''protocol'' v q = map_option (\<lambda>i. q\<lparr>q_protocol := i\<rparr>) (int_of v)"
  "request_field ''id'' v q = map_option (\<lambda>i. q\<lparr>q_id := i\<rparr>) (int_of v)"
  "request_field ''hash'' v q = map_option (\<lambda>s. q\<lparr>q_hash := s\<rparr>) (str_of v validHash)"
  "request_field ''url'' v q = map_option (\<lambda>s. q\<lparr>q_url := s\<rparr>) (str_of v (\<lambda>s. 0 < length s \<and> length s \<le> 2048))"
  "request_field ''delete_files'' v q = map_option (\<lambda>b. q\<lparr>q_delete := b\<rparr>) (bool_of v)"
  "request_field ''ref'' v q = map_option (\<lambda>s. q\<lparr>q_ref := s\<rparr>) (str_of v validRef)"
  "request_field ''username'' v q = map_option (\<lambda>s. q\<lparr>q_user := s\<rparr>) (str_of v (\<lambda>s. length s \<le> 64))"
  "request_field ''password'' v q = map_option (\<lambda>s. q\<lparr>q_password := s\<rparr>) (str_of v (\<lambda>s. 0 < length s \<and> length s \<le> 256))"
  "request_field ''use_stored_password'' v q = map_option (\<lambda>b. q\<lparr>q_stored := b\<rparr>) (bool_of v)"
  "request_field ''tls_mode'' v q = map_option (\<lambda>s. q\<lparr>q_tls := s\<rparr>) (str_of v (\<lambda>s. s = ''system'' \<or> s = ''pin''))"
  "request_field ''pin'' v q = map_option (\<lambda>s. q\<lparr>q_pin := s\<rparr>) (str_of v validPin)"
  "request_field ''allow_insecure_http'' v q = map_option (\<lambda>b. q\<lparr>q_ack := b\<rparr>) (bool_of v)"
  "request_field ''secret_action'' v q = map_option (\<lambda>s. q\<lparr>q_secret := s\<rparr>)
     (str_of v (\<lambda>s. s = ''keep'' \<or> s = ''replace'' \<or> s = ''delete''))"
  by (simp_all add: request_field_def)

lemma fields_inv_field:
  assumes "request_field key v q = Some q'" "fields_inv q seen"
  shows "fields_inv q' (key # seen)"
  using request_field_key[OF assms(1)] assms
  by (elim insertE emptyE; hypsubst; clarsimp simp: request_field_simps str_of_Some; simp add: fields_inv_def field_ok_Cons int_of_int64)

lemma fields_inv_loop: "fields_loop kvs seen q = Some (q', seen') \<Longrightarrow> fields_inv q seen \<Longrightarrow> fields_inv q' seen'"
proof (induction kvs seen q rule: fields_loop.induct)
  case (2 k v r seen q)
  then show ?case
    by (auto split: if_splits option.splits dest: fields_inv_field)
qed simp

lemma parseFrame_inv:
  assumes "parseFrame frame = Some q"
  obtains seen where "fields_inv q seen" "key_sets q seen" "''type'' \<in> set seen"
proof -
  obtain kvs seen where a: "fields_loop kvs [] no_request = Some (q, seen)" "key_sets q seen" "''type'' \<in> set seen"
    using assms by (auto simp: parseFrame_def split: if_splits option.splits)
  show ?thesis by (rule that[OF fields_inv_loop[OF a(1) fields_inv_init] a(2,3)])
qed

section \<open>Lengths of encodings\<close>

lemma plain_eval: "plain [] = True" "plain (c # s) = (plain_char c \<and> plain s)"
  by (simp_all add: plain_def)

lemma length_marshal_list:
  "length (marshal_list ff vs) \<le> sum_list (List.map (\<lambda>v. length (marshal ff v) + 1) vs)"
proof (induction vs)
  case (Cons v vs)
  then show ?case by (cases vs) auto
qed simp

text \<open>The keys of all messages are plain.\<close>

lemma encode_key: "list_all plain_char k \<Longrightarrow> length (encode_string k) = length k + 2"
  by (simp add: encode_plain plain_def)

lemmas plain_keys = plain_char_def Let_def

lemma item_length:
  "length (marshal ff (item_json t)) = 117 + (length (encode_string (it_hash t)) - 2) + (length (encode_string (it_name t)) - 2)
     + (length (encode_string (it_state t)) - 2) + length (ff (it_progress t)) + length (int_string (it_dl t))
     + length (int_string (it_up t)) + length (int_string (it_eta t)) + length (ff (it_ratio t))
     + (length (encode_string (it_category t)) - 2) + length (int_string (it_size t)) + length (int_string (it_completed t))"
  using length_encode_string(2)[of "it_hash t"] length_encode_string(2)[of "it_name t"]
    length_encode_string(2)[of "it_state t"] length_encode_string(2)[of "it_category t"]
  by (simp add: item_json_def encode_key plain_char_def Let_def)

section \<open>The delta splitter\<close>

definition item_size :: "(real \<Rightarrow> string) \<Rightarrow> torrent_item \<Rightarrow> nat" where
  "item_size ff t = length (marshal ff (item_json t))"

definition part_size :: "(real \<Rightarrow> string) \<Rightarrow> torrent_item list \<Rightarrow> string list \<Rightarrow> nat" where
  "part_size ff c r = sum_list (List.map (item_size ff) c) + sum_list (List.map (\<lambda>h. length h + 16) r)"

text \<open>What the accumulated frames and the open frame hold, and that each is within the budget.\<close>

definition acc_changed :: "delta_acc \<Rightarrow> torrent_item list" where
  "acc_changed a = concat (List.map fst (dl_frames a)) @ dl_changed a"

definition acc_removed :: "delta_acc \<Rightarrow> string list" where
  "acc_removed a = concat (List.map snd (dl_frames a)) @ dl_removed a"

definition acc_ok :: "(real \<Rightarrow> string) \<Rightarrow> delta_acc \<Rightarrow> bool" where
  "acc_ok ff a \<longleftrightarrow> dl_size a = part_size ff (dl_changed a) (dl_removed a) \<and> dl_size a \<le> delta_budget \<and>
     (\<forall>(c, r) \<in> set (dl_frames a). part_size ff c r \<le> delta_budget \<and> (c \<noteq> [] \<or> r \<noteq> []))"

lemma flush_full_ok:
  assumes "acc_ok ff a" "n \<le> delta_budget"
  shows "acc_ok ff (flush_full n a)" "dl_size (flush_full n a) + n \<le> delta_budget"
    "acc_changed (flush_full n a) = acc_changed a" "acc_removed (flush_full n a) = acc_removed a"
  using assms
  by (auto simp: acc_ok_def flush_full_def flush_def part_size_def acc_changed_def acc_removed_def)

lemma changed_loop_ok:
  "changed_loop ff ts a = Some a' \<Longrightarrow> acc_ok ff a \<Longrightarrow> acc_ok ff a' \<and>
     acc_changed a' = acc_changed a @ List.map (\<lambda>t. t\<lparr>it_name := CapName (it_name t)\<rparr>) ts \<and>
     acc_removed a' = acc_removed a"
proof (induction ts arbitrary: a)
  case (Cons t0 ts)
  define t where "t = t0\<lparr>it_name := CapName (it_name t0)\<rparr>"
  define n where "n = length (marshal ff (item_json t))"
  define b where "b = flush_full n a"
  define c where "c = b\<lparr>dl_changed := dl_changed b @ [t], dl_size := dl_size b + n\<rparr>"
  have run: "n \<le> delta_budget" "changed_loop ff ts c = Some a'"
    using Cons.prems(1) by (simp_all add: Let_def t_def n_def b_def c_def split: if_splits)
  note fl = flush_full_ok[OF Cons.prems(2) run(1), folded b_def]
  have ok: "acc_ok ff c"
    using fl(1,2) by (simp add: acc_ok_def c_def part_size_def item_size_def n_def)
  have "acc_changed c = acc_changed a @ [t]" "acc_removed c = acc_removed a"
    using fl(3,4) by (simp_all add: c_def acc_changed_def acc_removed_def)
  then show ?case
    using Cons.IH[OF run(2) ok] by (simp add: t_def)
qed simp

lemma removed_loop_ok:
  "removed_hashes_loop hs a = Some a' \<Longrightarrow> acc_ok ff a \<Longrightarrow> acc_ok ff a' \<and>
     acc_changed a' = acc_changed a \<and> acc_removed a' = acc_removed a @ hs \<and> (\<forall>h \<in> set hs. length h \<le> 64)"
proof (induction hs arbitrary: a)
  case (Cons h hs)
  define n where "n = length h + 16"
  define b where "b = flush_full n a"
  define c where "c = b\<lparr>dl_removed := dl_removed b @ [h], dl_size := dl_size b + n\<rparr>"
  have run: "length h \<le> 64" "removed_hashes_loop hs c = Some a'"
    using Cons.prems(1) by (simp_all add: Let_def n_def b_def c_def split: if_splits)
  then have "n \<le> delta_budget" by (simp add: n_def delta_budget_def)
  note fl = flush_full_ok[OF Cons.prems(2) this, folded b_def]
  have ok: "acc_ok ff c"
    using fl(1,2) by (simp add: acc_ok_def c_def part_size_def n_def)
  have "acc_changed c = acc_changed a" "acc_removed c = acc_removed a @ [h]"
    using fl(3,4) by (simp_all add: c_def acc_changed_def acc_removed_def)
  then show ?case
    using Cons.IH[OF run(2) ok] run(1) by simp
qed simp

lemma delta_parts_ok:
  assumes "delta_parts ff ev = Some ps"
  shows "concat (List.map fst ps) = List.map (\<lambda>t. t\<lparr>it_name := CapName (it_name t)\<rparr>) (de_changed ev)"
    "concat (List.map snd ps) = de_removed ev"
    "(c, r) \<in> set ps \<Longrightarrow> part_size ff c r \<le> delta_budget \<and> (c \<noteq> [] \<or> r \<noteq> [])"
proof -
  define a0 :: delta_acc where "a0 = \<lparr>dl_frames = [], dl_changed = [], dl_removed = [], dl_size = 0\<rparr>"
  have ok0: "acc_ok ff a0" "acc_changed a0 = []" "acc_removed a0 = []"
    by (simp_all add: a0_def acc_ok_def part_size_def acc_changed_def acc_removed_def)
  obtain a a' where r: "changed_loop ff (de_changed ev) a0 = Some a" "removed_hashes_loop (de_removed ev) a = Some a'"
    "ps = dl_frames (flush a')"
    using assms by (auto simp: delta_parts_def a0_def split: option.splits)
  have c: "acc_ok ff a" "acc_changed a = List.map (\<lambda>t. t\<lparr>it_name := CapName (it_name t)\<rparr>) (de_changed ev)" "acc_removed a = []"
    using changed_loop_ok[OF r(1) ok0(1)] ok0 by auto
  have d: "acc_ok ff a'" "acc_changed a' = acc_changed a" "acc_removed a' = de_removed ev"
    using removed_loop_ok[OF r(2) c(1)] c(3) by auto
  show "concat (List.map fst ps) = List.map (\<lambda>t. t\<lparr>it_name := CapName (it_name t)\<rparr>) (de_changed ev)"
    using d(2) c(2) by (auto simp: r(3) flush_def acc_changed_def)
  show "concat (List.map snd ps) = de_removed ev"
    using d(3) by (auto simp: r(3) flush_def acc_removed_def)
  show "(c, r) \<in> set ps \<Longrightarrow> part_size ff c r \<le> delta_budget \<and> (c \<noteq> [] \<or> r \<noteq> [])"
    using d(1) by (auto simp: r(3) flush_def acc_ok_def split: if_splits)
qed

text \<open>A frame within the budget, with its separators and its envelope.\<close>

lemma delta_frame_length:
  assumes "part_size ff c r \<le> delta_budget" "\<forall>h \<in> set r. plain h" "seq < 2 ^ 64"
  shows "length (delta_frame ff seq c r) + 1 \<le> MaxFrame"
proof -
  have items: "117 * length c \<le> sum_list (List.map (item_size ff) c)"
  proof (induction c)
    case (Cons t c)
    then show ?case using item_length[of ff t] by (simp add: item_size_def)
  qed simp
  have cs: "length (marshal_list ff (List.map item_json c)) \<le> sum_list (List.map (item_size ff) c) + length c"
    using length_marshal_list[of ff "List.map item_json c"]
    by (simp add: comp_def item_size_def[abs_def] sum_list_Suc)
  have rs: "length (marshal_list ff (List.map JStr r)) \<le> sum_list (List.map (\<lambda>h. length h + 16) r)"
  proof -
    have "sum_list (List.map (\<lambda>h. length (marshal ff (JStr h)) + 1) r) \<le> sum_list (List.map (\<lambda>h. length h + 16) r)"
      using assms(2) by (intro sum_list_mono) (simp add: encode_plain)
    then show ?thesis
      using length_marshal_list[of ff "List.map JStr r"] by (simp add: comp_def)
  qed
  have "length (delta_frame ff seq c r) = 70 + length (int_string (int seq))
      + length (marshal_list ff (List.map item_json c)) + length (marshal_list ff (List.map JStr r))"
    by (simp add: delta_frame_def head_def encode_key plain_char_def ProtocolVersion_def int_string_def nat_string.simps)
  moreover have "length (int_string (int seq)) \<le> 20"
    by (rule length_uint_string[OF assms(3)])
  moreover have "117 * length c \<le> delta_budget"
    using items assms(1) by (simp add: part_size_def)
  ultimately show ?thesis
    using cs rs assms(1) by (simp add: part_size_def delta_budget_def MaxFrame_def)
qed

end
