(* ===== verification/ParseLemmas.thy ===== *)
theory ParseLemmas
  imports ProtocolLemmas
begin

text \<open>
  Parsing what was encoded: the tokens of an encoded flat object, its members, and the request
  they give. \<open>request_json\<close> is a client's encoding of a request, with its keys in any order.
\<close>

section \<open>UTF-8\<close>

lemma utf8_ascii: "b < 128 \<Longrightarrow> utf8_valid_bytes (b # bs) \<longleftrightarrow> utf8_valid_bytes bs"
  by (subst utf8_valid_bytes.simps) (simp add: rune_error_def)

lemma utf8_ascii_append: "\<forall>b \<in> set as. b < 128 \<Longrightarrow> utf8_valid_bytes (as @ bs) \<longleftrightarrow> utf8_valid_bytes bs"
  by (induction as) (simp_all add: utf8_ascii)

lemma utf8_Nil: "utf8_valid_bytes []"
  by (subst utf8_valid_bytes.simps) simp

lemma decode_rune_take:
  assumes "decode_rune bs = (r, n)" "\<not> (r = rune_error \<and> n = 1)" "bs \<noteq> []"
  shows "decode_rune (take n bs @ cs) = (r, n)"
proof (cases bs)
  case Nil
  then show ?thesis using assms by simp
next
  case (Cons b0 bs')
  have tk: "take 2 bs = [b0, bs' ! 0]" if "1 \<le> length bs'"
    using that Cons by (cases bs') auto
  have tk3: "take 3 bs = [b0, bs' ! 0, bs' ! 1]" if "2 \<le> length bs'"
    using that Cons by (cases bs'; cases "tl bs'") (auto simp: numeral_3_eq_3)
  have tk4: "take 4 bs = [b0, bs' ! 0, bs' ! 1, bs' ! 2]" if "3 \<le> length bs'"
    using that Cons by (cases bs'; cases "tl bs'"; cases "tl (tl bs')") (auto simp: eval_nat_numeral)
  show ?thesis
    using assms tk tk3 tk4 Cons by (auto simp: seq2_def seq3_def seq4_def cont_def split: if_splits)
qed

lemma utf8_escape_rune:
  assumes "decode_rune bs = (r, n)" "bs \<noteq> []" "\<forall>b \<in> set bs. b < 256" "\<not> (r = rune_error \<and> n = 1)"
  shows "utf8_valid_bytes (bytes (escape_rune r (take n bs)) @ cs) \<longleftrightarrow> utf8_valid_bytes cs"
proof -
  have hex: "of_char (lower_hex_digit k) < (128 :: nat)" if "k < 16" for k
    using that by (simp add: lower_hex_digit_def)
  show ?thesis
  proof (cases "r < 128 \<or> r = 8232 \<or> r = 8233")
    case True
    have "of_char c < (128 :: nat)" if "c \<in> set (escape_rune r (take n bs))" for c
    proof (cases "r < 128")
      case True
      then show ?thesis
        using that hex[of "r div 16"] hex[of "r mod 16"] by (auto simp: escape_rune_def split: if_splits)
    next
      case False
      then show ?thesis
        using that \<open>r < 128 \<or> r = 8232 \<or> r = 8233\<close> by (auto simp: escape_rune_def rune_error_def)
    qed
    then show ?thesis
      by (intro utf8_ascii_append) (auto simp: bytes_def)
  next
    case False
    have w: "1 < n" "n \<le> length bs" using decode_rune_bytes[OF assms(1) _ assms(4)] False by auto
    then have "escape_rune r (take n bs) = of_bytes (take n bs)"
      using False by (auto simp: escape_rune_def)
    moreover have "bytes (of_bytes (take n bs)) = take n bs"
      using assms(3) by (intro bytes_of_bytes) (auto dest: in_set_takeD)
    ultimately have e: "bytes (escape_rune r (take n bs)) @ cs = take n bs @ cs" by simp
    show ?thesis
      unfolding e
      using decode_rune_take[OF assms(1,4,2), of cs] assms(4) w
      by (subst utf8_valid_bytes.simps) (auto simp: assms(2))
  qed
qed

lemma bytes_append: "bytes (a @ b) = bytes a @ bytes b"
  by (simp add: bytes_def)

lemma utf8_escape:
  "\<forall>b \<in> set bs. b < 256 \<Longrightarrow> utf8_valid_bytes bs \<Longrightarrow>
     utf8_valid_bytes (bytes (escape_bytes bs) @ cs) \<longleftrightarrow> utf8_valid_bytes cs"
proof (induction bs rule: escape_bytes.induct)
  case (1 bs)
  show ?case
  proof (cases "bs = []")
    case True
    then show ?thesis by (simp add: bytes_def)
  next
    case False
    obtain r n where d: "decode_rune bs = (r, n)" by force
    have v: "utf8_valid_bytes (drop n bs)" "\<not> (r = rune_error \<and> n = 1)"
      using "1.prems"(2) False d by (subst (asm) utf8_valid_bytes.simps; auto split: if_splits)+
    have "utf8_valid_bytes (bytes (escape_bytes (drop n bs)) @ cs) \<longleftrightarrow> utf8_valid_bytes cs"
      using "1.IH"[OF False] "1.prems"(1) v(1) d by (auto dest: in_set_dropD)
    then show ?thesis
      using utf8_escape_rune[OF d False "1.prems"(1) v(2)] d False
      by (subst escape_bytes.simps) (simp add: bytes_append)
  qed
qed

lemma utf8_encode_string:
  "utf8_valid s \<Longrightarrow> utf8_valid_bytes (bytes (encode_string s) @ cs) \<longleftrightarrow> utf8_valid_bytes cs"
  using utf8_escape[of "bytes s" "34 # cs"]
  by (simp add: encode_string_def utf8_valid_def bytes_def utf8_ascii)

section \<open>Tokens of a flat object\<close>

fun scalar_token :: "json \<Rightarrow> token" where
  "scalar_token (JStr s) = TStr s"
| "scalar_token (JInt i) = TNum (int_string i)"
| "scalar_token (JBool b) = (if b then TTrue else TFalse)"
| "scalar_token _ = TNull"

fun scalar_value :: "json \<Rightarrow> jvalue" where
  "scalar_value (JStr s) = VStr s"
| "scalar_value (JInt i) = VNum (int_string i)"
| "scalar_value (JBool b) = (if b then VTrue else VFalse)"
| "scalar_value _ = VNull"

fun scalar :: "json \<Rightarrow> bool" where
  "scalar (JStr s) = utf8_valid s"
| "scalar (JInt i) = True"
| "scalar (JBool b) = True"
| "scalar _ = False"

fun field_tokens :: "(string \<times> json) list \<Rightarrow> token list" where
  "field_tokens [] = []"
| "field_tokens ((k, v) # fs) = TStr k # Colon # scalar_token v # (if fs = [] then [] else Comma # field_tokens fs)"

lemma lex_skip:
  assumes "lex_token (c # s) = Some (t, r)" "\<not> is_ws c"
  shows "lex (c # s) = map_option (Cons t) (lex r)"
  using assms by (subst lex.simps) simp

lemma lex_punct:
  "lex (CHR ''{'' # r) = map_option (Cons LBrace) (lex r)" "lex (CHR ''}'' # r) = map_option (Cons RBrace) (lex r)"
  "lex (CHR '':'' # r) = map_option (Cons Colon) (lex r)" "lex (CHR '','' # r) = map_option (Cons Comma) (lex r)"
  by (rule lex_skip; simp add: lex_token_def is_ws_def)+

lemma lex_encoded: "utf8_valid s \<Longrightarrow> lex (encode_string s @ r) = map_option (Cons (TStr s)) (lex r)"
  using lex_encode_string[of s r] lex_skip[of quote _ "TStr s" r]
  by (simp add: encode_string_def is_ws_def)

lemma nat_string_head:
  "0 < n \<Longrightarrow> nat_string n \<noteq> [] \<and> hd (nat_string n) \<noteq> CHR ''0''"
proof (induction n rule: nat_string.induct)
  case (1 n)
  show ?case
  proof (cases "n < 10")
    case True
    have "(char_of (48 + n) :: char) \<noteq> char_of (48 :: nat)"
      using True 1(2) char_of_eqs[of "48 + n" 48] by simp
    moreover have "(char_of (48 :: nat) :: char) = CHR ''0''" by code_simp
    ultimately show ?thesis
      using True by (subst (1 2) nat_string.simps) simp
  next
    case False
    then have "nat_string (n div 10) \<noteq> [] \<and> hd (nat_string (n div 10)) \<noteq> CHR ''0''"
      using 1 by simp
    then show ?thesis
      using False by (subst (1 2) nat_string.simps) simp
  qed
qed

lemma nat_string_digits: "list_all is_digit (nat_string n)"
proof (induction n rule: nat_string.induct)
  case (1 n)
  have "is_digit (char_of (48 + m))" if "m < 10" for m :: nat
    using that by (simp add: is_digit_def)
  with 1 show ?case
    by (subst nat_string.simps) simp
qed

lemma digits_value_nat_string: "digits_value (nat_string n) = int n"
proof (induction n rule: nat_string.induct)
  case (1 n)
  show ?case
  proof (cases "n < 10")
    case True
    then show ?thesis by (subst nat_string.simps) (simp add: digits_value_def)
  next
    case False
    have "digits_value (nat_string n) = digits_value (nat_string (n div 10)) * 10 + int (n mod 10)"
      using False by (subst nat_string.simps) (simp add: digits_value_def)
    moreover have "int (n div 10) * 10 + int (n mod 10) = int n"
      by presburger
    ultimately show ?thesis using 1 False by simp
  qed
qed

lemma atoi_int_string:
  assumes "int64 i"
  shows "atoi (int_string i) = Some i"
proof -
  obtain c cs where n: "nat_string (nat i) = c # cs" using length_nat_string_pos[of "nat i"] by (cases "nat_string (nat i)") auto
  have "nat_string (nat (- i)) \<noteq> []" using length_nat_string_pos[of "nat (- i)"] by auto
  moreover have "c \<noteq> CHR ''-''" "c \<noteq> CHR ''+''"
    using nat_string_digits[of "nat i"] n by (auto simp: is_digit_def)
  ultimately show ?thesis
    using assms n digits_value_nat_string[of "nat i"] digits_value_nat_string[of "nat (- i)"]
      nat_string_digits[of "nat i"] nat_string_digits[of "nat (- i)"]
    by (auto simp: atoi_def int_string_def)
qed

text \<open>A number before a separator.\<close>

lemma lex_digits_stop:
  assumes "list_all is_digit ds" "ds \<noteq> []" "\<not> is_digit c"
  shows "lex_digits (ds @ c # r) = Some (ds, c # r)"
proof -
  have "takeWhile is_digit (ds @ c # r) = ds"
    using assms by (simp add: list_all_iff takeWhile_append)
  then show ?thesis using assms(2) by (simp add: lex_digits_def)
qed

lemma lex_nat_string:
  assumes "\<not> is_digit c"
  shows "lex_int (nat_string n @ c # r) = Some (nat_string n, c # r)"
proof (cases "n = 0")
  case True
  then show ?thesis
    by (subst (1 2) nat_string.simps) (simp add: lex_int_def has_prefix_def, code_simp)
next
  case False
  note h = nat_string_head[of n]
  have "\<not> has_prefix ''0'' (nat_string n @ c # r)"
    using h False by (cases "nat_string n") (auto simp: has_prefix_def)
  then show ?thesis
    using h False lex_digits_stop[OF nat_string_digits _ assms, of n r] by (simp add: lex_int_def)
qed

lemma lex_int_string:
  assumes "c = CHR '','' \<or> c = CHR ''}''"
  shows "lex (int_string i @ c # r) = map_option (Cons (TNum (int_string i))) (lex (c # r))"
proof -
  have c: "\<not> is_digit c" "lex_frac (c # r) = Some ([], c # r)" "lex_exp (c # r) = Some ([], c # r)"
    using assms by (auto simp: is_digit_def lex_frac_def lex_exp_def has_prefix_def)
  have num: "lex_number (int_string i @ c # r) = Some (int_string i, c # r)"
  proof (cases "i < 0")
    case True
    then show ?thesis
      using c lex_nat_string[OF c(1)] by (simp add: lex_number_def int_string_def has_prefix_def)
  next
    case False
    have "\<not> has_prefix ''-'' (nat_string (nat i) @ c # r)"
      using nat_string_digits[of "nat i"] length_nat_string_pos[of "nat i"]
      by (cases "nat_string (nat i)") (auto simp: has_prefix_def is_digit_def)
    then show ?thesis
      using False c lex_nat_string[OF c(1)] by (simp add: lex_number_def int_string_def)
  qed
  obtain x xs where x: "int_string i = x # xs" using length_int_string_pos[of i] by (cases "int_string i") auto
  have "is_digit x \<or> x = CHR ''-''"
    using x nat_string_digits[of "nat i"] by (auto simp: int_string_def split: if_splits)
  then have "x \<notin> {CHR ''{'', CHR ''}'', CHR ''['', CHR '']'', CHR '':'', CHR '','', quote, CHR ''t'', CHR ''f'', CHR ''n''}"
    "\<not> is_ws x"
    by (auto simp: is_digit_def is_ws_def)
  then have "lex_token (x # xs @ c # r) = Some (TNum (int_string i), c # r)"
    using num x by (simp add: lex_token_def has_prefix_def)
  from lex_skip[OF this \<open>\<not> is_ws x\<close>] show ?thesis
    using x by simp
qed

lemma lex_scalar:
  assumes "scalar v" "c = CHR '','' \<or> c = CHR ''}''"
  shows "lex (marshal ff v @ c # r) = map_option (Cons (scalar_token v)) (lex (c # r))"
  using assms
proof (cases v)
  case (JBool b)
  then show ?thesis
    using lex_skip[of "CHR ''t''" "''rue'' @ c # r" TTrue "c # r"] lex_skip[of "CHR ''f''" "''alse'' @ c # r" TFalse "c # r"]
    by (simp add: lex_token_def has_prefix_def is_ws_def)
qed (auto simp: lex_encoded lex_int_string)

lemma lex_fields:
  "fs \<noteq> [] \<Longrightarrow> \<forall>(k, v) \<in> set fs. utf8_valid k \<and> scalar v \<Longrightarrow>
     lex (marshal_fields ff fs @ ''}'') = Some (field_tokens fs @ [RBrace])"
proof (induction fs rule: field_tokens.induct)
  case (2 k v fs)
  have stop: "lex [CHR ''}''] = Some [RBrace]"
    by (simp add: lex_punct lex.simps[of "[]"])
  show ?case
  proof (cases "fs = []")
    case True
    then show ?thesis
      using 2 stop lex_scalar[of v "CHR ''}''" ff "[]"] by (simp add: lex_encoded lex_punct)
  next
    case False
    then show ?thesis
      using 2 lex_scalar[of v "CHR '',''" ff "marshal_fields ff fs @ ''}''"] by (simp add: lex_encoded lex_punct)
  qed
qed simp

lemma value_of_scalar: "scalar v \<Longrightarrow> value_of (scalar_token v # r) = Some (scalar_value v, r)"
  by (cases v) (simp_all add: value_of_def)

lemma members_fields:
  "fs \<noteq> [] \<Longrightarrow> \<forall>(k, v) \<in> set fs. scalar v \<Longrightarrow>
     members (field_tokens fs @ [RBrace]) = Some (List.map (apsnd scalar_value) fs, [])"
proof (induction fs rule: field_tokens.induct)
  case (2 k v fs)
  then show ?case
    by (cases "fs = []"; subst members.simps) (simp_all add: value_of_scalar)
qed simp

text \<open>The members of an encoded flat object are its fields.\<close>

lemma object_members_marshal:
  assumes "fs \<noteq> []" "\<forall>(k, v) \<in> set fs. utf8_valid k \<and> scalar v"
  shows "object_members (marshal ff (JObj fs)) = Some (List.map (apsnd scalar_value) fs)"
proof -
  obtain k v fs' where fs: "fs = (k, v) # fs'" using assms(1) by (cases fs) auto
  have "lex (marshal ff (JObj fs)) = Some (LBrace # field_tokens fs @ [RBrace])"
    using lex_fields[OF assms, of ff] by (simp add: lex_punct)
  moreover have "members (field_tokens fs @ [RBrace]) = Some (List.map (apsnd scalar_value) fs, [])"
    using assms by (intro members_fields) auto
  ultimately show ?thesis
    by (simp add: object_members_def fs)
qed

end
