(* ===== verification/ConnectionWire.thy ===== *)
theory ConnectionWire
  imports Protocol
begin

text \<open>
  The connection messages of the wire protocol (internal/ipc/connection.go): the payloads the
  handler supplies and their encoders. A password is None for Go's \<^verbatim>\<open>nil\<close> slice and \<open>Some []\<close> for an
  empty slice that is not \<^verbatim>\<open>nil\<close>.
\<close>

record connection_status_data =
  cs_configured :: bool
  cs_mode :: string
  cs_url :: string
  cs_host :: string
  cs_transport :: string
  cs_insecure :: bool
  cs_user :: string
  cs_hasSecret :: bool
  cs_tls :: string
  cs_pin :: string
  cs_status :: string
  cs_detail :: string
  cs_epoch :: nat

record connection_test_request =
  ct_url :: string
  ct_user :: string
  ct_password :: "string option"
  ct_stored :: bool
  ct_tls :: string
  ct_pin :: string
  ct_ack :: bool

record connection_test_data =
  td_ok :: bool
  td_status :: string
  td_detail :: string
  td_host :: string
  td_transport :: string
  td_app :: string
  td_api :: string
  td_offered :: string

record connection_configure_request = connection_test_request +
  ct_action :: string

record connection_configure_data =
  cf_ok :: bool
  cf_rejection :: string
  cf_epoch :: nat
  cf_mode :: string
  cf_host :: string
  cf_transport :: string

text \<open>A member that \<^verbatim>\<open>omitempty\<close> leaves out when the string is empty.\<close>

definition omit_empty :: "string \<Rightarrow> string \<Rightarrow> (string \<times> json) list" where
  "omit_empty k s = (if s = [] then [] else [(k, JStr s)])"

definition connection_status_fields :: "int \<Rightarrow> connection_status_data \<Rightarrow> (string \<times> json) list" where
  "connection_status_fields i d = head ''connection.status'' @ [(''id'', JInt i),
     (''configured'', JBool (cs_configured d)), (''mode'', JStr (capString (cs_mode d) 16)),
     (''url'', JStr (capString (cs_url d) 256)), (''host'', JStr (capString (cs_host d) 128)),
     (''transport'', JStr (capString (cs_transport d) 8)), (''insecure'', JBool (cs_insecure d)),
     (''username'', JStr (capString (cs_user d) 64)), (''has_secret'', JBool (cs_hasSecret d)),
     (''tls_mode'', JStr (capString (cs_tls d) 16))]
     @ omit_empty ''pin'' (capString (cs_pin d) 64)
     @ [(''status'', JStr (capString (cs_status d) 32)), (''detail'', JStr (capString (cs_detail d) 128)),
        (''epoch'', JInt (int (cs_epoch d)))]"

definition EncodeConnectionStatus :: "(real \<Rightarrow> string) \<Rightarrow> int \<Rightarrow> connection_status_data \<Rightarrow> string" where
  "EncodeConnectionStatus ff i d = marshal ff (JObj (connection_status_fields i d))"

definition EncodeConnectionTest :: "(real \<Rightarrow> string) \<Rightarrow> int \<Rightarrow> connection_test_data \<Rightarrow> string" where
  "EncodeConnectionTest ff i d = marshal ff (JObj (head ''connection.test'' @ [(''id'', JInt i),
     (''result'', JStr (if td_ok d then ''ok'' else ''failed'')),
     (''status'', JStr (capString (td_status d) 32)), (''host'', JStr (capString (td_host d) 128)),
     (''transport'', JStr (capString (td_transport d) 8))]
     @ (if td_ok d then [(''app_version'', JStr (capString (td_app d) 64)),
          (''webapi_version'', JStr (capString (td_api d) 64))] else [])
     @ (if \<not> td_ok d \<and> td_offered d \<noteq> [] then omit_empty ''offered_fingerprint'' (capString (td_offered d) 64) else [])
     @ omit_empty ''detail'' (capString (td_detail d) 128)))"

definition EncodeConnectionConfigured :: "(real \<Rightarrow> string) \<Rightarrow> int \<Rightarrow> connection_configure_data \<Rightarrow> string" where
  "EncodeConnectionConfigured ff i d = marshal ff (JObj (head ''connection.configured'' @ [(''id'', JInt i),
     (''epoch'', JInt (int (cf_epoch d))), (''mode'', JStr (capString (cf_mode d) 16)),
     (''host'', JStr (capString (cf_host d) 128)), (''transport'', JStr (capString (cf_transport d) 8))]))"

definition EncodeConnectionRejected :: "(real \<Rightarrow> string) \<Rightarrow> int \<Rightarrow> string \<Rightarrow> string" where
  "EncodeConnectionRejected ff i rcode =
     marshal ff (JObj (head ''connection.rejected'' @ [(''id'', JInt i), (''code'', JStr (capString rcode 32))]))"

end
