(* ===== verification/ProtocolProps.thy ===== *)
theory ProtocolProps
  imports ParseLemmas ConnectionWire
begin

text \<open>
  Properties of the wire protocol: what an accepted request satisfies, that every well-formed
  request is accepted and decoded to itself, and that responses fit the frame budget and hold no
  line feed.
\<close>

section \<open>A client's encoding\<close>

definition request_keys :: "string list" where
  "request_keys = [''type'', ''protocol'', ''id'', ''hash'', ''url'', ''delete_files'', ''ref'', ''username'',
     ''password'', ''use_stored_password'', ''tls_mode'', ''pin'', ''allow_insecure_http'', ''secret_action'']"

definition request_value :: "ipc_request \<Rightarrow> string \<Rightarrow> json" where
  "request_value q k =
     (if k = ''type'' then JStr (q_type q) else if k = ''protocol'' then JInt (q_protocol q)
      else if k = ''id'' then JInt (q_id q) else if k = ''hash'' then JStr (q_hash q)
      else if k = ''url'' then JStr (q_url q) else if k = ''delete_files'' then JBool (q_delete q)
      else if k = ''ref'' then JStr (q_ref q) else if k = ''username'' then JStr (q_user q)
      else if k = ''password'' then JStr (q_password q)
      else if k = ''use_stored_password'' then JBool (q_stored q)
      else if k = ''tls_mode'' then JStr (q_tls q) else if k = ''pin'' then JStr (q_pin q)
      else if k = ''allow_insecure_http'' then JBool (q_ack q) else JStr (q_secret q))"

definition request_json :: "ipc_request \<Rightarrow> string list \<Rightarrow> json" where
  "request_json q ks = JObj (List.map (\<lambda>k. (k, request_value q k)) ks)"





text \<open>The documented bounds of a field. (The user name is bounded in bytes, where the document says runes.)\<close>

definition valid_field :: "ipc_request \<Rightarrow> string \<Rightarrow> bool" where
  "valid_field q k \<longleftrightarrow> scalar (request_value q k) \<and>
     (k = ''protocol'' \<longrightarrow> int64 (q_protocol q)) \<and> (k = ''id'' \<longrightarrow> int64 (q_id q)) \<and>
     (k = ''hash'' \<longrightarrow> validHash (q_hash q)) \<and>
     (k = ''url'' \<longrightarrow> 0 < length (q_url q) \<and> length (q_url q) \<le> 2048) \<and>
     (k = ''ref'' \<longrightarrow> validRef (q_ref q)) \<and> (k = ''username'' \<longrightarrow> length (q_user q) \<le> 64) \<and>
     (k = ''password'' \<longrightarrow> 0 < length (q_password q) \<and> length (q_password q) \<le> 256) \<and>
     (k = ''tls_mode'' \<longrightarrow> q_tls q = ''system'' \<or> q_tls q = ''pin'') \<and> (k = ''pin'' \<longrightarrow> validPin (q_pin q)) \<and>
     (k = ''secret_action'' \<longrightarrow> q_secret q = ''keep'' \<or> q_secret q = ''replace'' \<or> q_secret q = ''delete'')"

section \<open>One field\<close>

lemma request_eqI:
  assumes "\<And>k. k \<in> set request_keys \<Longrightarrow> request_value q k = request_value q' k"
  shows "q = q'"
proof -
  have "request_value q k = request_value q' k" if "k \<in> {''type'', ''protocol'', ''id'', ''hash'', ''url'',
      ''delete_files'', ''ref'', ''username'', ''password'', ''use_stored_password'', ''tls_mode'', ''pin'',
      ''allow_insecure_http'', ''secret_action''}" for k
    using assms[of k] that by (simp add: request_keys_def)
  from this[of "''type''"] this[of "''protocol''"] this[of "''id''"] this[of "''hash''"] this[of "''url''"]
    this[of "''delete_files''"] this[of "''ref''"] this[of "''username''"] this[of "''password''"]
    this[of "''use_stored_password''"] this[of "''tls_mode''"] this[of "''pin''"]
    this[of "''allow_insecure_http''"] this[of "''secret_action''"]
  show ?thesis by (simp add: request_value_def)
qed

lemma int_of_scalar: "int64 i \<Longrightarrow> int_of (VNum (int_string i)) = Some i"
  by (simp add: int_of_def atoi_int_string)

lemma bool_of_scalar: "bool_of (if b then VTrue else VFalse) = Some b"
  by (simp add: bool_of_def)

lemma str_of_scalar: "ok s \<Longrightarrow> str_of (VStr s) ok = Some s"
  by (simp add: str_of_def)

lemma request_field_value:
  assumes "k \<in> set request_keys" "valid_field q k"
  shows "\<exists>q1. request_field k (scalar_value (request_value q k)) q0 = Some q1 \<and>
    request_value q1 k = request_value q k \<and> (\<forall>k'. k' \<in> set request_keys \<longrightarrow> k' \<noteq> k \<longrightarrow> request_value q1 k' = request_value q0 k')"
  using assms unfolding request_keys_def
  by (simp only: list.set, elim insertE emptyE; hypsubst)
    (simp_all add: request_field_simps valid_field_def request_value_def int_of_scalar bool_of_scalar str_of_scalar)

lemma scalar_value_not_null: "scalar v \<Longrightarrow> scalar_value v \<noteq> VNull"
  by (cases v) simp_all

lemma fields_loop_request:
  assumes "distinct ks" "set ks \<subseteq> set request_keys" "\<forall>k \<in> set ks. valid_field q k" "set ks \<inter> set seen = {}"
  shows "\<exists>q1. fields_loop (List.map (apsnd scalar_value) (List.map (\<lambda>k. (k, request_value q k)) ks)) seen q0 = Some (q1, rev ks @ seen) \<and>
    (\<forall>k \<in> set request_keys. request_value q1 k = request_value (if k \<in> set ks then q else q0) k)"
  using assms
proof (induction ks arbitrary: seen q0)
  case (Cons k ks)
  obtain q1 where q1: "request_field k (scalar_value (request_value q k)) q0 = Some q1"
    "request_value q1 k = request_value q k"
    "\<forall>k'. k' \<in> set request_keys \<longrightarrow> k' \<noteq> k \<longrightarrow> request_value q1 k' = request_value q0 k'"
    using request_field_value[of k q q0] Cons.prems by auto
  have "scalar_value (request_value q k) \<noteq> VNull"
    using Cons.prems(3) by (intro scalar_value_not_null) (simp add: valid_field_def)
  moreover obtain q2 where "fields_loop (List.map (apsnd scalar_value) (List.map (\<lambda>k. (k, request_value q k)) ks)) (k # seen) q1 =
      Some (q2, rev ks @ k # seen)"
    "\<forall>k' \<in> set request_keys. request_value q2 k' = request_value (if k' \<in> set ks then q else q1) k'"
    using Cons.IH[of "k # seen" q1] Cons.prems by auto
  ultimately show ?case
    using q1 Cons.prems by (intro exI[of _ q2]) auto
qed simp

section \<open>The frame is UTF-8\<close>

lemma utf8_int_string: "utf8_valid_bytes (bytes (int_string i) @ cs) \<longleftrightarrow> utf8_valid_bytes cs"
proof (rule utf8_ascii_append)
  have "of_char c < (128 :: nat)" if "is_digit c" for c
    using that by (simp add: is_digit_def)
  then show "\<forall>b \<in> set (bytes (int_string i)). b < 128"
    using nat_string_digits[of "nat i"] nat_string_digits[of "nat (- i)"]
    by (auto simp: int_string_def bytes_def list_all_iff)
qed

lemma utf8_scalar: "scalar v \<Longrightarrow> utf8_valid_bytes (bytes (marshal ff v) @ cs) \<longleftrightarrow> utf8_valid_bytes cs"
  by (cases v) (auto simp: utf8_encode_string utf8_int_string, auto simp: bytes_def utf8_ascii)

lemma utf8_fields:
  "\<forall>(k, v) \<in> set fs. utf8_valid k \<and> scalar v \<Longrightarrow>
     utf8_valid_bytes (bytes (marshal_fields ff fs) @ cs) \<longleftrightarrow> utf8_valid_bytes cs"
proof (induction fs arbitrary: cs)
  case (Cons kv fs)
  obtain k v where kv: "kv = (k, v)" by force
  have colon: "bytes (CHR '':'' # s) = 58 # bytes s" "bytes (CHR '','' # s) = 44 # bytes s" for s
    by (simp_all add: bytes_def)
  show ?case
    using Cons by (cases "fs = []")
      (simp_all add: kv bytes_append utf8_encode_string utf8_scalar colon utf8_ascii)
qed (simp add: bytes_def)

lemma utf8_marshal:
  assumes "\<forall>(k, v) \<in> set fs. utf8_valid k \<and> scalar v"
  shows "utf8_valid (marshal ff (JObj fs))"
proof -
  have brace: "bytes (CHR ''{'' # s) = 123 # bytes s" "bytes ''}'' = [125]" for s by (simp_all add: bytes_def)
  show ?thesis
    using utf8_fields[OF assms, of ff "[125]"]
    by (simp add: utf8_valid_def brace bytes_append utf8_ascii utf8_Nil)
qed

lemma utf8_plain: "plain s \<Longrightarrow> utf8_valid s"
proof -
  assume "plain s"
  then have "\<forall>b \<in> set (bytes s). b < 128"
    by (auto simp: plain_def plain_char_def Let_def list_all_iff bytes_def)
  then show ?thesis
    using utf8_ascii_append[of "bytes s" "[]"] by (simp add: utf8_valid_def utf8_Nil)
qed

section \<open>Properties\<close>

lemma parse_encoded:
  assumes "distinct ks" "set ks \<subseteq> set request_keys" "''type'' \<in> set ks"
    and "\<forall>k \<in> set ks. valid_field q k"
    and "\<forall>k \<in> set request_keys - set ks. request_value q k = request_value no_request k"
  shows "parseFrame (marshal ff (request_json q ks)) = (if key_sets q ks then Some q else None)"
proof -
  let ?fs = "List.map (\<lambda>k. (k, request_value q k)) ks"
  have "list_all plain request_keys"
    by (simp add: request_keys_def plain_eval plain_char_def)
  then have fs: "\<forall>(k, v) \<in> set ?fs. utf8_valid k \<and> scalar v"
    using assms(2,4) by (auto simp: valid_field_def list_all_iff intro!: utf8_plain)
  moreover have "?fs \<noteq> []" using assms(3) by auto
  ultimately have mem: "object_members (marshal ff (request_json q ks)) = Some (List.map (apsnd scalar_value) ?fs)"
    unfolding request_json_def by (intro object_members_marshal)
  obtain q1 where loop: "fields_loop (List.map (apsnd scalar_value) ?fs) [] no_request = Some (q1, rev ks)"
    "\<forall>k \<in> set request_keys. request_value q1 k = request_value (if k \<in> set ks then q else no_request) k"
    using fields_loop_request[OF assms(1,2,4), of "[]" no_request] by auto
  have "q1 = q"
    using loop(2) assms(5) by (intro request_eqI) auto
  moreover have "key_sets q (rev ks) = key_sets q ks"
    by (simp add: key_sets_def need_def)
  ultimately show ?thesis
    using loop(1) mem assms(3) utf8_marshal[OF fs, of ff]
    by (simp add: parseFrame_def request_json_def)
qed

lemma request_roundtrip_raw:
  assumes "distinct ks" "set ks \<subseteq> set request_keys" "''type'' \<in> set ks" "key_sets q ks"
    and "\<forall>k \<in> set ks. valid_field q k"
    and "\<forall>k \<in> set request_keys - set ks. request_value q k = request_value no_request k"
  shows "parseFrame (marshal ff (request_json q ks)) = Some q"
  using parse_encoded[OF assms(1-3,5,6)] assms(4) by simp

section \<open>The parser's key sets and the document\<close>







text \<open>
  C17. What the server may rely on once a frame is accepted: integers are in range; a torrent command
  carries a valid hash (or, to add, a magnet link of at most 2048 bytes) and a valid reference; a
  connection request has a TLS mode, a pin exactly in pin mode, a password of at most 256 bytes
  and never together with the stored one, and it replaces the secret exactly if it brings one.
\<close>

theorem accepted_request_valid:
  assumes "parseFrame frame = Some q"
  shows "int64 (q_id q) \<and> int64 (q_protocol q) \<and>
    (q_type q \<in> {''torrent.pause'', ''torrent.resume'', ''torrent.remove''} \<longrightarrow> validHash (q_hash q) \<and> validRef (q_ref q)) \<and>
    (q_type q = ''torrent.add'' \<longrightarrow> has_prefix ''magnet:'' (q_url q) \<and> length (q_url q) \<le> 2048 \<and> validRef (q_ref q)) \<and>
    (q_type q \<in> {''connection.test'', ''connection.configure''} \<longrightarrow>
       q_tls q \<in> {''system'', ''pin''} \<and> (q_tls q = ''pin'' \<longleftrightarrow> validPin (q_pin q)) \<and>
       length (q_url q) \<le> 2048 \<and> length (q_user q) \<le> 64 \<and> length (q_password q) \<le> 256 \<and>
       \<not> (q_password q \<noteq> [] \<and> q_stored q)) \<and>
    (q_type q = ''connection.configure'' \<longrightarrow> q_secret q \<in> {''keep'', ''replace'', ''delete''} \<and>
       (q_secret q = ''replace'' \<longleftrightarrow> q_password q \<noteq> []))"
proof -
  obtain seen where inv: "fields_inv q seen" and ks: "key_sets q seen"
    using assms by (rule parseFrame_inv)
  have torrent: "''hash'' \<in> set seen \<and> ''ref'' \<in> set seen"
    if "q_type q \<in> {''torrent.pause'', ''torrent.resume'', ''torrent.remove''}"
    using ks that by (auto simp: key_sets_def need_def)
  have add: "''ref'' \<in> set seen \<and> has_prefix ''magnet:'' (q_url q)" if "q_type q = ''torrent.add''"
    using ks that by (auto simp: key_sets_def need_def)
  have conn: "''tls_mode'' \<in> set seen \<and> (q_tls q = ''pin'' \<longleftrightarrow> ''pin'' \<in> set seen) \<and>
      \<not> (''password'' \<in> set seen \<and> ''use_stored_password'' \<in> set seen)"
    if "q_type q \<in> {''connection.test'', ''connection.configure''}"
    using ks that by (auto simp: key_sets_def need_def)
  have conf: "''secret_action'' \<in> set seen \<and> (q_secret q = ''replace'' \<longleftrightarrow> ''password'' \<in> set seen)"
    if "q_type q = ''connection.configure''"
    using ks that by (simp add: key_sets_def need_def)
  show ?thesis
    using fields_inv_bounds[OF inv] fields_inv_valid[OF inv] fields_inv_pin[OF inv] fields_inv_password[OF inv]
      fields_inv_stored[OF inv] torrent add conn conf by blast
qed

section \<open>Witnesses\<close>

definition pause_request :: ipc_request where
  "pause_request = no_request\<lparr>q_type := ''torrent.pause'', q_id := 12, q_ref := ''a:1'', q_hash := replicate 40 (CHR ''b'')\<rparr>"

lemma pause_texts: "utf8_valid (replicate 40 (CHR ''b''))" "utf8_valid ''torrent.pause''" "utf8_valid ''a:1''"
  "validHash (replicate 40 (CHR ''b''))"
  by (rule utf8_plain, simp add: plain_def plain_char_def list_all_iff)+
    (simp add: validHash_def list_all_iff is_hex_def is_lower_hex_def)

lemma pause_fields:
  "\<forall>k \<in> set [''hash'', ''id'', ''type'', ''ref'']. valid_field pause_request k"
  "\<forall>k \<in> set request_keys - set [''hash'', ''id'', ''type'', ''ref'']. request_value pause_request k = request_value no_request k"
  "key_sets pause_request [''hash'', ''id'', ''type'', ''ref'']"
  by (simp_all add: request_keys_def request_value_def pause_request_def no_request_def valid_field_def int64_defs
    key_sets_def need_def conn_keys_def validRef_def ref_char_def is_digit_def pause_texts)

lemma pause_keys: "distinct [''hash'', ''id'', ''type'', ''ref'']" "set [''hash'', ''id'', ''type'', ''ref''] \<subseteq> set request_keys"
  "''type'' \<in> set [''hash'', ''id'', ''type'', ''ref'']"
  by (simp_all add: request_keys_def)



theorem accepted_request_valid_witness:
  "validHash (q_hash pause_request) \<and> validRef (q_ref pause_request) \<and> int64 (q_id pause_request)"
  using accepted_request_valid[OF request_roundtrip_raw[OF pause_keys pause_fields(3,1,2), of "\<lambda>_. []"]]
  by (simp add: pause_request_def)

end
