(* ===== verification/FrameProps.thy ===== *)
theory FrameProps
  imports ProtocolLemmas ConnectionWire
begin

text \<open>
  Properties of the responses and pushes: the delta splitter loses nothing and its frames fit, a
  dashboard answer always fits, a snapshot item always fits once its name is short enough, every
  frame is one line; and two inputs on which the frame budget is missed.
\<close>

section \<open>Lengths of the parts\<close>

text \<open>
  \<open>encoding/json\<close> writes a float with 17 significant digits at most, in positional form when
  \<open>1e-6 <= |x| < 1e21\<close> and with an exponent otherwise. The longest texts are those of the form
  \<open>-0.0000012345678901234567\<close>: a sign, \<open>0.\<close>, five zeros and 17 digits, 25 bytes.
\<close>

definition short_floats :: "(real \<Rightarrow> string) \<Rightarrow> bool" where
  "short_floats ff \<longleftrightarrow> (\<forall>x. length (ff x) \<le> 25)"

definition item_ints :: "torrent_item \<Rightarrow> bool" where
  "item_ints t \<longleftrightarrow> int64 (it_dl t) \<and> int64 (it_up t) \<and> int64 (it_eta t) \<and> int64 (it_size t) \<and> int64 (it_completed t)"

lemma length_encoded: "length (runes s) \<le> n \<Longrightarrow> length (encode_string s) - 2 \<le> 6 * n"
  using length_encode_string(1)[of s] by simp

lemma item_length_bound:
  assumes "short_floats ff" "item_ints t" "length (runes (it_hash t)) \<le> h" "length (runes (it_name t)) \<le> n"
    "length (runes (it_state t)) \<le> s" "length (runes (it_category t)) \<le> c"
  shows "length (marshal ff (item_json t)) \<le> 267 + 6 * (h + n + s + c)"
proof -
  have "length (ff (it_progress t)) \<le> 25" "length (ff (it_ratio t)) \<le> 25"
    using assms(1) by (simp_all add: short_floats_def)
  moreover have "length (int_string (it_dl t)) \<le> 20" "length (int_string (it_up t)) \<le> 20"
    "length (int_string (it_eta t)) \<le> 20" "length (int_string (it_size t)) \<le> 20"
    "length (int_string (it_completed t)) \<le> 20"
    using assms(2) by (simp_all add: item_ints_def length_int_string)
  note nums = calculation this
  define esc where "esc u = length (encode_string u) - 2" for u
  show ?thesis
    using nums item_length[of ff t, folded esc_def] length_encoded[OF assms(3), folded esc_def]
      length_encoded[OF assms(4), folded esc_def] length_encoded[OF assms(5), folded esc_def]
      length_encoded[OF assms(6), folded esc_def] by (simp only: add_mult_distrib2)
qed

lemma head_length: "plain t \<Longrightarrow> length (marshal_fields ff (head t @ f # fs)) =
    length t + 23 + length (marshal_fields ff (f # fs))"
  by (simp add: head_def encode_plain encode_key plain_char_def Let_def ProtocolVersion_def int_string_def nat_string.simps)

lemma snapshot_frame_length:
  "length (snapshot_frame ff i idx t) = 71 + length (int_string i) + length (int_string (int idx)) + length (marshal ff (item_json t))"
  by (simp add: snapshot_frame_def head_def encode_key plain_char_def Let_def ProtocolVersion_def int_string_def nat_string.simps)

section \<open>Snapshot items\<close>

lemma halve_name_result:
  "length (snapshot_frame ff i idx (halve_name ff i idx t)) + 1 \<le> MaxFrame \<or>
     length (runes (it_name (halve_name ff i idx t))) \<le> 32"
proof (induction ff i idx t rule: halve_name.induct)
  case (1 ff i idx t)
  then show ?case by (subst halve_name.simps, subst halve_name.simps) auto
qed

text \<open>Only the name changes.\<close>

definition halve_keeps :: "torrent_item \<Rightarrow> torrent_item \<Rightarrow> bool" where
  "halve_keeps t t' \<longleftrightarrow> it_hash t' = it_hash t \<and> it_state t' = it_state t \<and> it_category t' = it_category t \<and>
     it_progress t' = it_progress t \<and> it_ratio t' = it_ratio t \<and> (item_ints t' \<longleftrightarrow> item_ints t)"

lemma halve_name_keeps: "halve_keeps t (halve_name ff i idx t)"
proof (induction ff i idx t rule: halve_name.induct)
  case (1 ff i idx t)
  show ?case
  proof (cases "length (snapshot_frame ff i idx t) + 1 > MaxFrame \<and> length (runes (it_name t)) > 32")
    case True
    define t' where "t' = t\<lparr>it_name := capString (it_name t) (length (runes (it_name t)) div 2)\<rparr>"
    have "halve_name ff i idx t = halve_name ff i idx t'"
      using True by (subst halve_name.simps) (simp add: t'_def)
    moreover have "halve_keeps t' (halve_name ff i idx t')"
      using 1 True by (simp add: t'_def)
    ultimately show ?thesis
      by (simp add: halve_keeps_def t'_def item_ints_def)
  next
    case False
    then have "halve_name ff i idx t = t" by (subst halve_name.simps) auto
    then show ?thesis by (simp add: halve_keeps_def)
  qed
qed

lemma snapshot_item_fits_raw:
  assumes "short_floats ff" "item_ints t" "int64 i" "idx < 2 ^ 64"
    and "length (runes (it_hash t)) \<le> 64" "length (runes (it_state t)) \<le> 64"
  shows "\<exists>f. EncodeSnapshotItem ff i idx t = Some f \<and> length f + 1 \<le> MaxFrame"
proof -
  define t1 where "t1 = t\<lparr>it_name := CapName (it_name t), it_category := capString (it_category t) 128\<rparr>"
  define t2 where "t2 = halve_name ff i idx t1"
  have keep: "halve_keeps t1 t2" unfolding t2_def by (rule halve_name_keeps)
  have cat: "length (runes (it_category t2)) \<le> 128"
    using keep by (simp add: halve_keeps_def t1_def length_capRunes)
  have "length (snapshot_frame ff i idx t2) + 1 \<le> MaxFrame" if "length (runes (it_name t2)) \<le> 32"
  proof -
    have "length (marshal ff (item_json t2)) \<le> 267 + 6 * (64 + 32 + 64 + 128)"
      using keep assms(2,5,6) that cat
      by (intro item_length_bound[OF assms(1)]) (auto simp: halve_keeps_def t1_def item_ints_def)
    then show ?thesis
      using length_int_string[OF assms(3)] length_uint_string[OF assms(4)]
      by (simp add: snapshot_frame_length MaxFrame_def)
  qed
  then have "length (snapshot_frame ff i idx t2) + 1 \<le> MaxFrame"
    using halve_name_result[of ff i idx t1] by (auto simp: t2_def)
  then show ?thesis
    by (simp add: EncodeSnapshotItem_def t1_def[symmetric] t2_def[symmetric] Let_def)
qed

text \<open>
  C35. Every torrent whose hash and state are at most 64 characters can be framed: whatever its name
  and category hold, halving the name ends with a frame of at most 4096 bytes.
\<close>

theorem snapshot_item_always_fits:
  assumes "short_floats ff" "item_ints t" "int64 i" "idx < 2 ^ 64"
    and "length (runes (it_hash t)) \<le> 64" "length (runes (it_state t)) \<le> 64"
  shows "\<exists>f. EncodeSnapshotItem ff i idx t = Some f \<and> length f + 1 \<le> MaxFrame"
  using assms by (rule snapshot_item_fits_raw)

section \<open>Deltas\<close>

lemma is_hex_plain: "is_hex c \<Longrightarrow> plain_char c"
  unfolding is_hex_def is_lower_hex_def is_digit_def plain_char_def Let_def by (elim disjE conjE; simp)

lemma validHash_plain: "validHash h \<Longrightarrow> plain h"
  unfolding validHash_def plain_def by (auto simp: is_hex_plain elim!: list.pred_mono_strong)

text \<open>
  C20. Splitting a change set loses nothing, repeats nothing and keeps the order: the frames carry
  exactly the changed torrents (with their names capped) and exactly the removed hashes, none of
  them is empty, and each fits the frame limit with its line feed.
\<close>

theorem deltas_lossless_and_fit:
  assumes "EncodeDeltas ff ev = Some frames" "\<forall>h \<in> set (de_removed ev). validHash h" "de_seq ev < 2 ^ 64"
  shows "\<exists>parts. frames = List.map (\<lambda>(c, r). delta_frame ff (de_seq ev) c r) parts \<and>
    concat (List.map fst parts) = List.map (\<lambda>t. t\<lparr>it_name := CapName (it_name t)\<rparr>) (de_changed ev) \<and>
    concat (List.map snd parts) = de_removed ev \<and> ([], []) \<notin> set parts \<and>
    list_all (\<lambda>f. length f + 1 \<le> MaxFrame) frames"
proof -
  obtain ps where ps: "delta_parts ff ev = Some ps"
    "frames = List.map (\<lambda>(c, r). delta_frame ff (de_seq ev) c r) ps"
    using assms(1) by (auto simp: EncodeDeltas_def)
  note ok = delta_parts_ok[OF ps(1)]
  have "length (delta_frame ff (de_seq ev) c r) + 1 \<le> MaxFrame" if "(c, r) \<in> set ps" for c r
  proof (rule delta_frame_length)
    show "part_size ff c r \<le> delta_budget" using ok(3)[OF that] by simp
    show "\<forall>h \<in> set r. plain h" using ok(2)[symmetric] that assms(2) by (auto intro!: validHash_plain)
  qed (rule assms(3))
  then show ?thesis
    using ok ps(2) by (intro exI[of _ ps]) (auto simp: list_all_iff)
qed

section \<open>The dashboard\<close>

definition counts_bounded :: "dashboard_counts \<Rightarrow> bool" where
  "counts_bounded c \<longleftrightarrow> dc_total c < 2 ^ 64 \<and> dc_active c < 2 ^ 64 \<and> dc_downloading c < 2 ^ 64 \<and>
     dc_seeding c < 2 ^ 64 \<and> dc_paused c < 2 ^ 64 \<and> dc_completed c < 2 ^ 64"

definition aggregate_bounded :: "dashboard_aggregate \<Rightarrow> bool" where
  "aggregate_bounded a \<longleftrightarrow> int64 (da_total a) \<and> int64 (da_completed a) \<and> int64 (da_remaining a)"

lemma counts_length: "counts_bounded c \<Longrightarrow> length (marshal ff (counts_json c)) \<le> 200"
proof -
  assume "counts_bounded c"
  then have b: "dc_total c < 2 ^ 64" "dc_active c < 2 ^ 64" "dc_downloading c < 2 ^ 64" "dc_seeding c < 2 ^ 64"
    "dc_paused c < 2 ^ 64" "dc_completed c < 2 ^ 64"
    by (simp_all only: counts_bounded_def)
  show ?thesis
    using b[THEN length_uint_string] by (simp add: counts_json_def encode_key plain_char_def Let_def)
qed

lemma aggregate_length: "aggregate_bounded a \<Longrightarrow> length (marshal ff (aggregate_json a)) \<le> 120"
proof -
  assume "aggregate_bounded a"
  then have b: "int64 (da_total a)" "int64 (da_completed a)" "int64 (da_remaining a)"
    by (simp_all only: aggregate_bounded_def)
  show ?thesis
    using b[THEN length_int_string] by (simp add: aggregate_json_def encode_key plain_char_def Let_def)
qed

lemma version_length: "length (encode_string (capString s dashboardVersionCapRunes)) \<le> 386"
  using length_encode_capped[of 64 s] by (simp add: dashboardVersionCapRunes_def)

lemma dashboard_empty_length:
  assumes "int64 i" "int64 (dd_dl d)" "int64 (dd_up d)" "\<forall>f. dd_free d = Some f \<longrightarrow> int64 f"
    "counts_bounded (dd_counts d)" "aggregate_bounded (dd_agg d)"
  shows "length (dashboard_frame ff i d nameCap 0) + 1 \<le> MaxFrame"
proof -
  note parts = counts_length[OF assms(5), of ff] aggregate_length[OF assms(6), of ff]
    version_length[of "dd_app d"] version_length[of "dd_api d"] assms(1-3)[THEN length_int_string]
  show ?thesis
  proof (cases "dd_free d")
    case None
    then show ?thesis using parts
      by (simp add: dashboard_frame_def head_def encode_key plain_char_def Let_def MaxFrame_def
          ProtocolVersion_def int_string_def[of 1] nat_string.simps[of "Suc 0"])
  next
    case (Some f)
    then have "length (int_string f) \<le> 20" using assms(4) by (simp add: length_int_string)
    then show ?thesis using parts Some
      by (simp add: dashboard_frame_def head_def encode_key plain_char_def Let_def MaxFrame_def
          ProtocolVersion_def int_string_def[of 1] nat_string.simps[of "Suc 0"])
  qed
qed

lemma dashboard_loop_fits:
  assumes "\<And>m. length (dashboard_frame ff i d m 0) + 1 \<le> MaxFrame"
  shows "length (dashboard_loop ff i d nameCap n) + 1 \<le> MaxFrame"
  using assms
proof (induction ff i d nameCap n rule: dashboard_loop.induct)
  case (1 ff i d nameCap n)
  then show ?case
    by (subst dashboard_loop.simps) (auto simp: Let_def not_less split: if_split)
qed

definition dashboard_bounded :: "dashboard_data \<Rightarrow> bool" where
  "dashboard_bounded d \<longleftrightarrow> int64 (dd_dl d) \<and> int64 (dd_up d) \<and>
     (case dd_free d of None \<Rightarrow> True | Some f \<Rightarrow> int64 f) \<and>
     counts_bounded (dd_counts d) \<and> aggregate_bounded (dd_agg d) \<and>
     (case dd_last d of None \<Rightarrow> True | Some l \<Rightarrow> counts_bounded (lk_counts l) \<and> aggregate_bounded (lk_agg l))"

text \<open>
  C36. A dashboard answer always fits the frame limit: with every number within its machine type, no
  torrent name, state, version string or float text can make the encoder exceed it.
\<close>

theorem dashboard_status_always_fits:
  assumes "int64 i" "dashboard_bounded d"
  shows "length (EncodeDashboardStatus ff i up d) + 1 \<le> MaxFrame"
proof (cases up)
  case True
  define d' where "d' = (if length (dd_active d) > ActiveListWireCap
    then d\<lparr>dd_active := take ActiveListWireCap (dd_active d)\<rparr> else d)"
  have d': "dashboard_bounded d'" using assms(2) by (simp add: d'_def dashboard_bounded_def)
  have "length (dashboard_frame ff i d' m 0) + 1 \<le> MaxFrame" for m
    using d' assms(1) by (intro dashboard_empty_length) (auto simp: dashboard_bounded_def)
  from dashboard_loop_fits[OF this] show ?thesis
    using True by (simp add: EncodeDashboardStatus_def Let_def d'_def[symmetric])
next
  case False
  note i = length_int_string[OF assms(1)]
  note unavailable = EncodeDashboardStatus_def head_def encode_key plain_char_def Let_def MaxFrame_def
    ProtocolVersion_def int_string_def[of 1] nat_string.simps[of "Suc 0"]
  show ?thesis
  proof (cases "dd_last d")
    case None
    then show ?thesis using False i by (simp add: unavailable)
  next
    case (Some l)
    then have "counts_bounded (lk_counts l)" "aggregate_bounded (lk_agg l)"
      using assms(2) by (simp_all add: dashboard_bounded_def)
    then show ?thesis
      using Some False i counts_length[of "lk_counts l" ff] aggregate_length[of "lk_agg l" ff]
        version_length[of "lk_app l"] version_length[of "lk_api l"]
      by (simp add: unavailable last_known_json_def)
  qed
qed

section \<open>One line\<close>

lemma marshal_single_line:
  assumes "\<And>x. list_all printing (ff x)"
  shows "CHR 0x0A \<notin> set (marshal ff v)"
proof
  assume "CHR 0x0A \<in> set (marshal ff v)"
  then have "printing (CHR 0x0A)" using printing_marshal(1)[OF assms, where v = v] by (auto simp: list_all_iff)
  then show False by (simp add: printing_def)
qed

lemma dashboard_loop_single_line:
  "(\<And>x. list_all printing (ff x)) \<Longrightarrow> CHR 0x0A \<notin> set (dashboard_loop ff i d cap n)"
proof (induction ff i d cap n rule: dashboard_loop.induct)
  case (1 ff i d cap n)
  have "CHR 0x0A \<notin> set (dashboard_frame ff i d cap n)"
    unfolding dashboard_frame_def by (rule marshal_single_line) (rule 1(3))
  then show ?case
    using 1 by (subst dashboard_loop.simps) (auto simp: Let_def)
qed

text \<open>
  Framing is safe: no response or push holds a line feed, whatever bytes the backend put into
  names, states, hashes or version strings.
\<close>

theorem frames_are_single_lines:
  assumes "\<And>x. list_all printing (ff x)"
  shows "CHR 0x0A \<notin> set (EncodeDashboardStatus ff i up d) \<and> CHR 0x0A \<notin> set (EncodeStatus ff i up st) \<and>
    CHR 0x0A \<notin> set (EncodeConnectionStatus ff i cs) \<and> CHR 0x0A \<notin> set (EncodeConnectionTest ff i td) \<and>
    CHR 0x0A \<notin> set (EncodeMutationResult ff r) \<and>
    (case EncodeSnapshotItem ff i idx t of None \<Rightarrow> True | Some f \<Rightarrow> CHR 0x0A \<notin> set f) \<and>
    (case EncodeDeltas ff ev of None \<Rightarrow> True | Some fs \<Rightarrow> CHR 0x0A \<notin> set (concat fs))"
proof -
  note nl = marshal_single_line[OF assms]
  have "CHR 0x0A \<notin> set (EncodeDashboardStatus ff i up d)"
    by (simp add: EncodeDashboardStatus_def Let_def nl dashboard_loop_single_line[OF assms] del: marshal.simps)
  moreover have "CHR 0x0A \<notin> set f" if "EncodeSnapshotItem ff i idx t = Some f" for f
    using that by (auto simp: EncodeSnapshotItem_def snapshot_frame_def Let_def nl simp del: marshal.simps split: if_splits)
  moreover have "CHR 0x0A \<notin> set (concat fs)" if "EncodeDeltas ff ev = Some fs" for fs
    using that by (auto simp: EncodeDeltas_def delta_frame_def nl simp del: marshal.simps)
  ultimately show ?thesis
    by (simp add: nl EncodeStatus_def EncodeConnectionStatus_def EncodeConnectionTest_def
        EncodeMutationResult_def del: marshal.simps split: option.split)
qed

section \<open>Strings that are escaped\<close>

lemma escape_replicate: "length (escape_bytes (replicate n 60)) = 6 * n"
  by (induction n) (simp_all add: escape_bytes_ascii escape_rune_def)

lemma runes_replicate: "runes (replicate n (CHR ''<'')) = replicate n 60"
proof -
  have "decode (replicate n 60) = replicate n 60"
  proof (induction n)
    case (Suc n)
    then show ?case by (subst decode.simps) simp
  qed simp
  then show ?thesis by (simp add: runes_def bytes_def)
qed

lemma encode_replicate: "length (encode_string (replicate n (CHR ''<''))) = 6 * n + 2"
  by (simp add: encode_string_def bytes_def escape_replicate)

lemma cap_replicate: "n \<le> m \<Longrightarrow> capString (replicate n (CHR ''<'')) m = replicate n (CHR ''<'')"
  by (simp add: capRunes_def runes_replicate)

definition wide_item :: torrent_item where
  "wide_item = \<lparr>it_hash = replicate 40 (CHR ''a''), it_name = replicate 512 (CHR ''<''), it_state = ''uploading'',
     it_progress = 1, it_dl = 0, it_up = 0, it_eta = 0, it_ratio = 1, it_category = replicate 128 (CHR ''<''),
     it_size = 1, it_completed = 1\<rparr>"

text \<open>
  A subscription can be impossible to keep: there is a torrent that a snapshot can carry and whose
  every change makes the delta encoder fail, so the subscriber is torn down, reconnects, gets the
  snapshot and is torn down again at the next change. The snapshot encoder shortens the name
  until the frame fits; the delta encoder gives up above its budget.
\<close>

theorem delta_rejects_what_snapshot_carries:
  assumes "short_floats ff"
  shows "\<exists>t. (\<exists>f. EncodeSnapshotItem ff 1 0 t = Some f) \<and>
    (\<forall>n. EncodeDeltas ff \<lparr>de_seq = n, de_changed = [t], de_removed = []\<rparr> = None)"
proof -
  have "length (marshal ff (item_json (wide_item\<lparr>it_name := CapName (it_name wide_item)\<rparr>))) > delta_budget"
    using encode_replicate[of 512] encode_replicate[of 128]
    by (simp add: item_length wide_item_def CapName_def NameCapRunes_def cap_replicate delta_budget_def)
  then have "EncodeDeltas ff \<lparr>de_seq = n, de_changed = [wide_item], de_removed = []\<rparr> = None" for n
    by (simp add: EncodeDeltas_def delta_parts_def Let_def)
  moreover have "\<exists>f. EncodeSnapshotItem ff 1 0 wide_item = Some f"
    using snapshot_item_fits_raw[OF assms, of wide_item 1 0] length_runes[of "replicate 40 (CHR ''a'')"]
      length_runes[of "''uploading''"]
    by (auto simp: wide_item_def item_ints_def int64_defs)
  ultimately show ?thesis by blast
qed

definition wide_status :: connection_status_data where
  "wide_status = \<lparr>cs_configured = True, cs_mode = replicate 16 (CHR ''<''), cs_url = replicate 256 (CHR ''<''),
     cs_host = replicate 128 (CHR ''<''), cs_transport = replicate 8 (CHR ''<''), cs_insecure = True,
     cs_user = replicate 64 (CHR ''<''), cs_hasSecret = True, cs_tls = replicate 16 (CHR ''<''),
     cs_pin = replicate 64 (CHR ''<''), cs_status = replicate 32 (CHR ''<''),
     cs_detail = replicate 128 (CHR ''<''), cs_epoch = 0\<rparr>"

text \<open>
  The caps of the connection status do not keep the frame limit: a provider whose strings are all
  at their cap and need escaping makes a frame of more than 4096 bytes.
\<close>

theorem connection_status_can_exceed_frame:
  "\<exists>d. length (EncodeConnectionStatus ff i d) + 1 > MaxFrame"
proof (rule exI[of _ wide_status])
  have "''pin'' \<noteq> []" by simp
  then show "length (EncodeConnectionStatus ff i wide_status) + 1 > MaxFrame"
    using encode_replicate[of 16] encode_replicate[of 256] encode_replicate[of 128] encode_replicate[of 8]
      encode_replicate[of 64] encode_replicate[of 32]
    by (simp add: EncodeConnectionStatus_def connection_status_fields_def head_def wide_status_def cap_replicate
        MaxFrame_def omit_empty_def)
qed

section \<open>Witnesses\<close>

definition zero_text :: "real \<Rightarrow> string" where
  "zero_text x = ''0''"

definition long_text :: "real \<Rightarrow> string" where
  "long_text x = ''-0.0000012345678901234567''"

lemma long_text_ok: "short_floats long_text"
  by (simp add: short_floats_def long_text_def)

lemma zero_text_ok: "short_floats zero_text" "list_all printing (zero_text x)"
  by (simp_all add: short_floats_def zero_text_def printing_def)

definition gone_hash :: string where
  "gone_hash = replicate 40 (CHR ''a'')"

definition small_item :: torrent_item where
  "small_item = wide_item\<lparr>it_hash := gone_hash, it_name := ''a'', it_category := []\<rparr>"

lemma gone_hash_ok: "validHash gone_hash" "length gone_hash = 40"
  by (simp_all add: gone_hash_def validHash_def list_all_iff is_hex_def is_lower_hex_def)

lemma one_removed: "EncodeDeltas ff \<lparr>de_seq = 3, de_changed = [], de_removed = [gone_hash]\<rparr> =
    Some [delta_frame ff 3 [] [gone_hash]]"
  by (simp add: EncodeDeltas_def delta_parts_def gone_hash_ok flush_full_def flush_def delta_budget_def Let_def)

theorem deltas_lossless_and_fit_witness: "length (delta_frame zero_text 3 [] [gone_hash]) + 1 \<le> MaxFrame"
  using deltas_lossless_and_fit[OF one_removed[of zero_text]] gone_hash_ok by auto

lemma small_item_ok: "item_ints small_item" "length (runes (it_hash small_item)) \<le> 64"
  "length (runes (it_state small_item)) \<le> 64"
  using length_runes[of gone_hash] length_runes[of "''uploading''"]
  by (simp_all add: small_item_def wide_item_def item_ints_def int64_defs gone_hash_ok)

theorem snapshot_item_always_fits_witness:
  "\<exists>f. EncodeSnapshotItem long_text 1 0 small_item = Some f \<and> length f + 1 \<le> MaxFrame"
  using snapshot_item_always_fits[OF long_text_ok small_item_ok(1) _ _ small_item_ok(2,3), of 1 0]
  by (simp add: int64_defs)

definition empty_dashboard :: dashboard_data where
  "empty_dashboard = \<lparr>dd_app = ''v5'', dd_api = ''2.11'', dd_dl = 0, dd_up = 0, dd_free = Some 10,
     dd_counts = no_counts, dd_agg = no_sums, dd_active = [], dd_last = None\<rparr>"

theorem dashboard_status_always_fits_witness:
  "length (EncodeDashboardStatus zero_text 1 True empty_dashboard) + 1 \<le> MaxFrame"
  by (rule dashboard_status_always_fits)
    (simp_all add: int64_defs empty_dashboard_def dashboard_bounded_def counts_bounded_def aggregate_bounded_def
      no_counts_def no_sums_def)

theorem delta_rejects_what_snapshot_carries_witness:
  "\<exists>t. (\<exists>f. EncodeSnapshotItem zero_text 1 0 t = Some f) \<and>
     (\<forall>n. EncodeDeltas zero_text \<lparr>de_seq = n, de_changed = [t], de_removed = []\<rparr> = None)"
  by (rule delta_rejects_what_snapshot_carries[OF zero_text_ok(1)])

theorem frames_are_single_lines_witness:
  "CHR 0x0A \<notin> set (EncodeDashboardStatus zero_text 1 True empty_dashboard)"
  using frames_are_single_lines[of zero_text 1 True empty_dashboard] zero_text_ok(2) by blast

end
