(* ===== verification/ConnIO.thy ===== *)
theory ConnIO
  imports Protocol
begin

text \<open>
  One connection's outbound side (\<^verbatim>\<open>connIO\<close> of internal/ipc/server.go): the bounded queue, the writer
  goroutine, the one-subscription latch and the teardown rules. The socket is what was written to it
  and whether it was closed. \<open>io_accepted\<close> is the history of the frames for which a send reported
  success; \<open>io_cancelled\<close> are the subscriptions whose cancel function was called.
\<close>

section \<open>State\<close>

record conn_io =
  io_out :: "string list"
  io_closed :: bool
  io_started :: bool
  io_writing :: bool
  io_cancel :: "nat option"
  io_subscribed :: bool
  io_sockClosed :: bool
  io_wire :: "string list"
  io_accepted :: "string list"
  io_cancelled :: "nat list"

definition outQueue :: nat where "outQueue = 256"

definition newConnIO :: conn_io where
  "newConnIO = \<lparr>io_out = [], io_closed = False, io_started = False, io_writing = False, io_cancel = None,
     io_subscribed = False, io_sockClosed = False, io_wire = [], io_accepted = [], io_cancelled = []\<rparr>"

definition alive :: "conn_io \<Rightarrow> bool" where
  "alive c \<longleftrightarrow> \<not> io_closed c"

definition line :: "string \<Rightarrow> string" where
  "line f = f @ [CHR 0x0A]"

section \<open>Teardown\<close>

definition cancelSubLocked :: "conn_io \<Rightarrow> conn_io" where
  "cancelSubLocked c =
     (case io_cancel c of None \<Rightarrow> c
      | Some s \<Rightarrow> c\<lparr>io_cancel := None, io_cancelled := io_cancelled c @ [s]\<rparr>)"

definition close_if_unstarted :: "conn_io \<Rightarrow> conn_io" where
  "close_if_unstarted c = (if \<not> io_started c then c\<lparr>io_sockClosed := True\<rparr> else c)"

definition teardown :: "conn_io \<Rightarrow> conn_io" where
  "teardown c =
     (if io_closed c then c else close_if_unstarted (cancelSubLocked (c\<lparr>io_closed := True\<rparr>)))"

definition setSubCancel :: "nat \<Rightarrow> conn_io \<Rightarrow> conn_io" where
  "setSubCancel s c = c\<lparr>io_cancel := Some s\<rparr>"

definition markSubscribed :: "conn_io \<Rightarrow> bool \<times> conn_io" where
  "markSubscribed c = (if io_subscribed c then (False, c) else (True, c\<lparr>io_subscribed := True\<rparr>))"

definition start_writer :: "conn_io \<Rightarrow> conn_io" where
  "start_writer c = c\<lparr>io_started := True, io_writing := True\<rparr>"

section \<open>Sending\<close>

definition enqueue :: "string \<Rightarrow> conn_io \<Rightarrow> conn_io" where
  "enqueue f c = c\<lparr>io_out := io_out c @ [line f], io_accepted := io_accepted c @ [line f]\<rparr>"

definition send :: "string \<Rightarrow> conn_io \<Rightarrow> bool \<times> conn_io" where
  "send f c =
     (if io_closed c then (False, c)
      else if length (io_out c) < outQueue then (True, enqueue f c)
      else (False, close_if_unstarted (cancelSubLocked (c\<lparr>io_closed := True\<rparr>))))"

text \<open>
  \<^verbatim>\<open>sendBlocking\<close>: \<open>n\<close> is how many more times it sleeps before the deadline, \<open>env\<close> what the rest of the
  program does to the connection during the sleep. The result has the sleeps that are left.
\<close>

fun sendBlocking :: "nat \<Rightarrow> (nat \<Rightarrow> conn_io \<Rightarrow> conn_io) \<Rightarrow> string \<Rightarrow> conn_io \<Rightarrow> bool \<times> nat \<times> conn_io" where
  "sendBlocking n env f c =
     (if io_closed c then (False, n, c)
      else if length (io_out c) < outQueue then (True, n, enqueue f c)
      else case n of
             0 \<Rightarrow> (False, 0, teardown c)
           | Suc k \<Rightarrow> sendBlocking k env f (env k c))"

declare sendBlocking.simps [simp del]

section \<open>The writer\<close>

text \<open>One turn of the writer: the next frame is written, or fails to be; when the queue is closed and
  drained it closes the socket.\<close>

definition writer_turn :: "bool \<Rightarrow> conn_io \<Rightarrow> conn_io" where
  "writer_turn ok c =
     (case io_out c of
        f # fs \<Rightarrow>
          if ok then c\<lparr>io_out := fs, io_wire := io_wire c @ [f]\<rparr>
          else (teardown (c\<lparr>io_out := fs\<rparr>))\<lparr>io_writing := False\<rparr>
      | [] \<Rightarrow> if io_closed c then c\<lparr>io_sockClosed := True, io_writing := False\<rparr> else c)"

text \<open>A frame written by the handshake, before the writer runs.\<close>

definition writeFrame :: "bool \<Rightarrow> string \<Rightarrow> conn_io \<Rightarrow> bool \<times> conn_io" where
  "writeFrame ok f c = (if ok then (True, c\<lparr>io_wire := io_wire c @ [line f], io_accepted := io_accepted c @ [line f]\<rparr>)
     else (False, c))"

section \<open>What a subscriber gets\<close>

text \<open>The snapshot with backpressure; a frame that is None aborts.\<close>

fun send_all :: "nat \<Rightarrow> (nat \<Rightarrow> conn_io \<Rightarrow> conn_io) \<Rightarrow> string option list \<Rightarrow> conn_io \<Rightarrow> bool \<times> conn_io" where
  "send_all n env [] c = (True, c)"
| "send_all n env (None # fs) c = (False, c)"
| "send_all n env (Some f # fs) c =
     (case sendBlocking n env f c of
        (False, _, c1) \<Rightarrow> (False, c1)
      | (True, n1, c1) \<Rightarrow> send_all n1 env fs c1)"

text \<open>\<^verbatim>\<open>sort.Slice\<close> by name and hash (hashes are distinct, so every sorting algorithm gives this order).\<close>

definition sortItems :: "torrent_item list \<Rightarrow> torrent_item list" where
  "sortItems ts = sort_key (\<lambda>t. (bytes (it_name t), bytes (it_hash t))) ts"

definition snapshot_frames :: "(real \<Rightarrow> string) \<Rightarrow> int \<Rightarrow> torrent_item list \<Rightarrow> string option list" where
  "snapshot_frames ff i items =
     [Some (EncodeSubscribed ff i), Some (EncodeSnapshotBegin ff i (length items))]
     @ List.map (\<lambda>(k, t). EncodeSnapshotItem ff i k t) (List.enumerate 0 items)
     @ [Some (EncodeSnapshotEnd ff i)]"

text \<open>\<open>s\<close> is the subscription, with its items; the result is whether the delta pump starts.\<close>

definition startSubscription :: "(real \<Rightarrow> string) \<Rightarrow> nat \<Rightarrow> (nat \<Rightarrow> conn_io \<Rightarrow> conn_io) \<Rightarrow> int \<Rightarrow> nat \<Rightarrow>
    torrent_item list \<Rightarrow> conn_io \<Rightarrow> bool \<times> conn_io" where
  "startSubscription ff n env i s items c =
     (case send_all n env (snapshot_frames ff i (sortItems items)) (setSubCancel s c) of
        (True, c1) \<Rightarrow> (True, c1)
      | (False, c1) \<Rightarrow> (False, teardown (c1\<lparr>io_cancelled := io_cancelled c1 @ [s]\<rparr>)))"

fun send_frames :: "string list \<Rightarrow> conn_io \<Rightarrow> bool \<times> conn_io" where
  "send_frames [] c = (True, c)"
| "send_frames (f # fs) c = (case send f c of (False, c1) \<Rightarrow> (False, c1) | (True, c1) \<Rightarrow> send_frames fs c1)"

text \<open>The delta pump of subscription \<open>s\<close> for one event, and for the end of the channel.\<close>

definition pump_delta :: "(real \<Rightarrow> string) \<Rightarrow> nat \<Rightarrow> delta_event \<Rightarrow> conn_io \<Rightarrow> bool \<times> conn_io" where
  "pump_delta ff s ev c =
     (case EncodeDeltas ff ev of
        None \<Rightarrow> (False, teardown (c\<lparr>io_cancelled := io_cancelled c @ [s]\<rparr>))
      | Some frames \<Rightarrow>
          (case send_frames frames c of
             (True, c1) \<Rightarrow> (True, c1)
           | (False, c1) \<Rightarrow> (False, c1\<lparr>io_cancelled := io_cancelled c1 @ [s]\<rparr>)))"

section \<open>Lemmas\<close>

text \<open>Frames are only ever added to the history.\<close>

definition grows :: "conn_io \<Rightarrow> conn_io \<Rightarrow> bool" where
  "grows c c' \<longleftrightarrow> prefix (io_accepted c) (io_accepted c') \<and> set (io_cancelled c) \<subseteq> set (io_cancelled c') \<and>
     (io_closed c \<longrightarrow> io_closed c')"

lemma grows_refl [simp]: "grows c c"
  by (simp add: grows_def)

lemma grows_trans: "grows a b \<Longrightarrow> grows b c \<Longrightarrow> grows a c"
  by (auto simp: grows_def intro: prefix_order.trans)

lemma teardown_fields:
  "io_closed (teardown c)" "io_out (teardown c) = io_out c" "io_wire (teardown c) = io_wire c"
  "io_accepted (teardown c) = io_accepted c" "io_started (teardown c) = io_started c"
  "io_writing (teardown c) = io_writing c" "set (io_cancelled c) \<subseteq> set (io_cancelled (teardown c))"
  "io_started c \<Longrightarrow> io_sockClosed (teardown c) = io_sockClosed c"
  by (auto simp: teardown_def close_if_unstarted_def cancelSubLocked_def split: option.splits)

lemma send_closed: "io_closed c \<Longrightarrow> send f c = (False, c)"
  by (simp add: send_def)

lemma send_cases:
  obtains (dead) "io_closed c" "send f c = (False, c)"
  | (sent) "\<not> io_closed c" "length (io_out c) < outQueue" "send f c = (True, enqueue f c)"
  | (slow) "\<not> io_closed c" "\<not> length (io_out c) < outQueue" "send f c = (False, teardown c)"
  by (cases "io_closed c"; cases "length (io_out c) < outQueue") (auto simp: send_def teardown_def)

lemma grows_teardown: "grows c (teardown c)"
  using teardown_fields[of c] by (auto simp: grows_def)

lemma grows_enqueue: "grows c (enqueue f c)"
  by (simp add: grows_def enqueue_def)

lemma grows_send: "grows c (snd (send f c))"
  by (cases rule: send_cases[of c f]) (simp_all add: grows_teardown grows_enqueue)

end
