(* ===== verification/Server.thy ===== *)
theory Server
  imports ConnIO ConnectionWire
begin

text \<open>
  The request loop and the server (internal/ipc/server.go): framing of the input, dispatch of one
  request to the services, the handshake, the set of clients, the result pump and shutdown.
  \<open>services\<close> is what the handler interfaces supply, over a state \<open>'d\<close>; a part that is None is a nil
  interface.
\<close>

section \<open>Reading\<close>

datatype read_error = ReadEOF | ReadTooLarge | ReadInvalid

text \<open>
  The loop of \<^verbatim>\<open>readRequest\<close> over the bytes that arrive before the stream ends or its deadline
  passes. \<^verbatim>\<open>ReadSlice\<close> returns a line, or a full buffer of 4096 bytes, or what there is with an error.
\<close>

function read_loop :: "string \<Rightarrow> string \<Rightarrow> (read_error + string) \<times> string" where
  "read_loop frame s =
     (if CHR 0x0A \<in> set (take MaxFrame s) then
        (let slice = takeWhile (\<lambda>c. c \<noteq> CHR 0x0A) s @ [CHR 0x0A] in
         (Inr (frame @ slice), drop (length slice) s))
      else if length s \<ge> MaxFrame then
        (let frame' = frame @ take MaxFrame s in
         if length frame' > MaxFrame then (Inl ReadTooLarge, drop MaxFrame s)
         else read_loop frame' (drop MaxFrame s))
      else if frame @ s = [] then (Inl ReadEOF, [])
      else (Inl ReadInvalid, []))"
  by pat_completeness auto
termination
  by (relation "measure (\<lambda>(frame, s). length s)") (auto simp: MaxFrame_def)

declare read_loop.simps [simp del]

definition readRequest :: "string \<Rightarrow> (read_error + ipc_request) \<times> string" where
  "readRequest s =
     (case read_loop [] s of
        (Inl e, r) \<Rightarrow> (Inl e, r)
      | (Inr frame, r) \<Rightarrow>
          if length frame > MaxFrame then (Inl ReadTooLarge, r)
          else (case parseFrame (butlast frame) of
                  None \<Rightarrow> (Inl ReadInvalid, r)
                | Some q \<Rightarrow> (Inr q, r)))"

definition failCode :: "read_error \<Rightarrow> string" where
  "failCode e = (if e = ReadTooLarge then CodeMessageTooLarge else CodeInvalidMessage)"

section \<open>Services\<close>

record 'd connections =
  cn_status :: "'d \<Rightarrow> connection_status_data"
  cn_test :: "connection_test_request \<Rightarrow> 'd \<Rightarrow> connection_test_data \<times> 'd"
  cn_configure :: "connection_configure_request \<Rightarrow> 'd \<Rightarrow> connection_configure_data \<times> 'd"

record 'd services =
  se_health :: "'d \<Rightarrow> bool"
  se_status :: "'d \<Rightarrow> status_data \<times> bool"
  se_dashboard :: "'d \<Rightarrow> dashboard_data \<times> bool"
  se_subs :: "('d \<Rightarrow> torrent_item list \<times> nat \<times> 'd) option"
  se_submit :: "(mutation_request \<Rightarrow> 'd \<Rightarrow> mutation_stage1 \<times> 'd) option"
  se_conns :: "'d connections option"

text \<open>The answer to a request: a last frame, a frame, or a snapshot.\<close>

datatype answer = Final string | Answer string | Snapshot int nat "torrent_item list"

definition unsupported :: "(real \<Rightarrow> string) \<Rightarrow> answer" where
  "unsupported ff = Final (EncodeError ff CodeUnsupported)"

text \<open>\<^verbatim>\<open>[]byte(req.Password)\<close> is never nil, also when no password was sent.\<close>

definition test_request :: "ipc_request \<Rightarrow> connection_test_request" where
  "test_request q = \<lparr>ct_url = q_url q, ct_user = q_user q, ct_password = Some (q_password q),
     ct_stored = q_stored q, ct_tls = q_tls q, ct_pin = q_pin q, ct_ack = q_ack q\<rparr>"

definition configure_request :: "ipc_request \<Rightarrow> connection_configure_request" where
  "configure_request q = \<lparr>ct_url = q_url q, ct_user = q_user q, ct_password = Some (q_password q),
     ct_stored = q_stored q, ct_tls = q_tls q, ct_pin = q_pin q, ct_ack = q_ack q, ct_action = q_secret q\<rparr>"

definition stage1_frame :: "(real \<Rightarrow> string) \<Rightarrow> int \<Rightarrow> mutation_stage1 \<Rightarrow> string" where
  "stage1_frame ff i s1 =
     (case m1_replay s1 of
        Some r \<Rightarrow> EncodeMutationResultWithID ff i r
      | None \<Rightarrow> if m1_outcome s1 = ''accepted'' then EncodeMutationAccepted ff i (m1_mutation s1) (m1_action s1) (m1_hash s1)
                else EncodeMutationRejected ff i (m1_outcome s1))"

text \<open>One request of the loop, with the state of the services after it.\<close>

definition dispatch :: "(real \<Rightarrow> string) \<Rightarrow> 'd services \<Rightarrow> bool \<Rightarrow> ipc_request \<Rightarrow> 'd \<Rightarrow> answer \<times> 'd" where
  "dispatch ff sv subscribed q d =
     (if q_type q = ''hello'' then (unsupported ff, d)
      else if q_type q = ''health'' then (Answer (EncodeHealth ff (q_id q) (se_health sv d)), d)
      else if q_type q = ''system.status'' then
        (case se_status sv d of (data, ok) \<Rightarrow> (Answer (EncodeStatus ff (q_id q) ok data), d))
      else if q_type q = ''dashboard.status'' then
        (case se_dashboard sv d of (data, ok) \<Rightarrow> (Answer (EncodeDashboardStatus ff (q_id q) ok data), d))
      else if q_type q = ''connection.status'' then
        (case se_conns sv of None \<Rightarrow> (unsupported ff, d)
         | Some cn \<Rightarrow> (Answer (EncodeConnectionStatus ff (q_id q) (cn_status cn d)), d))
      else if q_type q = ''connection.test'' then
        (case se_conns sv of None \<Rightarrow> (unsupported ff, d)
         | Some cn \<Rightarrow> (case cn_test cn (test_request q) d of
             (r, d1) \<Rightarrow> (Answer (EncodeConnectionTest ff (q_id q) r), d1)))
      else if q_type q = ''connection.configure'' then
        (case se_conns sv of None \<Rightarrow> (unsupported ff, d)
         | Some cn \<Rightarrow> (case cn_configure cn (configure_request q) d of
             (r, d1) \<Rightarrow> (Answer (if cf_ok r then EncodeConnectionConfigured ff (q_id q) r
                          else EncodeConnectionRejected ff (q_id q) (cf_rejection r)), d1)))
      else if q_type q = ''torrent.subscribe'' then
        (case se_subs sv of None \<Rightarrow> (unsupported ff, d)
         | Some sub \<Rightarrow>
             if subscribed then (Answer (EncodeError ff CodeUnsupported), d)
             else (case sub d of (items, s, d1) \<Rightarrow> (Snapshot (q_id q) s items, d1)))
      else if q_type q \<in> {''torrent.pause'', ''torrent.resume'', ''torrent.add'', ''torrent.remove''} then
        (case se_submit sv of None \<Rightarrow> (unsupported ff, d)
         | Some submit \<Rightarrow>
             (case submit \<lparr>mr_action = q_type q, mr_hash = q_hash q, mr_url = q_url q,
                 mr_delete = q_delete q, mr_ref = q_ref q\<rparr> d of
                (s1, d1) \<Rightarrow> (Answer (stage1_frame ff (q_id q) s1), d1)))
      else (unsupported ff, d))"

text \<open>A request that asks for result pushes from here on.\<close>

definition latches :: "'d services \<Rightarrow> ipc_request \<Rightarrow> bool" where
  "latches sv q \<longleftrightarrow> se_submit sv \<noteq> None \<and>
     q_type q \<in> {''torrent.pause'', ''torrent.resume'', ''torrent.add'', ''torrent.remove''}"

text \<open>
  The effect on the connection, and whether the loop goes on. \<open>n\<close> and \<open>env\<close> are the snapshot's
  patience and the interference during it.
\<close>

definition answer_on :: "(real \<Rightarrow> string) \<Rightarrow> nat \<Rightarrow> (nat \<Rightarrow> conn_io \<Rightarrow> conn_io) \<Rightarrow> answer \<Rightarrow> conn_io \<Rightarrow> bool \<times> conn_io" where
  "answer_on ff n env a c =
     (case a of
        Final f \<Rightarrow> (False, snd (send f c))
      | Answer f \<Rightarrow> (let c1 = snd (send f c) in (alive c1, c1))
      | Snapshot i s items \<Rightarrow>
          (let c1 = snd (startSubscription ff n env i s items (snd (markSubscribed c))) in (alive c1, c1)))"

section \<open>The handshake\<close>

datatype phase = Handshake | Ready | Gone

text \<open>The first frame: the next phase, and the connection. \<open>ok\<close> is whether the write succeeds.\<close>

definition handshake :: "(real \<Rightarrow> string) \<Rightarrow> bool \<Rightarrow> (read_error + ipc_request) \<Rightarrow> conn_io \<Rightarrow> phase \<times> conn_io" where
  "handshake ff ok r c =
     (case r of
        Inl ReadEOF \<Rightarrow> (Gone, c)
      | Inl e \<Rightarrow> (Gone, snd (writeFrame ok (EncodeError ff (failCode e)) c))
      | Inr q \<Rightarrow>
          if q_type q \<noteq> ''hello'' then (Gone, snd (writeFrame ok (EncodeError ff CodeHandshakeRequired) c))
          else if q_protocol q \<noteq> ProtocolVersion
          then (Gone, snd (writeFrame ok (EncodeError ff CodeVersionMismatch) c))
          else (case writeFrame ok (EncodeHello ff) c of
                  (False, c1) \<Rightarrow> (Gone, c1)
                | (True, c1) \<Rightarrow> (Ready, start_writer c1)))"

text \<open>A later frame that cannot be read.\<close>

definition read_failed :: "(real \<Rightarrow> string) \<Rightarrow> read_error \<Rightarrow> conn_io \<Rightarrow> conn_io" where
  "read_failed ff e c = (if e = ReadEOF then c else snd (send (EncodeError ff (failCode e)) c))"

section \<open>The server\<close>

definition maxClients :: nat where "maxClients = 16"

record 'd server =
  sr_clients :: "nat list"
  sr_mutConns :: "nat list"
  sr_closing :: bool
  sr_phase :: "nat \<Rightarrow> phase"
  sr_io :: "nat \<Rightarrow> conn_io"
  sr_next :: nat
  sr_data :: 'd

definition new_server :: "'d \<Rightarrow> 'd server" where
  "new_server d = \<lparr>sr_clients = [], sr_mutConns = [], sr_closing = False, sr_phase = (\<lambda>_. Gone),
     sr_io = (\<lambda>_. newConnIO), sr_next = 0, sr_data = d\<rparr>"

definition on_io :: "nat \<Rightarrow> (conn_io \<Rightarrow> conn_io) \<Rightarrow> 'd server \<Rightarrow> 'd server" where
  "on_io k f sr = sr\<lparr>sr_io := (sr_io sr)(k := f (sr_io sr k))\<rparr>"

text \<open>\<^verbatim>\<open>Accept\<close>: a connection beyond the limit, or during shutdown, is closed at once.\<close>

definition accept :: "'d server \<Rightarrow> 'd server" where
  "accept sr =
     (let k = sr_next sr; sr1 = sr\<lparr>sr_next := Suc k\<rparr> in
      if sr_closing sr \<or> length (sr_clients sr) \<ge> maxClients
      then sr1\<lparr>sr_io := (sr_io sr)(k := teardown newConnIO)\<rparr>
      else sr1\<lparr>sr_clients := k # sr_clients sr, sr_phase := (sr_phase sr)(k := Handshake),
               sr_io := (sr_io sr)(k := newConnIO)\<rparr>)"

text \<open>The deferred function of \<^verbatim>\<open>handle\<close>.\<close>

definition leave :: "nat \<Rightarrow> 'd server \<Rightarrow> 'd server" where
  "leave k sr = on_io k teardown (sr\<lparr>sr_clients := removeAll k (sr_clients sr),
     sr_mutConns := removeAll k (sr_mutConns sr), sr_phase := (sr_phase sr)(k := Gone)\<rparr>)"

definition first_frame :: "(real \<Rightarrow> string) \<Rightarrow> nat \<Rightarrow> bool \<Rightarrow> (read_error + ipc_request) \<Rightarrow> 'd server \<Rightarrow> 'd server" where
  "first_frame ff k ok r sr =
     (case handshake ff ok r (sr_io sr k) of
        (Ready, c) \<Rightarrow> sr\<lparr>sr_io := (sr_io sr)(k := c), sr_phase := (sr_phase sr)(k := Ready)\<rparr>
      | (_, c) \<Rightarrow> leave k (sr\<lparr>sr_io := (sr_io sr)(k := c)\<rparr>))"

definition next_frame :: "(real \<Rightarrow> string) \<Rightarrow> 'd services \<Rightarrow> nat \<Rightarrow> (nat \<Rightarrow> conn_io \<Rightarrow> conn_io) \<Rightarrow> nat \<Rightarrow>
    (read_error + ipc_request) \<Rightarrow> 'd server \<Rightarrow> 'd server" where
  "next_frame ff sv n env k r sr =
     (case r of
        Inl e \<Rightarrow> leave k (on_io k (read_failed ff e) sr)
      | Inr q \<Rightarrow>
          (let sr1 = (if latches sv q \<and> \<not> sr_closing sr
                 then sr\<lparr>sr_mutConns := List.insert k (sr_mutConns sr)\<rparr> else sr);
               (a, d) = dispatch ff sv (io_subscribed (sr_io sr k)) q (sr_data sr);
               (more, c) = answer_on ff n env a (sr_io sr k);
               sr2 = sr1\<lparr>sr_data := d, sr_io := (sr_io sr)(k := c)\<rparr>
           in if more then sr2 else leave k sr2))"

text \<open>\<^verbatim>\<open>pumpResults\<close> for one result: every latched connection gets the frame.\<close>

definition push_result :: "(real \<Rightarrow> string) \<Rightarrow> mutation_result \<Rightarrow> 'd server \<Rightarrow> 'd server" where
  "push_result ff r sr = fold (\<lambda>k. on_io k (\<lambda>c. snd (send (EncodeMutationResult ff r) c))) (sr_mutConns sr) sr"

text \<open>The first part of \<^verbatim>\<open>Close\<close>: the sockets of all clients are closed.\<close>

definition shut_down :: "'d server \<Rightarrow> 'd server" where
  "shut_down sr = sr\<lparr>sr_closing := True,
     sr_io := (\<lambda>k. if k \<in> set (sr_clients sr) then (sr_io sr k)\<lparr>io_sockClosed := True\<rparr> else sr_io sr k)\<rparr>"

section \<open>The machine\<close>

datatype server_event = EvAccept | EvFirst nat | EvFrame nat | EvWrite nat bool | EvResult mutation_result
  | EvDelta nat nat delta_event | EvDropped nat | EvClose

text \<open>What may happen to a connection while a snapshot waits: nothing, a turn of the writer, a pushed result.\<close>

definition interference :: "(nat \<Rightarrow> conn_io \<Rightarrow> conn_io) \<Rightarrow> bool" where
  "interference env \<longleftrightarrow> (\<forall>k c. env k c = c \<or> (io_writing c \<and> (\<exists>ok. env k c = writer_turn ok c)) \<or>
     (\<exists>f. env k c = snd (send f c)))"

inductive server_step :: "(real \<Rightarrow> string) \<Rightarrow> 'd services \<Rightarrow> 'd server \<Rightarrow> server_event \<Rightarrow> 'd server \<Rightarrow> bool"
  for ff sv where
  st_accept: "server_step ff sv sr EvAccept (accept sr)"
| st_first: "sr_phase sr k = Handshake \<Longrightarrow> server_step ff sv sr (EvFirst k) (first_frame ff k ok r sr)"
| st_frame: "sr_phase sr k = Ready \<Longrightarrow> interference env \<Longrightarrow>
    server_step ff sv sr (EvFrame k) (next_frame ff sv n env k r sr)"
| st_write: "io_writing (sr_io sr k) \<Longrightarrow> server_step ff sv sr (EvWrite k ok) (on_io k (writer_turn ok) sr)"
| st_result: "server_step ff sv sr (EvResult r) (push_result ff r sr)"
| st_delta: "io_subscribed (sr_io sr k) \<Longrightarrow>
    server_step ff sv sr (EvDelta k s ev) (on_io k (\<lambda>c. snd (pump_delta ff s ev c)) sr)"
| st_dropped: "io_subscribed (sr_io sr k) \<Longrightarrow> server_step ff sv sr (EvDropped k) (on_io k teardown sr)"
| st_close: "server_step ff sv sr EvClose (shut_down sr)"

end
