(* ===== verification/ServerLemmas.thy ===== *)
theory ServerLemmas
  imports Server
begin

text \<open>
  The invariant of a connection (\<open>io_inv\<close>) and of the server (\<open>server_inv\<close>), each preserved by every
  operation, and the interpretation of the generic machine on the server.
\<close>

section \<open>A connection\<close>

text \<open>
  The first line a client may read: the hello answer, or one of the errors of the handshake, after which
  nothing follows. \<open>closing\<close> says that the server shuts down.
\<close>

definition handshake_codes :: "string set" where
  "handshake_codes = {CodeInvalidMessage, CodeMessageTooLarge, CodeHandshakeRequired, CodeVersionMismatch}"

definition greetings :: "(real \<Rightarrow> string) \<Rightarrow> string \<times> string set" where
  "greetings ff = (line (EncodeHello ff), (\<lambda>code. line (EncodeError ff code)) ` handshake_codes)"

definition lone :: "'a set \<Rightarrow> 'a list \<Rightarrow> bool" where
  "lone S xs \<longleftrightarrow> xs = [] \<or> (\<exists>x \<in> S. xs = [x])"

lemma lone_simps [simp]: "lone S []" "lone S [x] \<longleftrightarrow> x \<in> S"
  by (simp_all add: lone_def)

definition io_inv :: "string \<times> string set \<Rightarrow> bool \<Rightarrow> conn_io \<Rightarrow> bool" where
  "io_inv hello closing c \<longleftrightarrow> length (io_out c) \<le> outQueue \<and> prefix (io_wire c) (io_accepted c) \<and>
     (io_writing c \<longrightarrow> io_started c \<and> io_wire c @ io_out c = io_accepted c) \<and>
     (io_started c \<longrightarrow> (\<not> io_writing c \<longrightarrow> io_closed c) \<and> prefix [fst hello] (io_wire c)) \<and>
     (\<not> io_started c \<longrightarrow> io_out c = [] \<and> io_wire c = io_accepted c \<and> lone (snd hello) (io_wire c) \<and> \<not> io_subscribed c) \<and>
     (io_sockClosed c \<longrightarrow> closing \<or> io_closed c \<and> io_wire c = io_accepted c)"

lemma io_inv_new: "io_inv hello closing newConnIO"
  by (simp add: io_inv_def newConnIO_def)

lemma io_inv_teardown: "io_inv hello closing c \<Longrightarrow> io_inv hello closing (teardown c)"
  by (auto simp: io_inv_def teardown_def close_if_unstarted_def cancelSubLocked_def split: option.splits)

lemma io_inv_send: "io_inv hello closing c \<Longrightarrow> io_started c \<Longrightarrow> io_inv hello closing (snd (send f c))"
proof (cases rule: send_cases[of c f])
  case sent
  assume "io_inv hello closing c" "io_started c"
  then show ?thesis using sent
    by (auto simp: io_inv_def enqueue_def prefix_def)
qed (simp_all add: io_inv_teardown)

lemma started_send [simp]: "io_started (snd (send f c)) = io_started c"
  by (cases rule: send_cases[of c f]) (simp_all add: teardown_fields enqueue_def)

lemma io_inv_writer: "io_inv hello closing c \<Longrightarrow> io_writing c \<Longrightarrow> io_inv hello closing (writer_turn ok c)"
proof (cases "io_out c")
  case Nil
  assume "io_inv hello closing c" "io_writing c"
  then show ?thesis using Nil by (auto simp: io_inv_def writer_turn_def)
next
  case (Cons f fs)
  assume a: "io_inv hello closing c" "io_writing c"
  show ?thesis
  proof (cases ok)
    case True
    then show ?thesis using a Cons by (auto simp: io_inv_def writer_turn_def prefix_def) metis+
  next
    case False
    have "io_inv hello closing ((teardown (c\<lparr>io_out := fs\<rparr>))\<lparr>io_writing := False\<rparr>)"
      using a Cons teardown_fields[of "c\<lparr>io_out := fs\<rparr>"]
      by (auto simp: io_inv_def prefix_def)
    then show ?thesis using False Cons by (simp add: writer_turn_def)
  qed
qed

lemma started_writer [simp]: "io_started (writer_turn ok c) = io_started c"
  by (simp add: writer_turn_def teardown_fields split: list.split)

lemma io_inv_interference:
  "interference env \<Longrightarrow> io_inv hello closing c \<Longrightarrow> io_started c \<Longrightarrow> io_inv hello closing (env k c) \<and> io_started (env k c)"
  unfolding interference_def using io_inv_send io_inv_writer started_send started_writer by metis

lemma io_inv_sendBlocking:
  "interference env \<Longrightarrow> io_inv hello closing c \<Longrightarrow> io_started c \<Longrightarrow>
     io_inv hello closing (snd (snd (sendBlocking n env f c))) \<and> io_started (snd (snd (sendBlocking n env f c)))"
proof (induction n env f c rule: sendBlocking.induct)
  case (1 n env f c)
  have enq: "io_inv hello closing (enqueue f c) \<and> io_started (enqueue f c)" if "\<not> io_closed c" "length (io_out c) < outQueue"
    using io_inv_send[OF 1(3,4), of f] that 1(4) by (simp add: send_def enqueue_def)
  show ?case
  proof (cases n)
    case 0
    then show ?thesis
      using 1(3,4) enq io_inv_teardown[OF 1(3)] by (subst (1 2) sendBlocking.simps) (simp add: teardown_fields)
  next
    case (Suc m)
    then show ?thesis
      using 1 enq io_inv_interference[OF 1(2,3,4), of m] by (subst (1 2) sendBlocking.simps) auto
  qed
qed

lemma io_inv_send_all:
  "interference env \<Longrightarrow> io_inv hello closing c \<Longrightarrow> io_started c \<Longrightarrow>
     io_inv hello closing (snd (send_all n env fs c)) \<and> io_started (snd (send_all n env fs c))"
proof (induction n env fs c rule: send_all.induct)
  case (3 n env f fs c)
  then show ?case
    using io_inv_sendBlocking[OF 3(2,3,4), of n f] by (auto split: prod.splits bool.splits)
qed simp_all

lemma io_inv_log: "io_inv hello closing (c\<lparr>io_cancelled := xs\<rparr>) = io_inv hello closing c"
  by (simp add: io_inv_def)

lemma io_inv_cancel: "io_inv hello closing (c\<lparr>io_cancel := x\<rparr>) = io_inv hello closing c"
  by (simp add: io_inv_def)

lemma io_inv_mark: "io_started c \<Longrightarrow> io_inv hello closing (snd (markSubscribed c)) = io_inv hello closing c"
  by (simp add: io_inv_def markSubscribed_def)

lemma io_inv_subscription:
  assumes "interference env" "io_inv hello closing c" "io_started c"
  shows "io_inv hello closing (snd (startSubscription ff n env i s items c)) \<and>
    io_started (snd (startSubscription ff n env i s items c))"
proof -
  have "io_inv hello closing (setSubCancel s c)" "io_started (setSubCancel s c)"
    using assms(2,3) by (simp_all add: setSubCancel_def io_inv_cancel)
  from io_inv_send_all[OF assms(1) this, of n "snapshot_frames ff i (sortItems items)"] show ?thesis
    by (auto simp: startSubscription_def io_inv_teardown io_inv_log teardown_fields split: prod.splits bool.splits)
qed

lemma io_inv_answer:
  assumes "interference env" "io_inv hello closing c" "io_started c"
  shows "io_inv hello closing (snd (answer_on ff n env a c)) \<and> io_started (snd (answer_on ff n env a c))"
proof (cases a)
  case (Snapshot i s items)
  have "io_inv hello closing (snd (markSubscribed c))" "io_started (snd (markSubscribed c))"
    using assms(2,3) io_inv_mark[OF assms(3)] by (simp_all add: markSubscribed_def)
  from io_inv_subscription[OF assms(1) this] show ?thesis
    by (simp add: Snapshot answer_on_def Let_def)
qed (use assms in \<open>simp_all add: answer_on_def Let_def io_inv_send\<close>)

lemma io_inv_frames:
  "io_inv hello closing c \<Longrightarrow> io_started c \<Longrightarrow>
     io_inv hello closing (snd (send_frames fs c)) \<and> io_started (snd (send_frames fs c))"
proof (induction fs arbitrary: c)
  case (Cons f fs)
  obtain sent c1 where c1: "send f c = (sent, c1)" by force
  have "io_inv hello closing c1" "io_started c1"
    using io_inv_send[OF Cons.prems, of f] started_send[of f c] Cons.prems(2) by (simp_all add: c1)
  then show ?case
    using Cons.IH[of c1] by (simp add: c1 split: bool.split)
qed simp

lemma io_inv_pump:
  assumes "io_inv hello closing c" "io_started c"
  shows "io_inv hello closing (snd (pump_delta ff s ev c)) \<and> io_started (snd (pump_delta ff s ev c))"
proof (cases "EncodeDeltas ff ev")
  case None
  then show ?thesis
    using assms by (simp add: pump_delta_def io_inv_teardown io_inv_log teardown_fields)
next
  case (Some frames)
  obtain sent c1 where c1: "send_frames frames c = (sent, c1)" by force
  then show ?thesis
    using io_inv_frames[OF assms, of frames] Some by (simp add: pump_delta_def io_inv_log split: bool.split)
qed

section \<open>The server\<close>

text \<open>One connection as the server sees it: in \<open>clients\<close>, in \<open>mutConns\<close>, not yet accepted.\<close>

definition conn_ok :: "string \<times> string set \<Rightarrow> bool \<Rightarrow> conn_io \<Rightarrow> phase \<Rightarrow> bool \<Rightarrow> bool \<Rightarrow> bool \<Rightarrow> bool" where
  "conn_ok hello closing c ph client latched future \<longleftrightarrow> io_inv hello closing c \<and> (ph \<noteq> Gone \<longleftrightarrow> client) \<and>
     (ph = Ready \<longrightarrow> io_started c) \<and> (ph = Handshake \<longrightarrow> io_wire c = [] \<and> \<not> io_started c) \<and>
     (latched \<longrightarrow> ph = Ready) \<and> (future \<longrightarrow> \<not> client)"

definition conn_inv :: "string \<times> string set \<Rightarrow> 'd server \<Rightarrow> nat \<Rightarrow> bool" where
  "conn_inv hello sr k \<longleftrightarrow> conn_ok hello (sr_closing sr) (sr_io sr k) (sr_phase sr k)
     (k \<in> set (sr_clients sr)) (k \<in> set (sr_mutConns sr)) (sr_next sr \<le> k)"

definition server_inv :: "(real \<Rightarrow> string) \<Rightarrow> 'd server \<Rightarrow> bool" where
  "server_inv ff sr \<longleftrightarrow> length (sr_clients sr) \<le> maxClients \<and> (\<forall>k. conn_inv (greetings ff) sr k)"

definition server_init :: "'d server \<Rightarrow> bool" where
  "server_init sr \<longleftrightarrow> sr = new_server (sr_data sr)"

lemma server_inv_init: "server_init sr \<Longrightarrow> server_inv ff sr"
  unfolding server_init_def
  by (erule ssubst) (simp add: server_inv_def conn_inv_def conn_ok_def new_server_def io_inv_new)

text \<open>An operation that touches one connection keeps the invariant of all others.\<close>

lemma server_invI:
  assumes "server_inv ff sr" "length (sr_clients sr') \<le> maxClients" "sr_closing sr' = sr_closing sr"
    and "\<And>j. j \<noteq> k \<Longrightarrow> sr_io sr' j = sr_io sr j \<and> sr_phase sr' j = sr_phase sr j \<and>
      (j \<in> set (sr_clients sr') \<longleftrightarrow> j \<in> set (sr_clients sr)) \<and>
      (j \<in> set (sr_mutConns sr') \<longleftrightarrow> j \<in> set (sr_mutConns sr)) \<and> (sr_next sr' \<le> j \<longrightarrow> sr_next sr \<le> j)"
    and "conn_inv (greetings ff) sr' k"
  shows "server_inv ff sr'"
proof -
  have "conn_inv (greetings ff) sr' j" if "j \<noteq> k" for j
  proof -
    have "conn_inv (greetings ff) sr j" using assms(1) by (simp add: server_inv_def)
    then show ?thesis using assms(3) assms(4)[OF that] by (simp add: conn_inv_def conn_ok_def)
  qed
  then have "conn_inv (greetings ff) sr' j" for j
    using assms(5) by (cases "j = k") simp_all
  then show ?thesis using assms(2) by (simp add: server_inv_def)
qed

lemma server_inv_on_io:
  assumes inv: "server_inv ff sr"
    and io: "io_inv (greetings ff) (sr_closing sr) (f (sr_io sr k))"
    and st: "io_started (f (sr_io sr k)) = io_started (sr_io sr k)"
    and ph: "sr_phase sr k = Handshake \<Longrightarrow> io_wire (f (sr_io sr k)) = []"
  shows "server_inv ff (on_io k f sr)"
proof (rule server_invI[OF inv, where k = k])
  show "conn_inv (greetings ff) (on_io k f sr) k"
    using inv io st ph by (simp add: server_inv_def conn_inv_def conn_ok_def on_io_def)
qed (use inv in \<open>simp_all add: server_inv_def on_io_def\<close>)

lemma server_inv_leave:
  assumes "server_inv ff sr"
  shows "server_inv ff (leave k sr)"
proof (rule server_invI[OF assms, where k = k])
  have "io_inv (greetings ff) (sr_closing sr) (sr_io sr k)"
    using assms by (simp add: server_inv_def conn_inv_def conn_ok_def)
  then show "conn_inv (greetings ff) (leave k sr) k"
    by (simp add: conn_inv_def conn_ok_def leave_def on_io_def io_inv_teardown)
  show "length (sr_clients (leave k sr)) \<le> maxClients"
    using assms le_trans[OF length_removeAll_less_eq[of k "sr_clients sr"]] by (simp add: server_inv_def leave_def on_io_def)
qed (simp_all add: leave_def on_io_def)

lemma server_inv_accept:
  assumes "server_inv ff sr"
  shows "server_inv ff (accept sr)"
proof (rule server_invI[OF assms, where k = "sr_next sr"])
  have "conn_inv (greetings ff) sr (sr_next sr)" using assms by (simp add: server_inv_def)
  then show "conn_inv (greetings ff) (accept sr) (sr_next sr)"
    by (auto simp: conn_inv_def conn_ok_def accept_def Let_def io_inv_new io_inv_teardown)
      (simp_all add: newConnIO_def)
qed (use assms in \<open>auto simp: accept_def Let_def server_inv_def\<close>)

lemma server_inv_io: "server_inv ff sr \<Longrightarrow> io_inv (greetings ff) (sr_closing sr) (sr_io sr k)"
  by (simp add: server_inv_def conn_inv_def conn_ok_def)

lemma server_inv_phase:
  assumes "server_inv ff sr"
  shows "sr_phase sr k = Ready \<Longrightarrow> io_started (sr_io sr k)"
    "sr_phase sr k = Handshake \<Longrightarrow> io_wire (sr_io sr k) = [] \<and> \<not> io_started (sr_io sr k)"
    "sr_phase sr k \<noteq> Gone \<longleftrightarrow> k \<in> set (sr_clients sr)" "k \<in> set (sr_mutConns sr) \<Longrightarrow> sr_phase sr k = Ready"
  using assms by (auto simp: server_inv_def conn_inv_def conn_ok_def)

text \<open>A started connection keeps the invariant under every operation that keeps it started.\<close>

lemma server_inv_started:
  assumes "server_inv ff sr" "io_started (sr_io sr k)"
    and "io_inv (greetings ff) (sr_closing sr) (f (sr_io sr k)) \<and> io_started (f (sr_io sr k))"
  shows "server_inv ff (on_io k f sr)"
  using assms server_inv_phase(2)[OF assms(1), of k] by (intro server_inv_on_io) auto

lemma started_subscribed: "io_inv hello closing c \<Longrightarrow> io_subscribed c \<Longrightarrow> io_started c"
  by (auto simp: io_inv_def)

lemma started_writing: "io_inv hello closing c \<Longrightarrow> io_writing c \<Longrightarrow> io_started c"
  by (auto simp: io_inv_def)

section \<open>Steps\<close>

lemma server_inv_first:
  assumes "server_inv ff sr" "sr_phase sr k = Handshake"
  shows "server_inv ff (first_frame ff k ok r sr)"
proof -
  define c where "c = sr_io sr k"
  obtain ph c1 where h: "handshake ff ok r c = (ph, c1)" by force
  have io: "io_inv (greetings ff) (sr_closing sr) c" "io_wire c = []" "\<not> io_started c"
    using server_inv_io[OF assms(1), of k] server_inv_phase(2)[OF assms] by (simp_all add: c_def)
  then have acc: "io_accepted c = []" "io_out c = []" "\<not> io_writing c" by (auto simp: io_inv_def)
  have w: "io_inv (greetings ff) (sr_closing sr) (c\<lparr>io_wire := [x], io_accepted := [x]\<rparr>)" if "x \<in> snd (greetings ff)" for x
    using io acc that by (auto simp: io_inv_def)
  have "ph = Ready \<and> c1 = start_writer (c\<lparr>io_wire := [line (EncodeHello ff)], io_accepted := [line (EncodeHello ff)]\<rparr>) \<or>
      ph = Gone \<and> (c1 = c \<or> (\<exists>x \<in> snd (greetings ff). c1 = c\<lparr>io_wire := [x], io_accepted := [x]\<rparr>))"
    using h io(2) acc(1) by (cases ok) (auto simp: handshake_def writeFrame_def greetings_def handshake_codes_def failCode_def
        split: sum.splits read_error.splits if_splits)
  then show ?thesis
  proof
    assume r: "ph = Ready \<and> c1 = start_writer (c\<lparr>io_wire := [line (EncodeHello ff)], io_accepted := [line (EncodeHello ff)]\<rparr>)"
    then have "first_frame ff k ok r sr = sr\<lparr>sr_io := (sr_io sr)(k := c1), sr_phase := (sr_phase sr)(k := Ready)\<rparr>"
      using h by (simp add: first_frame_def c_def)
    moreover have "io_inv (greetings ff) (sr_closing sr) c1 \<and> io_started c1"
      using r io acc by (auto simp: io_inv_def start_writer_def outQueue_def greetings_def)
    moreover have "k \<in> set (sr_clients sr)" "length (sr_clients sr) \<le> maxClients" "\<not> sr_next sr \<le> k"
      using assms server_inv_phase(3)[OF assms(1), of k] by (auto simp: server_inv_def conn_inv_def conn_ok_def)
    ultimately show ?thesis
      by (intro server_invI[OF assms(1), where k = k]) (simp_all add: conn_inv_def conn_ok_def)
  next
    assume g: "ph = Gone \<and> (c1 = c \<or> (\<exists>x \<in> snd (greetings ff). c1 = c\<lparr>io_wire := [x], io_accepted := [x]\<rparr>))"
    define sr1 where "sr1 = sr\<lparr>sr_io := (sr_io sr)(k := c1), sr_phase := (sr_phase sr)(k := Gone),
      sr_clients := removeAll k (sr_clients sr), sr_mutConns := removeAll k (sr_mutConns sr)\<rparr>"
    have "first_frame ff k ok r sr = leave k sr1"
      using h g by (simp add: first_frame_def c_def leave_def on_io_def sr1_def)
    moreover have "io_inv (greetings ff) (sr_closing sr) c1"
      using g w io(1) by auto
    then have "server_inv ff sr1"
      using assms(1) le_trans[OF length_removeAll_less_eq[of k "sr_clients sr"]]
      by (intro server_invI[OF assms(1), where k = k])
        (simp_all add: server_inv_def conn_inv_def conn_ok_def sr1_def)
    ultimately show ?thesis by (simp add: server_inv_leave)
  qed
qed

lemma server_inv_next:
  assumes "server_inv ff sr" "sr_phase sr k = Ready" "interference env"
  shows "server_inv ff (next_frame ff sv n env k r sr)"
proof -
  note io = server_inv_io[OF assms(1), of k] server_inv_phase(1)[OF assms(1,2)]
  show ?thesis
  proof (cases r)
    case (Inl e)
    have "server_inv ff (on_io k (read_failed ff e) sr)"
      using io by (intro server_inv_started[OF assms(1)]) (simp_all add: read_failed_def io_inv_send)
    then show ?thesis by (simp add: Inl next_frame_def server_inv_leave)
  next
    case (Inr q)
    obtain a d where a: "dispatch ff sv (io_subscribed (sr_io sr k)) q (sr_data sr) = (a, d)" by force
    obtain more c where c: "answer_on ff n env a (sr_io sr k) = (more, c)" by force
    define sr1 where "sr1 = (if latches sv q \<and> \<not> sr_closing sr
      then sr\<lparr>sr_mutConns := List.insert k (sr_mutConns sr)\<rparr> else sr)"
    have "io_inv (greetings ff) (sr_closing sr) c \<and> io_started c"
      using io_inv_answer[OF assms(3) io, of ff n a] by (simp add: c)
    moreover have "k \<in> set (sr_clients sr)" "length (sr_clients sr) \<le> maxClients" "\<not> sr_next sr \<le> k"
      using assms server_inv_phase(3)[OF assms(1), of k] by (auto simp: server_inv_def conn_inv_def conn_ok_def)
    moreover have "sr_closing sr1 = sr_closing sr" "sr_clients sr1 = sr_clients sr" "sr_phase sr1 = sr_phase sr"
      "sr_next sr1 = sr_next sr" "\<And>j. j \<noteq> k \<Longrightarrow> j \<in> set (sr_mutConns sr1) \<longleftrightarrow> j \<in> set (sr_mutConns sr)"
      by (simp_all add: sr1_def)
    ultimately have "server_inv ff (sr1\<lparr>sr_data := d, sr_io := (sr_io sr)(k := c)\<rparr>)"
      using assms(2) by (intro server_invI[OF assms(1), where k = k]) (simp_all add: conn_inv_def conn_ok_def)
    then show ?thesis
      by (simp add: Inr next_frame_def a c sr1_def[symmetric] Let_def server_inv_leave)
  qed
qed

lemma server_inv_push_fold:
  assumes "server_inv ff sr" "set ks \<subseteq> set (sr_mutConns sr)"
  shows "server_inv ff (fold (\<lambda>k. on_io k (\<lambda>c. snd (send f c))) ks sr)"
  using assms
proof (induction ks arbitrary: sr)
  case (Cons k ks)
  have st: "io_started (sr_io sr k)"
    using Cons.prems server_inv_phase(1,4)[OF Cons.prems(1), of k] by simp
  have "server_inv ff (on_io k (\<lambda>c. snd (send f c)) sr)"
    using server_inv_started[OF Cons.prems(1) st] io_inv_send[OF server_inv_io[OF Cons.prems(1)] st] st by simp
  then show ?case
    using Cons.IH[of "on_io k (\<lambda>c. snd (send f c)) sr"] Cons.prems(2) by (simp add: on_io_def)
qed simp

lemma io_inv_closing: "io_inv hello closing c \<Longrightarrow> io_inv hello True c \<and> io_inv hello True (c\<lparr>io_sockClosed := True\<rparr>)"
  by (auto simp: io_inv_def)

lemma server_inv_shut_down:
  assumes "server_inv ff sr"
  shows "server_inv ff (shut_down sr)"
proof -
  have "conn_inv (greetings ff) (shut_down sr) k" for k
    using assms io_inv_closing[OF server_inv_io[OF assms, of k]]
    by (auto simp: server_inv_def conn_inv_def conn_ok_def shut_down_def)
  then show ?thesis using assms by (simp add: server_inv_def shut_down_def)
qed

lemma server_inv_step:
  assumes "server_inv ff sr" "server_step ff sv sr e sr'"
  shows "server_inv ff sr'"
  using assms(2)
proof cases
  case st_accept
  then show ?thesis by (simp add: server_inv_accept assms(1))
next
  case (st_first k ok r)
  then show ?thesis by (simp add: server_inv_first assms(1))
next
  case (st_frame k env n r)
  then show ?thesis by (simp add: server_inv_next assms(1))
next
  case (st_write k ok)
  note io = server_inv_io[OF assms(1), of k]
  show ?thesis
    using st_write started_writing[OF io] io_inv_writer[OF io] by (simp add: server_inv_started assms(1))
next
  case (st_result r)
  then show ?thesis by (simp add: push_result_def server_inv_push_fold assms(1))
next
  case (st_delta k s ev)
  note io = server_inv_io[OF assms(1), of k]
  show ?thesis
    using st_delta started_subscribed[OF io] io_inv_pump[OF io] by (simp add: server_inv_started assms(1))
next
  case (st_dropped k)
  note io = server_inv_io[OF assms(1), of k]
  show ?thesis
    using st_dropped started_subscribed[OF io] io_inv_teardown[OF io]
    by (simp add: server_inv_started assms(1) teardown_fields)
next
  case st_close
  then show ?thesis by (simp add: server_inv_shut_down assms(1))
qed

interpretation srv: transition server_init "server_step ff sv" "server_inv ff"
  for ff :: "real \<Rightarrow> string" and sv :: "'d services"
  by unfold_locales (auto intro: server_inv_init server_inv_step)

end
