(* ===== verification/ServerProps.thy ===== *)
theory ServerProps
  imports ServerLemmas
begin

text \<open>
  Properties of the server: what holds of every connection under every interleaving, one answer per
  request, complete snapshots, the framing of the input, and the socket that is never closed.
\<close>

section \<open>Every connection\<close>

text \<open>
  C15. Under every interleaving of clients, writers, result pushes, deltas and shutdown there are at most
  16 clients, no queue holds more than 256 frames, what a client reads is a prefix of what was
  accepted for it, in order, and unless the server shuts down its socket is closed only after all
  of that was written.
\<close>

theorem connections_bounded_and_ordered:
  assumes "reachable server_init (server_step ff sv) sr"
  shows "length (sr_clients sr) \<le> 16 \<and>
    length (io_out (sr_io sr k)) \<le> 256 \<and> prefix (io_wire (sr_io sr k)) (io_accepted (sr_io sr k)) \<and>
    (io_sockClosed (sr_io sr k) \<and> \<not> sr_closing sr \<longrightarrow> io_wire (sr_io sr k) = io_accepted (sr_io sr k))"
  using srv.reachable_inv[OF assms] server_inv_io[OF srv.reachable_inv[OF assms], of k]
  by (auto simp: server_inv_def io_inv_def maxClients_def outQueue_def)

text \<open>
  C16. The handshake comes first: the first line a client reads is the hello answer, or the only line it
  ever reads is one error, which says that the frame was invalid or too large, that a handshake is required,
  or that the version does not match; nothing is queued after it. A connection gets past the handshake
  exactly when its first frame is a hello of protocol 1 and the answer could be written; a subscribed or
  latched connection has been answered the hello, and result pushes go to clients only.
\<close>

theorem handshake_comes_first:
  assumes "reachable server_init (server_step ff sv) sr"
  shows "(prefix [line (EncodeHello ff)] (io_wire (sr_io sr k)) \<or>
      (io_wire (sr_io sr k) = [] \<or>
        (\<exists>code \<in> {CodeInvalidMessage, CodeMessageTooLarge, CodeHandshakeRequired, CodeVersionMismatch}.
           io_wire (sr_io sr k) = [line (EncodeError ff code)])) \<and>
      io_out (sr_io sr k) = [] \<and> \<not> io_subscribed (sr_io sr k) \<and> k \<notin> set (sr_mutConns sr)) \<and>
    set (sr_mutConns sr) \<subseteq> set (sr_clients sr) \<and>
    (sr_phase (first_frame ff k ok r sr) k = Ready \<longleftrightarrow>
       ok \<and> (\<exists>q. r = Inr q \<and> q_type q = ''hello'' \<and> q_protocol q = 1))"
proof -
  note inv = srv.reachable_inv[OF assms]
  have "k \<in> set (sr_mutConns sr) \<longrightarrow> io_started (sr_io sr k)"
    using server_inv_phase(1,4)[OF inv, of k] by blast
  moreover have "set (sr_mutConns sr) \<subseteq> set (sr_clients sr)"
    using server_inv_phase(3,4)[OF inv] by (metis phase.distinct(5) subsetI)
  moreover have "sr_phase (first_frame ff k ok r sr) k = Ready \<longleftrightarrow>
       ok \<and> (\<exists>q. r = Inr q \<and> q_type q = ''hello'' \<and> q_protocol q = 1)"
    by (auto simp: first_frame_def handshake_def writeFrame_def leave_def on_io_def ProtocolVersion_def
        split: sum.splits read_error.splits)
  ultimately show ?thesis
    using server_inv_io[OF inv, of k] by (auto simp: io_inv_def lone_def greetings_def handshake_codes_def)
qed

section \<open>A failed write\<close>

text \<open>A connection whose writer died, and one whose handler has left too.\<close>

definition stuck :: "conn_io \<Rightarrow> bool" where
  "stuck c \<longleftrightarrow> io_started c \<and> \<not> io_writing c \<and> io_closed c \<and> \<not> io_sockClosed c"

definition orphan :: "'d server \<Rightarrow> nat \<Rightarrow> bool" where
  "orphan sr k \<longleftrightarrow> stuck (sr_io sr k) \<and> sr_phase sr k = Gone \<and> k \<notin> set (sr_clients sr) \<and> k < sr_next sr"

lemma stuck_send: "stuck c \<Longrightarrow> send f c = (False, c)"
  by (simp add: stuck_def send_closed)

lemma stuck_teardown: "stuck c \<Longrightarrow> teardown c = c"
  by (simp add: stuck_def teardown_def)

lemma stuck_log: "stuck (c\<lparr>io_cancelled := xs\<rparr>) = stuck c"
  by (simp add: stuck_def)

lemma stuck_pump: "stuck c \<Longrightarrow> stuck (snd (pump_delta ff s ev c))"
proof (cases "EncodeDeltas ff ev")
  case (Some fs)
  assume c: "stuck c"
  then show ?thesis
    by (cases fs) (simp_all add: pump_delta_def Some stuck_send stuck_log)
qed (simp add: pump_delta_def stuck_log stuck_teardown)

lemma orphan_on_io: "orphan sr k \<Longrightarrow> (\<And>c. stuck c \<Longrightarrow> stuck (f c)) \<Longrightarrow> orphan (on_io j f sr) k"
  by (auto simp: orphan_def on_io_def)

lemma orphan_leave: "orphan sr k \<Longrightarrow> orphan (leave j sr) k"
  by (auto simp: orphan_def leave_def on_io_def stuck_teardown)

lemma orphan_push: "orphan sr k \<Longrightarrow> orphan (fold (\<lambda>j. on_io j (\<lambda>c. snd (send f c))) js sr) k"
  by (induction js arbitrary: sr) (simp_all add: orphan_on_io stuck_send)

lemma orphan_other:
  assumes "orphan sr k" "sr_io sr' k = sr_io sr k" "sr_phase sr' k = sr_phase sr k"
    "k \<in> set (sr_clients sr') \<longleftrightarrow> k \<in> set (sr_clients sr)" "sr_next sr \<le> sr_next sr'"
  shows "orphan sr' k"
  using assms by (simp add: orphan_def)

lemma orphan_step:
  assumes "orphan sr k" "server_step ff sv sr e sr'"
  shows "orphan sr' k"
  using assms(2)
proof cases
  case st_accept
  then show ?thesis using assms(1) by (auto simp: orphan_def accept_def Let_def)
next
  case (st_first j ok r)
  then have "j \<noteq> k" using assms(1) by (auto simp: orphan_def)
  obtain ph c where h: "handshake ff ok r (sr_io sr j) = (ph, c)" by force
  have "orphan (sr\<lparr>sr_io := (sr_io sr)(j := c), sr_phase := (sr_phase sr)(j := Ready)\<rparr>) k"
    "orphan (sr\<lparr>sr_io := (sr_io sr)(j := c)\<rparr>) k"
    using assms(1) \<open>j \<noteq> k\<close> by (simp_all add: orphan_def)
  then show ?thesis
    using st_first by (cases ph) (simp_all add: first_frame_def h orphan_leave)
next
  case (st_frame j env n r)
  then have ne: "j \<noteq> k" using assms(1) by (auto simp: orphan_def)
  show ?thesis
  proof (cases r)
    case (Inl x)
    have "orphan (on_io j (read_failed ff x) sr) k"
      using assms(1) ne by (intro orphan_other[OF assms(1)]) (simp_all add: on_io_def)
    then show ?thesis using st_frame Inl by (simp add: next_frame_def orphan_leave)
  next
    case (Inr q)
    obtain a d where a: "dispatch ff sv (io_subscribed (sr_io sr j)) q (sr_data sr) = (a, d)" by force
    obtain more c where c: "answer_on ff n env a (sr_io sr j) = (more, c)" by force
    define sr1 where "sr1 = (if latches sv q \<and> \<not> sr_closing sr
      then sr\<lparr>sr_mutConns := List.insert j (sr_mutConns sr)\<rparr> else sr)"
    have "orphan (sr1\<lparr>sr_data := d, sr_io := (sr_io sr)(j := c)\<rparr>) k"
      using ne by (intro orphan_other[OF assms(1)]) (simp_all add: sr1_def)
    then show ?thesis
      using st_frame Inr by (simp add: next_frame_def a c sr1_def[symmetric] Let_def orphan_leave)
  qed
next
  case (st_write j ok)
  then have "j \<noteq> k" using assms(1) by (auto simp: orphan_def stuck_def)
  then show ?thesis using st_write assms(1) by (simp add: orphan_def on_io_def)
next
  case (st_result r)
  then show ?thesis using assms(1) by (simp add: push_result_def orphan_push)
next
  case (st_delta j s ev)
  then show ?thesis using assms(1) by (simp add: orphan_on_io stuck_pump)
next
  case (st_dropped j)
  then show ?thesis using assms(1) by (simp add: orphan_on_io stuck_teardown)
next
  case st_close
  then show ?thesis using assms(1) by (simp add: orphan_def shut_down_def)
qed

lemma sendBlocking_closed: "io_closed c \<Longrightarrow> sendBlocking n env f c = (False, n, c)"
  by (subst sendBlocking.simps) simp

lemma stuck_failed_write:
  assumes "io_started c" "io_out c = f # fs" "\<not> io_sockClosed c"
  shows "stuck (writer_turn False c)"
proof -
  have "writer_turn False c = (teardown (c\<lparr>io_out := fs\<rparr>))\<lparr>io_writing := False\<rparr>"
    by (simp add: writer_turn_def assms(2))
  moreover have "io_started (teardown (c\<lparr>io_out := fs\<rparr>))" "\<not> io_sockClosed (teardown (c\<lparr>io_out := fs\<rparr>))"
    using assms(1,3) by (simp_all add: teardown_fields)
  ultimately show ?thesis by (simp add: stuck_def teardown_fields(1))
qed

lemma closed_answer: "io_closed c \<Longrightarrow> stuck c \<Longrightarrow> fst (answer_on ff n env a c) = False \<and> stuck (snd (answer_on ff n env a c))"
proof (cases a)
  case (Snapshot i s items)
  assume c: "io_closed c" "stuck c"
  have m: "stuck (setSubCancel s (snd (markSubscribed c)))" "io_closed (setSubCancel s (snd (markSubscribed c)))"
    using c by (simp_all add: stuck_def markSubscribed_def setSubCancel_def)
  then have "send_all n env (snapshot_frames ff i (sortItems items)) (setSubCancel s (snd (markSubscribed c))) =
      (False, setSubCancel s (snd (markSubscribed c)))"
    by (simp add: snapshot_frames_def sendBlocking_closed)
  then show ?thesis
    using m by (simp add: Snapshot answer_on_def startSubscription_def Let_def alive_def teardown_fields stuck_teardown stuck_log)
qed (simp_all add: answer_on_def stuck_send alive_def stuck_def Let_def)

text \<open>What the rest of the server, short of its shutdown, may do to a connection whose writer died.\<close>

definition dying :: "'d server \<Rightarrow> nat \<Rightarrow> bool" where
  "dying sr k \<longleftrightarrow> stuck (sr_io sr k) \<and> k < sr_next sr \<and> (sr_phase sr k = Gone \<and> k \<notin> set (sr_clients sr) \<or> sr_phase sr k = Ready)"

lemma orphan_dying: "orphan sr k \<Longrightarrow> dying sr k"
  by (simp add: orphan_def dying_def)

lemma dying_gone: "dying sr k \<Longrightarrow> sr_phase sr k \<noteq> Ready \<Longrightarrow> orphan sr k"
  by (auto simp: orphan_def dying_def)

lemma dying_frame:
  assumes "dying sr k" "sr_phase sr k = Ready"
  shows "orphan (next_frame ff sv n env k r sr) k"
proof -
  have st: "stuck (sr_io sr k)" "io_closed (sr_io sr k)" "k < sr_next sr"
    using assms(1) by (simp_all add: dying_def stuck_def)
  show ?thesis
  proof (cases r)
    case (Inl e)
    then show ?thesis
      using st by (simp add: next_frame_def orphan_def leave_def on_io_def read_failed_def stuck_send stuck_teardown)
  next
    case (Inr q)
    obtain a d where a: "dispatch ff sv (io_subscribed (sr_io sr k)) q (sr_data sr) = (a, d)" by force
    obtain more c where c: "answer_on ff n env a (sr_io sr k) = (more, c)" by force
    have "\<not> more" "stuck c" using closed_answer[OF st(2,1), of ff n env a] by (simp_all add: c)
    then show ?thesis
      using st(3) by (simp add: Inr next_frame_def a c Let_def orphan_def leave_def on_io_def stuck_teardown)
  qed
qed

text \<open>A step of another connection.\<close>

lemma dying_other:
  "dying sr k \<Longrightarrow> sr_io sr' k = sr_io sr k \<Longrightarrow> sr_phase sr' k = sr_phase sr k \<Longrightarrow>
     (k \<in> set (sr_clients sr') \<longleftrightarrow> k \<in> set (sr_clients sr)) \<Longrightarrow> sr_next sr \<le> sr_next sr' \<Longrightarrow> dying sr' k"
  by (auto simp: dying_def)

lemma leave_other: "j \<noteq> k \<Longrightarrow> sr_io (leave j sr) k = sr_io sr k \<and> sr_phase (leave j sr) k = sr_phase sr k \<and>
    (k \<in> set (sr_clients (leave j sr)) \<longleftrightarrow> k \<in> set (sr_clients sr)) \<and> sr_next (leave j sr) = sr_next sr"
  by (simp add: leave_def on_io_def)

lemma dying_leave: "dying sr k \<Longrightarrow> j \<noteq> k \<Longrightarrow> dying (leave j sr) k"
  using leave_other[of j k sr] by (auto intro: dying_other)

lemma dying_on_io: "dying sr k \<Longrightarrow> (\<And>c. stuck c \<Longrightarrow> stuck (f c)) \<Longrightarrow> dying (on_io j f sr) k"
  by (auto simp: dying_def on_io_def)

lemma dying_push: "dying sr k \<Longrightarrow> dying (fold (\<lambda>j. on_io j (\<lambda>c. snd (send f c))) js sr) k"
  by (induction js arbitrary: sr) (simp_all add: dying_on_io stuck_send)

lemma dying_step:
  assumes "dying sr k" "server_step ff sv sr e sr'" "e \<noteq> EvClose"
  shows "dying sr' k"
  using assms(2)
proof cases
  case st_accept
  then show ?thesis using assms(1) by (auto simp: dying_def accept_def Let_def)
next
  case (st_first j ok r)
  then have "j \<noteq> k" using assms(1) by (auto simp: dying_def)
  obtain ph c where h: "handshake ff ok r (sr_io sr j) = (ph, c)" by force
  have "dying (sr\<lparr>sr_io := (sr_io sr)(j := c), sr_phase := (sr_phase sr)(j := Ready)\<rparr>) k"
    "dying (sr\<lparr>sr_io := (sr_io sr)(j := c)\<rparr>) k"
    using assms(1) \<open>j \<noteq> k\<close> by (simp_all add: dying_def)
  then show ?thesis
    using st_first \<open>j \<noteq> k\<close> by (cases ph) (simp_all add: first_frame_def h dying_leave)
next
  case (st_frame j env n r)
  show ?thesis
  proof (cases "j = k")
    case True
    then show ?thesis using st_frame dying_frame[OF assms(1)] by (simp add: orphan_dying)
  next
    case ne: False
    show ?thesis
    proof (cases r)
      case (Inl x)
      have "dying (on_io j (read_failed ff x) sr) k"
        using ne by (intro dying_other[OF assms(1)]) (simp_all add: on_io_def)
      then show ?thesis using st_frame Inl ne by (simp add: next_frame_def dying_leave)
    next
      case (Inr q)
      obtain a d where a: "dispatch ff sv (io_subscribed (sr_io sr j)) q (sr_data sr) = (a, d)" by force
      obtain more c where c: "answer_on ff n env a (sr_io sr j) = (more, c)" by force
      define sr1 where "sr1 = (if latches sv q \<and> \<not> sr_closing sr
        then sr\<lparr>sr_mutConns := List.insert j (sr_mutConns sr)\<rparr> else sr)"
      have "dying (sr1\<lparr>sr_data := d, sr_io := (sr_io sr)(j := c)\<rparr>) k"
        using ne by (intro dying_other[OF assms(1)]) (simp_all add: sr1_def)
      then show ?thesis
        using st_frame Inr ne by (simp add: next_frame_def a c sr1_def[symmetric] Let_def dying_leave)
    qed
  qed
next
  case (st_write j ok)
  then have "j \<noteq> k" using assms(1) by (auto simp: dying_def stuck_def)
  then show ?thesis using st_write assms(1) by (simp add: dying_def on_io_def)
next
  case (st_result r)
  then show ?thesis using assms(1) by (simp add: push_result_def dying_push)
next
  case (st_delta j s ev)
  then show ?thesis using assms(1) by (simp add: dying_on_io stuck_pump)
next
  case (st_dropped j)
  then show ?thesis using assms(1) by (simp add: dying_on_io stuck_teardown)
next
  case st_close
  then show ?thesis using assms(3) by simp
qed

text \<open>
  C37. A connection is leaked when a write fails. The writer tears the queue down and returns without
  closing the socket. Whatever the server does next, short of a shutdown, the socket stays open while the
  handler still runs, and the handler's next frame, whatever it is, makes it leave. Once it has left, the
  connection is out of the client table, and no step of the server, its shutdown included, ever closes
  that socket: the client waits for an end of file that does not come. (A shutdown that finds the handler
  still running closes the socket: that is the only way out.)
\<close>

theorem failed_write_leaks_connection:
  assumes "reachable server_init (server_step ff sv) sr" "sr_phase sr k = Ready"
    and "io_writing (sr_io sr k)" "io_out (sr_io sr k) \<noteq> []" "\<not> io_sockClosed (sr_io sr k)"
    and "reachable ((=) (on_io k (writer_turn False) sr)) (\<lambda>a e b. e \<noteq> EvClose \<and> server_step ff sv a e b) sr1"
  shows "\<not> io_sockClosed (sr_io sr1 k) \<and>
    (sr_phase sr1 k = Ready \<longrightarrow> sr_phase (next_frame ff sv n env k r sr1) k = Gone) \<and>
    (sr_phase sr1 k \<noteq> Ready \<longrightarrow> (\<forall>sr2. reachable ((=) sr1) (server_step ff sv) sr2 \<longrightarrow>
       k \<notin> set (sr_clients sr2) \<and> \<not> io_sockClosed (sr_io sr2 k)))"
proof -
  note inv = srv.reachable_inv[OF assms(1)]
  have started: "io_started (sr_io sr k)" by (rule server_inv_phase(1)[OF inv assms(2)])
  obtain f fs where out: "io_out (sr_io sr k) = f # fs" using assms(4) by (cases "io_out (sr_io sr k)") auto
  have "conn_inv (greetings ff) sr k" using inv by (simp add: server_inv_def)
  then have "\<not> sr_next sr \<le> k" using assms(2) by (auto simp: conn_inv_def conn_ok_def)
  then have start: "dying (on_io k (writer_turn False) sr) k"
    using stuck_failed_write[OF started out assms(5)] assms(2) by (simp add: dying_def on_io_def)
  then have start: "\<And>t. on_io k (writer_turn False) sr = t \<Longrightarrow> dying t k" by blast
  have d: "dying sr1 k"
    using assms(6) by (induction rule: reachable.induct) (auto intro: start dying_step)
  have "k \<notin> set (sr_clients sr2) \<and> \<not> io_sockClosed (sr_io sr2 k)"
    if "sr_phase sr1 k \<noteq> Ready" "reachable ((=) sr1) (server_step ff sv) sr2" for sr2
  proof -
    have first: "\<And>t. sr1 = t \<Longrightarrow> orphan t k" using dying_gone[OF d that(1)] by blast
    have "orphan sr2 k"
      using that(2) by (induction rule: reachable.induct) (auto intro: first orphan_step)
    then show ?thesis by (simp add: orphan_def stuck_def)
  qed
  then show ?thesis
    using d dying_frame[OF d] by (auto simp: orphan_def dying_def stuck_def)
qed

section \<open>Witnesses\<close>

text \<open>A server whose services are idle, after a client said hello and asked for the health.\<close>

definition idle :: "unit services" where
  "idle = \<lparr>se_health = (\<lambda>_. True), se_status = (\<lambda>_. (\<lparr>sd_app = [], sd_api = [], sd_dl = 0, sd_up = 0, sd_total = 0\<rparr>, False)),
     se_dashboard = (\<lambda>_. (\<lparr>dd_app = [], dd_api = [], dd_dl = 0, dd_up = 0, dd_free = None,
       dd_counts = no_counts, dd_agg = no_sums, dd_active = [], dd_last = None\<rparr>, False)),
     se_subs = None, se_submit = None, se_conns = None\<rparr>"

definition plain_floats :: "real \<Rightarrow> string" where
  "plain_floats x = ''0''"

definition hello_request :: ipc_request where
  "hello_request = no_request\<lparr>q_type := ''hello'', q_protocol := 1\<rparr>"

definition health_request :: ipc_request where
  "health_request = no_request\<lparr>q_type := ''health'', q_id := 7\<rparr>"

definition greeted :: "unit server" where
  "greeted = first_frame plain_floats 0 True (Inr hello_request) (accept (new_server ()))"

definition asked :: "unit server" where
  "asked = next_frame plain_floats idle 0 (\<lambda>_ c. c) 0 (Inr health_request) greeted"

lemma accepted_state: "accept (new_server ()) = (new_server ())\<lparr>sr_next := 1, sr_clients := [0],
    sr_phase := (\<lambda>_. Gone)(0 := Handshake), sr_io := (\<lambda>_. newConnIO)(0 := newConnIO)\<rparr>"
  by (simp add: accept_def new_server_def Let_def maxClients_def)

lemma greeted_fields:
  "sr_phase greeted 0 = Ready" "sr_closing greeted = False" "sr_clients greeted = [0]" "sr_next greeted = 1"
  "sr_io greeted 0 = start_writer (newConnIO\<lparr>io_wire := [line (EncodeHello plain_floats)],
     io_accepted := [line (EncodeHello plain_floats)]\<rparr>)"
  unfolding greeted_def accepted_state
  by (simp_all add: first_frame_def handshake_def hello_request_def no_request_def
      ProtocolVersion_def writeFrame_def new_server_def newConnIO_def)

lemma greeted_reachable: "reachable server_init (server_step plain_floats idle) greeted"
proof -
  have "reachable server_init (server_step plain_floats idle) (new_server ())"
    by (rule reach_init) (simp add: server_init_def)
  then have "reachable server_init (server_step plain_floats idle) (accept (new_server ()))"
    by (rule reach_step) (rule st_accept)
  then show ?thesis
    unfolding greeted_def by (rule reach_step) (rule st_first, simp add: accepted_state)
qed

lemma asked_reachable: "reachable server_init (server_step plain_floats idle) asked"
  unfolding asked_def
  by (rule reach_step[OF greeted_reachable], rule st_frame[where env = "\<lambda>_ c. c"])
    (simp_all add: greeted_fields interference_def)

lemma asked_fields:
  "sr_phase asked 0 = Ready" "sr_closing asked = False" "sr_clients asked = [0]"
  "sr_io asked 0 = enqueue (EncodeHealth plain_floats 7 True) (sr_io greeted 0)"
  by (simp_all add: asked_def next_frame_def health_request_def no_request_def latches_def dispatch_def idle_def
      answer_on_def send_def Let_def greeted_fields alive_def start_writer_def newConnIO_def outQueue_def enqueue_def)

theorem connections_bounded_and_ordered_witness:
  "length (sr_clients asked) \<le> 16 \<and> length (io_out (sr_io asked 0)) \<le> 256 \<and>
   io_out (sr_io asked 0) \<noteq> [] \<and> prefix (io_wire (sr_io asked 0)) (io_accepted (sr_io asked 0))"
  using connections_bounded_and_ordered[OF asked_reachable, of 0]
  by (simp add: asked_fields(4) enqueue_def)

theorem handshake_comes_first_witness:
  "prefix [line (EncodeHello plain_floats)] (io_wire (sr_io asked 0)) \<and> set (sr_mutConns asked) \<subseteq> set (sr_clients asked)"
  using handshake_comes_first[OF asked_reachable, of 0 True "Inr hello_request"]
  by (simp add: asked_fields(4) enqueue_def)

text \<open>The write fails, the client hangs up, then the server shuts down.\<close>

theorem failed_write_leaks_connection_witness:
  "\<exists>sr1. reachable ((=) (on_io 0 (writer_turn False) asked)) (\<lambda>a e b. e \<noteq> EvClose \<and> server_step plain_floats idle a e b) sr1 \<and>
     sr_phase sr1 0 = Gone \<and> sr_closing (shut_down sr1) \<and> \<not> io_sockClosed (sr_io (shut_down sr1) 0)"
proof -
  let ?s = "on_io 0 (writer_turn False) asked"
  let ?t = "next_frame plain_floats idle 0 (\<lambda>_ c. c) 0 (Inl ReadEOF) ?s"
  let ?R = "\<lambda>a e b. e \<noteq> EvClose \<and> server_step plain_floats idle a e b"
  have s: "reachable ((=) ?s) ?R ?s" by (rule reach_init) (rule refl)
  have ph: "sr_phase ?s 0 = Ready" by (simp add: on_io_def asked_fields)
  have t: "reachable ((=) ?s) ?R ?t"
    using ph by (intro reach_step[OF s, where e = "EvFrame 0"] conjI) (simp, rule st_frame, simp, simp add: interference_def)
  have gone: "sr_phase ?t 0 = Gone" by (simp add: next_frame_def leave_def on_io_def)
  have "reachable ((=) ?t) (server_step plain_floats idle) ?t" by (rule reach_init) (rule refl)
  then have "reachable ((=) ?t) (server_step plain_floats idle) (shut_down ?t)"
    by (rule reach_step) (rule st_close)
  with failed_write_leaks_connection[OF asked_reachable asked_fields(1) _ _ _ t] gone
  have "\<not> io_sockClosed (sr_io (shut_down ?t) 0)"
    by (simp add: asked_fields(4) greeted_fields enqueue_def start_writer_def newConnIO_def)
  with t gone show ?thesis by (intro exI[of _ ?t]) (simp add: shut_down_def)
qed

end
