(* ===== verification/RequestProps.thy ===== *)
theory RequestProps
  imports ServerProps
begin

text \<open>
  Properties of the request loop: the chunked reader against a reference reader, one answer per
  request, complete snapshots, and the writer that delivers what was accepted.
\<close>

section \<open>Reading\<close>

text \<open>
  The framing rule of docs/IPC.md, a line of at most 4096 bytes with its line feed, on the whole stream.
  What the document leaves open is how input without any line feed is refused: the answer for it, invalid
  below 8192 bytes and too large from there, is the one of the implementation, which fills a second
  buffer before it gives up.
\<close>

definition read_reference :: "string \<Rightarrow> read_error + ipc_request" where
  "read_reference s =
     (let frame = takeWhile (\<lambda>c. c \<noteq> CHR 0x0A) s in
      if CHR 0x0A \<in> set s then
        (if length frame + 1 > MaxFrame then Inl ReadTooLarge
         else case parseFrame frame of None \<Rightarrow> Inl ReadInvalid | Some q \<Rightarrow> Inr q)
      else if s = [] then Inl ReadEOF
      else if length s < 2 * MaxFrame then Inl ReadInvalid
      else Inl ReadTooLarge)"

lemma takeWhile_in_take:
  "CHR 0x0A \<in> set s \<Longrightarrow> CHR 0x0A \<in> set (take n s) \<longleftrightarrow> length (takeWhile (\<lambda>c. c \<noteq> CHR 0x0A) s) < n"
proof (induction s arbitrary: n)
  case (Cons c s)
  then show ?case by (cases n) auto
qed simp

lemma read_loop_line:
  assumes "CHR 0x0A \<in> set (take MaxFrame s)"
  shows "read_loop frame s = (Inr (frame @ takeWhile (\<lambda>c. c \<noteq> CHR 0x0A) s @ [CHR 0x0A]),
    drop (length (takeWhile (\<lambda>c. c \<noteq> CHR 0x0A) s) + 1) s)"
  using assms by (subst read_loop.simps) (simp add: Let_def)

lemma read_loop_full:
  assumes "CHR 0x0A \<notin> set (take MaxFrame s)" "MaxFrame \<le> length s"
  shows "read_loop frame s = (if frame = [] then read_loop (take MaxFrame s) (drop MaxFrame s)
    else (Inl ReadTooLarge, drop MaxFrame s))"
  using assms by (subst read_loop.simps) (auto simp: Let_def)

lemma read_loop_end:
  assumes "CHR 0x0A \<notin> set (take MaxFrame s)" "length s < MaxFrame"
  shows "read_loop frame s = (if frame @ s = [] then (Inl ReadEOF, []) else (Inl ReadInvalid, []))"
  using assms by (subst read_loop.simps) auto

lemma takeWhile_rest:
  assumes "x \<in> set s"
  shows "s = takeWhile (\<lambda>c. c \<noteq> x) s @ [x] @ drop (length (takeWhile (\<lambda>c. c \<noteq> x) s) + 1) s"
proof -
  let ?p = "\<lambda>c. c \<noteq> x"
  have "dropWhile ?p s \<noteq> []" using assms by (auto simp: dropWhile_eq_Nil_conv)
  then have "dropWhile ?p s = x # tl (dropWhile ?p s)"
    using hd_dropWhile[of ?p s] by (cases "dropWhile ?p s") auto
  moreover have "drop (length (takeWhile ?p s) + 1) s = tl (dropWhile ?p s)"
    by (simp add: dropWhile_eq_drop drop_Suc tl_drop)
  ultimately show ?thesis using takeWhile_dropWhile_id[of ?p s] by simp
qed

text \<open>A frame that does not end within the limit, whatever follows it.\<close>

lemma reader_too_long:
  assumes "CHR 0x0A \<notin> set (take MaxFrame s)" "MaxFrame \<le> length s"
  shows "fst (readRequest s) = read_reference s \<and> (\<exists>e. fst (readRequest s) = Inl e)"
proof -
  let ?t = "drop MaxFrame s"
  have run: "read_loop [] s = read_loop (take MaxFrame s) ?t" by (simp add: read_loop_full[OF assms])
  have ne: "take MaxFrame s \<noteq> []" using assms(2) by (auto simp: MaxFrame_def)
  have lf: "CHR 0x0A \<in> set s \<longleftrightarrow> CHR 0x0A \<in> set ?t"
    using assms(1) set_append[of "take MaxFrame s" ?t] by (simp del: set_append)
  have big: "\<not> length (takeWhile (\<lambda>c. c \<noteq> CHR 0x0A) s) < MaxFrame" if "CHR 0x0A \<in> set s"
    using takeWhile_in_take[OF that] assms(1) by blast
  consider (line) "CHR 0x0A \<in> set (take MaxFrame ?t)" | (full) "CHR 0x0A \<notin> set (take MaxFrame ?t)" "MaxFrame \<le> length ?t"
    | (rest) "CHR 0x0A \<notin> set (take MaxFrame ?t)" "length ?t < MaxFrame" by fastforce
  then show ?thesis
  proof cases
    case line
    then show ?thesis
      using run big lf in_set_takeD[OF line] assms(2)
      by (simp add: readRequest_def read_loop_line read_reference_def Let_def not_less)
  next
    case full
    then show ?thesis
      using run big lf ne assms(2)
      by (auto simp: readRequest_def read_loop_full read_reference_def Let_def not_less)
  next
    case rest
    then have "CHR 0x0A \<notin> set ?t" by simp
    then show ?thesis
      using run lf ne assms(2) rest
      by (auto simp: readRequest_def read_loop_end read_reference_def Let_def)
  qed
qed

text \<open>
  C31. The reader, which collects buffers of 4096 bytes, obeys the framing rule: it yields what the
  reference reader yields on the whole stream (with the implementation's own threshold for input that
  never ends a line), and after an accepted line it has consumed exactly
  that line, so the next request is read from its first byte.
\<close>

theorem reader_follows_framing_rule:
  "fst (readRequest s) = read_reference s \<and>
   (case fst (readRequest s) of Inl _ \<Rightarrow> True
    | Inr q \<Rightarrow> \<exists>frame. s = frame @ [CHR 0x0A] @ snd (readRequest s) \<and> parseFrame frame = Some q)"
proof -
  let ?frame = "takeWhile (\<lambda>c. c \<noteq> CHR 0x0A) s"
  consider (short) "CHR 0x0A \<in> set (take MaxFrame s)" | (long) "CHR 0x0A \<notin> set (take MaxFrame s)" "MaxFrame \<le> length s"
    | (tail) "CHR 0x0A \<notin> set (take MaxFrame s)" "length s < MaxFrame" by fastforce
  then show ?thesis
  proof cases
    case short
    then have lf: "CHR 0x0A \<in> set s" by (rule in_set_takeD)
    have "length ?frame < MaxFrame" using short takeWhile_in_take[OF lf] by blast
    then show ?thesis
      using takeWhile_rest[OF lf] lf
      by (auto simp: readRequest_def read_loop_line[OF short] read_reference_def Let_def split: option.split)
  next
    case long
    then obtain e where "fst (readRequest s) = Inl e" "fst (readRequest s) = read_reference s"
      using reader_too_long by blast
    then show ?thesis by simp
  next
    case tail
    then have "CHR 0x0A \<notin> set s" by simp
    then show ?thesis
      using tail by (auto simp: readRequest_def read_loop_end read_reference_def Let_def)
  qed
qed

section \<open>One answer\<close>

definition answers_id :: "(real \<Rightarrow> string) \<Rightarrow> int \<Rightarrow> string \<Rightarrow> bool" where
  "answers_id ff i f \<longleftrightarrow> (\<exists>t fs. f = marshal ff (JObj (head t @ (''id'', JInt i) # fs)))"

lemma answers_idI: "answers_id ff i (marshal ff (JObj (head t @ (''id'', JInt i) # fs)))"
  by (auto simp: answers_id_def simp del: marshal.simps)

lemma answers_dashboard_loop: "answers_id ff i (dashboard_loop ff i d cap n)"
proof (induction ff i d cap n rule: dashboard_loop.induct)
  case (1 ff i d cap n)
  have "answers_id ff i (dashboard_frame ff i d cap n)"
    unfolding dashboard_frame_def by (simp add: answers_idI del: marshal.simps)
  then show ?case using 1 by (subst dashboard_loop.simps) (auto simp: Let_def)
qed

lemma answers_encoders:
  "answers_id ff i (EncodeHealth ff i ok)" "answers_id ff i (EncodeStatus ff i ok st)"
  "answers_id ff i (EncodeDashboardStatus ff i ok d)" "answers_id ff i (EncodeConnectionStatus ff i cs)"
  "answers_id ff i (EncodeConnectionTest ff i td)" "answers_id ff i (EncodeConnectionConfigured ff i cf)"
  "answers_id ff i (EncodeConnectionRejected ff i rcode)" "answers_id ff i (stage1_frame ff i s1)"
  by (simp_all add: EncodeHealth_def EncodeStatus_def EncodeDashboardStatus_def EncodeConnectionStatus_def
      connection_status_fields_def EncodeConnectionTest_def EncodeConnectionConfigured_def EncodeConnectionRejected_def
      stage1_frame_def EncodeMutationResultWithID_def EncodeMutationAccepted_def EncodeMutationRejected_def
      answers_idI answers_dashboard_loop Let_def del: marshal.simps split: option.split)

definition command_types :: "string set" where
  "command_types = {''health'', ''system.status'', ''dashboard.status'', ''connection.status'', ''connection.test'',
     ''connection.configure'', ''torrent.pause'', ''torrent.resume'', ''torrent.add'', ''torrent.remove''}"

lemma dispatch_answers:
  assumes "q_type q \<in> command_types" "se_conns sv \<noteq> None" "se_submit sv \<noteq> None"
  shows "\<exists>f d'. dispatch ff sv sub q d = (Answer f, d') \<and> answers_id ff (q_id q) f"
  using assms unfolding command_types_def
  by (elim insertE emptyE)
    (auto simp: dispatch_def answers_encoders split: prod.split)

lemma dispatch_unknown:
  assumes "q_type q \<notin> command_types" "q_type q \<noteq> ''torrent.subscribe''"
  shows "dispatch ff sv sub q d = (unsupported ff, d)"
  using assms by (simp add: dispatch_def command_types_def)

lemma next_frame_io: "sr_io (next_frame ff sv n env k (Inr q) sr) k =
    (let (more, c) = answer_on ff n env (fst (dispatch ff sv (io_subscribed (sr_io sr k)) q (sr_data sr))) (sr_io sr k)
     in if more then c else teardown c)"
  by (simp add: next_frame_def leave_def on_io_def Let_def split: prod.split)

text \<open>
  One request, one frame: while the client keeps up, every command is answered by exactly one frame
  that carries the request's id, and the loop goes on; a request of an unknown type gets exactly the
  error frame, the services are not called, and the connection is torn down.
\<close>

theorem one_answer_per_request:
  assumes "\<not> io_closed (sr_io sr k)" "length (io_out (sr_io sr k)) < outQueue"
    and "se_conns sv \<noteq> None" "se_submit sv \<noteq> None"
  shows "(q_type q \<in> command_types \<longrightarrow>
      (\<exists>f. io_accepted (sr_io (next_frame ff sv n env k (Inr q) sr) k) = io_accepted (sr_io sr k) @ [line f] \<and>
        answers_id ff (q_id q) f \<and> alive (sr_io (next_frame ff sv n env k (Inr q) sr) k))) \<and>
    (q_type q \<notin> command_types \<and> q_type q \<noteq> ''torrent.subscribe'' \<longrightarrow>
      io_accepted (sr_io (next_frame ff sv n env k (Inr q) sr) k) =
        io_accepted (sr_io sr k) @ [line (EncodeError ff CodeUnsupported)] \<and>
      sr_data (next_frame ff sv n env k (Inr q) sr) = sr_data sr \<and>
      \<not> alive (sr_io (next_frame ff sv n env k (Inr q) sr) k))"
proof (intro conjI impI)
  assume "q_type q \<in> command_types"
  from dispatch_answers[OF this assms(3,4), of ff "io_subscribed (sr_io sr k)" "sr_data sr"]
  obtain f d' where "dispatch ff sv (io_subscribed (sr_io sr k)) q (sr_data sr) = (Answer f, d')" "answers_id ff (q_id q) f"
    by blast
  then show "\<exists>f. io_accepted (sr_io (next_frame ff sv n env k (Inr q) sr) k) = io_accepted (sr_io sr k) @ [line f] \<and>
        answers_id ff (q_id q) f \<and> alive (sr_io (next_frame ff sv n env k (Inr q) sr) k)"
    using assms(1,2) by (auto simp: next_frame_io answer_on_def send_def Let_def enqueue_def alive_def)
next
  assume "q_type q \<notin> command_types \<and> q_type q \<noteq> ''torrent.subscribe''"
  then have u: "dispatch ff sv (io_subscribed (sr_io sr k)) q (sr_data sr) = (unsupported ff, sr_data sr)"
    by (simp add: dispatch_unknown)
  then show "io_accepted (sr_io (next_frame ff sv n env k (Inr q) sr) k) =
        io_accepted (sr_io sr k) @ [line (EncodeError ff CodeUnsupported)]"
    "\<not> alive (sr_io (next_frame ff sv n env k (Inr q) sr) k)"
    using assms(1,2) by (simp_all add: next_frame_io answer_on_def unsupported_def send_def enqueue_def alive_def teardown_fields)
  show "sr_data (next_frame ff sv n env k (Inr q) sr) = sr_data sr"
    using u by (simp add: next_frame_def leave_def on_io_def Let_def split: prod.split)
qed

section \<open>The snapshot\<close>

lemma accepted_interference: "interference env \<Longrightarrow> \<exists>ys. io_accepted (env k c) = io_accepted c @ ys"
proof -
  assume "interference env"
  then consider "env k c = c" | ok where "env k c = writer_turn ok c" | f where "env k c = snd (send f c)"
    unfolding interference_def by blast
  then show ?thesis
  proof cases
    case 2
    then show ?thesis by (simp add: writer_turn_def teardown_fields split: list.split)
  next
    case 3
    then show ?thesis using grows_send[of c f] by (auto simp: grows_def prefix_def)
  qed simp
qed

lemma accepted_sendBlocking:
  "interference env \<Longrightarrow> sendBlocking n env f c = (True, m, c') \<Longrightarrow> \<exists>ys. io_accepted c' = io_accepted c @ ys @ [line f]"
proof (induction n env f c rule: sendBlocking.induct)
  case (1 n env f c)
  show ?case
  proof (cases "io_closed c \<or> length (io_out c) < outQueue \<or> n = 0")
    case True
    then show ?thesis
      using 1(3) by (subst (asm) sendBlocking.simps) (auto simp: enqueue_def split: if_splits nat.splits)
  next
    case False
    then obtain k where k: "n = Suc k" by (cases n) auto
    have "sendBlocking k env f (env k c) = (True, m, c')"
      using 1(3) False k by (subst (asm) sendBlocking.simps) simp
    then show ?thesis
      using 1(1)[OF _ _ k 1(2)] False accepted_interference[OF 1(2), of k c] by auto
  qed
qed

lemma accepted_send_all:
  "interference env \<Longrightarrow> send_all n env fs c = (True, c') \<Longrightarrow>
     \<exists>frames ys. fs = List.map Some frames \<and> io_accepted c' = io_accepted c @ ys \<and> subseq (List.map line frames) ys"
proof (induction n env fs c rule: send_all.induct)
  case (1 n env c)
  then show ?case by auto
next
  case (3 n env f fs c)
  obtain m c1 where b: "sendBlocking n env f c = (True, m, c1)" "send_all m env fs c1 = (True, c')"
    using 3(3) by (auto split: prod.splits bool.splits)
  obtain ys1 where 1: "io_accepted c1 = io_accepted c @ ys1 @ [line f]"
    using accepted_sendBlocking[OF 3(2) b(1)] by auto
  obtain frames ys where 2: "fs = List.map Some frames" "io_accepted c' = io_accepted c1 @ ys" "subseq (List.map line frames) ys"
    using 3(1)[OF b(1)[symmetric] refl refl 3(2) b(2)] by auto
  then show ?case
    using 1 by (intro exI[of _ "f # frames"] exI[of _ "ys1 @ line f # ys"]) (auto intro: list_emb_append2)
qed simp

text \<open>
  C30. A subscriber gets the whole snapshot or is disconnected: when the delivery succeeds, the answer,
  the begin frame with the count, one frame per torrent with its index in the wire order, and the
  end frame were all accepted, in this order (result pushes may lie in between); when it fails, the
  connection is torn down and the subscription is cancelled.
\<close>

theorem snapshot_complete_or_disconnected:
  assumes "interference env" "startSubscription ff n env i s items c = (ok, c')"
  shows "(ok \<longrightarrow> (\<exists>frames ys. List.map Some frames = snapshot_frames ff i (sortItems items) \<and>
      io_accepted c' = io_accepted c @ ys \<and> subseq (List.map line frames) ys)) \<and>
    (\<not> ok \<longrightarrow> io_closed c' \<and> s \<in> set (io_cancelled c'))"
proof -
  obtain ok1 c1 where r: "send_all n env (snapshot_frames ff i (sortItems items)) (setSubCancel s c) = (ok1, c1)" by force
  show ?thesis
  proof (cases ok1)
    case True
    then have "ok" "c' = c1" using assms(2) r by (simp_all add: startSubscription_def)
    then show ?thesis
      using accepted_send_all[OF assms(1), of n "snapshot_frames ff i (sortItems items)" "setSubCancel s c" c1] r True
      by (auto simp: setSubCancel_def)
  next
    case False
    then have c: "\<not> ok" "c' = teardown (c1\<lparr>io_cancelled := io_cancelled c1 @ [s]\<rparr>)"
      using assms(2) r by (simp_all add: startSubscription_def)
    have "s \<in> set (io_cancelled (teardown (c1\<lparr>io_cancelled := io_cancelled c1 @ [s]\<rparr>)))"
      using teardown_fields(7)[of "c1\<lparr>io_cancelled := io_cancelled c1 @ [s]\<rparr>"] by auto
    then show ?thesis using c by (simp add: teardown_fields)
  qed
qed

section \<open>Delivery\<close>

lemma writer_turns:
  "length (io_out c) = n \<Longrightarrow> io_wire ((writer_turn True ^^ n) c) = io_wire c @ io_out c \<and>
     io_out ((writer_turn True ^^ n) c) = [] \<and> io_closed ((writer_turn True ^^ n) c) = io_closed c \<and>
     io_accepted ((writer_turn True ^^ n) c) = io_accepted c"
proof (induction n arbitrary: c)
  case (Suc n)
  then obtain f fs where c: "io_out c = f # fs" by (cases "io_out c") auto
  define c1 where "c1 = writer_turn True c"
  have c1: "io_out c1 = fs" "io_wire c1 = io_wire c @ [f]" "io_closed c1 = io_closed c" "io_accepted c1 = io_accepted c"
    by (simp_all add: c1_def writer_turn_def c)
  have "(writer_turn True ^^ Suc n) c = (writer_turn True ^^ n) c1"
    by (simp add: funpow_swap1 c1_def)
  then show ?case
    using Suc.IH[of c1] Suc.prems c c1 by simp
qed simp

text \<open>
  What was accepted is delivered: in every reachable state a running writer whose writes succeed
  puts every accepted frame on the wire in as many turns as there are queued frames, also after a
  teardown (so a last error frame reaches the client); one more turn then closes the socket of a
  connection that was torn down.
\<close>

theorem accepted_frames_are_delivered:
  assumes "reachable server_init (server_step ff sv) sr" "io_writing (sr_io sr k)"
  shows "io_wire ((writer_turn True ^^ length (io_out (sr_io sr k))) (sr_io sr k)) = io_accepted (sr_io sr k) \<and>
    (io_closed (sr_io sr k) \<longrightarrow>
      io_sockClosed (writer_turn True ((writer_turn True ^^ length (io_out (sr_io sr k))) (sr_io sr k))))"
proof -
  have "io_wire (sr_io sr k) @ io_out (sr_io sr k) = io_accepted (sr_io sr k)"
    using server_inv_io[OF srv.reachable_inv[OF assms(1)], of k] assms(2) by (simp add: io_inv_def)
  then show ?thesis
    using writer_turns[of "sr_io sr k", OF refl] by (simp add: writer_turn_def)
qed

section \<open>Witnesses\<close>

definition no_status :: connection_status_data where
  "no_status = \<lparr>cs_configured = True, cs_mode = [], cs_url = [], cs_host = [], cs_transport = [], cs_insecure = False,
     cs_user = [], cs_hasSecret = False, cs_tls = [], cs_pin = [], cs_status = [], cs_detail = [], cs_epoch = 0\<rparr>"

definition no_test :: connection_test_data where
  "no_test = \<lparr>td_ok = False, td_status = [], td_detail = [], td_host = [], td_transport = [], td_app = [],
     td_api = [], td_offered = []\<rparr>"

definition busy :: mutation_stage1 where
  "busy = \<lparr>m1_outcome = ''busy'', m1_mutation = 0, m1_action = [], m1_hash = [], m1_replay = None\<rparr>"

definition full :: "unit services" where
  "full = idle\<lparr>se_submit := Some (\<lambda>_ d. (busy, d)),
     se_conns := Some \<lparr>cn_status = (\<lambda>_. no_status), cn_test = (\<lambda>_ d. (no_test, d)),
       cn_configure = (\<lambda>_ d. (\<lparr>cf_ok = False, cf_rejection = ''invalid_url'', cf_epoch = 0, cf_mode = [], cf_host = [],
         cf_transport = []\<rparr>, d))\<rparr>\<rparr>"

theorem one_answer_per_request_witness:
  "\<exists>f. io_accepted (sr_io (next_frame plain_floats full 0 (\<lambda>_ c. c) 0 (Inr health_request) greeted) 0) =
      io_accepted (sr_io greeted 0) @ [line f] \<and> answers_id plain_floats 7 f"
proof -
  have "se_conns full \<noteq> None" "se_submit full \<noteq> None" by (simp_all add: full_def)
  from one_answer_per_request[OF _ _ this, of greeted 0 health_request plain_floats 0 "\<lambda>_ c. c"] show ?thesis
    by (auto simp: greeted_fields start_writer_def newConnIO_def outQueue_def health_request_def no_request_def command_types_def)
qed

definition quiet :: conn_io where
  "quiet = start_writer newConnIO"

theorem snapshot_complete_or_disconnected_witness:
  "\<exists>c' frames. startSubscription plain_floats 3 (\<lambda>_ c. c) 9 5 [] quiet = (True, c') \<and>
     List.map Some frames = snapshot_frames plain_floats 9 (sortItems []) \<and>
     subseq (List.map line frames) (io_accepted c')"
proof -
  have "fst (startSubscription plain_floats 3 (\<lambda>_ c. c) 9 5 [] quiet)"
    by (simp add: startSubscription_def snapshot_frames_def sortItems_def sendBlocking.simps[of 3]
        quiet_def setSubCancel_def enqueue_def start_writer_def newConnIO_def outQueue_def)
  then obtain c' where r: "startSubscription plain_floats 3 (\<lambda>_ c. c) 9 5 [] quiet = (True, c')"
    by (cases "startSubscription plain_floats 3 (\<lambda>_ c. c) 9 5 [] quiet") auto
  have "interference (\<lambda>_ c. c)" by (simp add: interference_def)
  from snapshot_complete_or_disconnected[OF this r] show ?thesis
    using r by (auto simp: quiet_def start_writer_def newConnIO_def)
qed

theorem accepted_frames_are_delivered_witness:
  "io_wire (writer_turn True (sr_io asked 0)) =
     [line (EncodeHello plain_floats), line (EncodeHealth plain_floats 7 True)]"
  using accepted_frames_are_delivered[OF asked_reachable, of 0]
  by (simp add: asked_fields(4) greeted_fields enqueue_def start_writer_def newConnIO_def)

end
