(* ===== verification/SocketPath.thy ===== *)
theory SocketPath
  imports Protocol
begin

text \<open>
  The socket file of the IPC server (internal/ipc/server.go): validation of its directory, recovery of
  a stale socket, creation and removal. The file system is what \<^verbatim>\<open>lstat\<close>, \<^verbatim>\<open>readlink\<close> and \<^verbatim>\<open>stat\<close> answer
  at a path, what a connection attempt at a path meets, and where the calls that change it fail. How
  the kernel walks a path is in PathWalk. Other processes act between two
  system calls: \<open>intf k\<close> is what they do before the \<open>k\<close>-th of the calls that follow the first one.
\<close>

section \<open>Paths\<close>

text \<open>\<^verbatim>\<open>filepath.Clean\<close>, \<^verbatim>\<open>Join\<close> and \<^verbatim>\<open>Dir\<close> on absolute paths.\<close>

fun clean_parts :: "string list \<Rightarrow> string list \<Rightarrow> string list" where
  "clean_parts acc [] = rev acc"
| "clean_parts acc (c # cs) =
     (if c = [] \<or> c = ''.'' then clean_parts acc cs
      else if c = ''..'' then clean_parts (tl acc) cs
      else clean_parts (c # acc) cs)"

definition clean_abs :: "string \<Rightarrow> string" where
  "clean_abs p = CHR ''/'' # join_with (CHR ''/'') (clean_parts [] (split_on (CHR ''/'') p))"

definition is_abs :: "string \<Rightarrow> bool" where
  "is_abs p \<longleftrightarrow> has_prefix ''/'' p"

definition path_join :: "string \<Rightarrow> string \<Rightarrow> string" where
  "path_join a b = clean_abs (a @ CHR ''/'' # b)"

definition path_dir :: "string \<Rightarrow> string" where
  "path_dir p = clean_abs (rev (dropWhile (\<lambda>c. c \<noteq> CHR ''/'') (rev p)))"

section \<open>The file system\<close>

datatype fkind = KDir | KFile | KSocket | KLink

record finfo =
  fi_kind :: fkind
  fi_perm :: nat
  fi_uid :: nat
  fi_dev :: nat
  fi_ino :: nat

datatype 'a sysres = SysOk 'a | SysAbsent | SysFail

text \<open>What a connection attempt meets: nobody listens, the path is gone, another error, or a peer that
  accepts the hello or not and then sends some bytes until it stops or the deadline passes.\<close>

datatype peer = PeerRefused | PeerGone | PeerError | PeerUp bool string

record osys =
  os_lstat :: "string \<Rightarrow> finfo sysres"
  os_stat :: "string \<Rightarrow> finfo sysres"
  os_peer :: "string \<Rightarrow> peer"
  os_locked :: "string \<Rightarrow> bool"
  os_chmodFails :: "string \<Rightarrow> bool"
  os_statFails :: "string \<Rightarrow> bool"
  os_target :: "string \<Rightarrow> string"

text \<open>
  \<open>os_locked\<close> are the paths where creating or removing fails, \<open>os_chmodFails\<close> and \<open>os_statFails\<close> those where
  the \<^verbatim>\<open>chmod\<close> and the \<^verbatim>\<open>stat\<close> of a new entry fail; \<open>os_target\<close> is what a symbolic link holds.
\<close>

definition set_entry :: "string \<Rightarrow> finfo sysres \<Rightarrow> osys \<Rightarrow> osys" where
  "set_entry p r w = w\<lparr>os_lstat := (os_lstat w)(p := r), os_stat := (os_stat w)(p := if os_statFails w p then SysFail else r)\<rparr>"

definition os_remove :: "string \<Rightarrow> osys \<Rightarrow> bool \<times> osys" where
  "os_remove p w = (case os_lstat w p of
      SysOk _ \<Rightarrow> if os_locked w p then (False, w) else (True, set_entry p SysAbsent w)
    | _ \<Rightarrow> (False, w))"

definition os_mkdir :: "nat \<Rightarrow> nat \<Rightarrow> string \<Rightarrow> osys \<Rightarrow> bool \<times> osys" where
  "os_mkdir uid ino p w = (case os_lstat w p of
      SysAbsent \<Rightarrow> if os_locked w p then (False, w)
        else (True, set_entry p (SysOk \<lparr>fi_kind = KDir, fi_perm = 448, fi_uid = uid, fi_dev = 0, fi_ino = ino\<rparr>) w)
    | _ \<Rightarrow> (False, w))"

section \<open>The directory\<close>

text \<open>No component on the way is a symbolic link; the error names what is wrong.\<close>

fun walk_components :: "osys \<Rightarrow> string \<Rightarrow> string list \<Rightarrow> string option" where
  "walk_components w cur [] = None"
| "walk_components w cur (c # cs) =
     (if c = [] then walk_components w cur cs
      else (let cur' = path_join cur c in
        case os_lstat w cur' of
          SysOk fi \<Rightarrow> if fi_kind fi = KLink then Some ''is a symlink'' else walk_components w cur' cs
        | _ \<Rightarrow> Some ''runtime path component''))"

definition group_world_access :: "nat \<Rightarrow> bool" where
  "group_world_access m \<longleftrightarrow> m mod 64 \<noteq> 0"

definition owner_rwx :: "nat \<Rightarrow> bool" where
  "owner_rwx m \<longleftrightarrow> m div 64 mod 8 = 7"

definition validatePrivateDir :: "nat \<Rightarrow> osys \<Rightarrow> string \<Rightarrow> bool \<Rightarrow> string option" where
  "validatePrivateDir uid w dir exact =
     (case walk_components w ''/'' (split_on (CHR ''/'') (case cut_prefix ''/'' dir of None \<Rightarrow> dir | Some r \<Rightarrow> r)) of
        Some e \<Rightarrow> Some e
      | None \<Rightarrow>
          (case os_stat w dir of
             SysOk fi \<Rightarrow>
               if fi_kind fi \<noteq> KDir then Some ''is not a directory''
               else if fi_uid fi \<noteq> uid then Some ''is not owned by uid''
               else if group_world_access (fi_perm fi) then Some ''permits group/world access''
               else if exact \<and> \<not> owner_rwx (fi_perm fi) then Some ''lacks owner rwx''
               else None
           | _ \<Rightarrow> Some ''runtime directory''))"

definition ensureAppDir :: "nat \<Rightarrow> nat \<Rightarrow> string \<Rightarrow> osys \<Rightarrow> string option \<times> osys" where
  "ensureAppDir uid ino dir w =
     (case os_lstat w dir of
        SysOk fi \<Rightarrow>
          (if fi_kind fi = KLink then Some ''refusing symlinked application directory''
           else if fi_kind fi \<noteq> KDir then Some ''refusing non-directory application path''
           else if fi_perm fi \<noteq> 448 then Some ''refusing existing application directory with mode''
           else if fi_uid fi \<noteq> uid then Some ''refusing application directory not owned by uid''
           else None, w)
      | SysAbsent \<Rightarrow> (case os_mkdir uid ino dir w of
            (True, w1) \<Rightarrow> (None, w1)
          | (False, w1) \<Rightarrow> (Some ''create application directory'', w1))
      | SysFail \<Rightarrow> (Some ''inspect application directory'', w))"

text \<open>\<open>xrd\<close> is \<^verbatim>\<open>XDG_RUNTIME_DIR\<close>, empty when unset.\<close>

definition ResolveSocketPath :: "nat \<Rightarrow> nat \<Rightarrow> string \<Rightarrow> string \<Rightarrow> osys \<Rightarrow> (string + string) \<times> osys" where
  "ResolveSocketPath uid ino xrd explicit w =
     (if explicit \<noteq> [] then
        (if \<not> is_abs explicit then (Inl ''explicit socket path must be absolute'', w)
         else case validatePrivateDir uid w (path_dir explicit) True of
                Some e \<Rightarrow> (Inl e, w)
              | None \<Rightarrow> (Inr explicit, w))
      else if xrd = [] then (Inl ''XDG_RUNTIME_DIR is not set'', w)
      else if \<not> is_abs xrd then (Inl ''XDG_RUNTIME_DIR must be absolute'', w)
      else case validatePrivateDir uid w xrd True of
             Some e \<Rightarrow> (Inl e, w)
           | None \<Rightarrow>
               (case ensureAppDir uid ino (path_join xrd ''omatorrent'') w of
                  (Some e, w1) \<Rightarrow> (Inl e, w1)
                | (None, w1) \<Rightarrow> (Inr (path_join (path_join xrd ''omatorrent'') ''service.sock''), w1)))"

section \<open>A stale socket\<close>

datatype probe_verdict = Live | Dead | PathGone | Ambiguous

text \<open>The first line of at most \<open>MaxFrame\<close> bytes that the peer sends, if it ends one in time.\<close>

definition first_line :: "string \<Rightarrow> string option" where
  "first_line s = (let t = take MaxFrame s in
     if CHR 0x0A \<in> set t then Some (takeWhile (\<lambda>c. c \<noteq> CHR 0x0A) t) else None)"

definition probeLiveDaemon :: "(real \<Rightarrow> string) \<Rightarrow> peer \<Rightarrow> probe_verdict" where
  "probeLiveDaemon ff pr =
     (case pr of
        PeerRefused \<Rightarrow> Dead
      | PeerGone \<Rightarrow> PathGone
      | PeerError \<Rightarrow> Ambiguous
      | PeerUp accepts s \<Rightarrow>
          if accepts \<and> first_line s = Some (EncodeHello ff) then Live else Ambiguous)"

definition sameFile :: "finfo \<Rightarrow> finfo \<Rightarrow> bool" where
  "sameFile a b \<longleftrightarrow> fi_kind a = fi_kind b \<and> fi_perm a = fi_perm b \<and> fi_dev a = fi_dev b \<and> fi_ino a = fi_ino b"

text \<open>After the probe of the socket \<open>fi\<close>: an error or nothing, and the file system after.\<close>

definition recover_probed :: "(nat \<Rightarrow> osys \<Rightarrow> osys) \<Rightarrow> string \<Rightarrow> finfo \<Rightarrow> probe_verdict \<Rightarrow> osys \<Rightarrow> string option \<times> osys" where
  "recover_probed intf path fi verdict w1 =
     (case verdict of
        Live \<Rightarrow> (Some ''another omatorrent-service is answering on it'', w1)
      | Ambiguous \<Rightarrow> (Some ''refusing ambiguous socket'', w1)
      | PathGone \<Rightarrow>
          (let w2 = intf 1 w1 in
           if os_lstat w2 path = SysAbsent then (None, w2) else (Some ''refusing ambiguous socket'', w2))
      | Dead \<Rightarrow>
          (let w2 = intf 1 w1 in
           case os_lstat w2 path of
             SysOk fi2 \<Rightarrow>
               if \<not> sameFile fi fi2 then (Some ''path changed during staleness probe'', w2)
               else (case os_remove path (intf 2 w2) of
                       (True, w4) \<Rightarrow> (None, w4)
                     | (False, w4) \<Rightarrow> (Some ''remove stale socket'', w4))
           | _ \<Rightarrow> (Some ''re-inspect stale socket'', w2)))"

definition recoverStaleSocket :: "(real \<Rightarrow> string) \<Rightarrow> nat \<Rightarrow> (nat \<Rightarrow> osys \<Rightarrow> osys) \<Rightarrow> string \<Rightarrow> osys \<Rightarrow>
    string option \<times> osys" where
  "recoverStaleSocket ff uid intf path w =
     (case os_lstat w path of
        SysAbsent \<Rightarrow> (None, w)
      | SysFail \<Rightarrow> (Some ''inspect socket path'', w)
      | SysOk fi \<Rightarrow>
          if fi_kind fi = KLink then (Some ''refusing symlink at socket path'', w)
          else if fi_kind fi \<noteq> KSocket then (Some ''refusing non-socket file at socket path'', w)
          else if fi_uid fi \<noteq> uid then (Some ''refusing socket not owned by uid'', w)
          else if fi_perm fi \<noteq> 384 then (Some ''refusing socket with mode'', w)
          else recover_probed intf path fi (probeLiveDaemon ff (os_peer (intf 0 w) path)) (intf 0 w))"

section \<open>Creation and removal\<close>

text \<open>What the server remembers of its socket.\<close>

record sock_id =
  si_dev :: nat
  si_ino :: nat

text \<open>\<^verbatim>\<open>net.Listen\<close>: a new socket at a free path; with the umask 077 it has mode 0700.\<close>

definition os_listen :: "nat \<Rightarrow> nat \<Rightarrow> nat \<Rightarrow> string \<Rightarrow> osys \<Rightarrow> bool \<times> osys" where
  "os_listen uid dev ino p w = (case os_lstat w p of
      SysAbsent \<Rightarrow> if os_locked w p then (False, w)
        else (True, (set_entry p (SysOk \<lparr>fi_kind = KSocket, fi_perm = 448, fi_uid = uid, fi_dev = dev, fi_ino = ino\<rparr>) w)
                \<lparr>os_peer := (os_peer w)(p := PeerUp True [])\<rparr>)
    | _ \<Rightarrow> (False, w))"

definition os_chmod :: "nat \<Rightarrow> string \<Rightarrow> osys \<Rightarrow> bool \<times> osys" where
  "os_chmod mode p w = (case os_lstat w p of
      SysOk fi \<Rightarrow> if os_chmodFails w p then (False, w) else (True, set_entry p (SysOk (fi\<lparr>fi_perm := mode\<rparr>)) w)
    | _ \<Rightarrow> (False, w))"

text \<open>The start of \<^verbatim>\<open>Serve\<close>, up to the accept loop. \<open>intf 3\<close> to \<open>intf 5\<close> happen before the listen, the chmod
  and the stat.\<close>

definition serve_start :: "(real \<Rightarrow> string) \<Rightarrow> nat \<Rightarrow> nat \<Rightarrow> nat \<Rightarrow> (nat \<Rightarrow> osys \<Rightarrow> osys) \<Rightarrow> string \<Rightarrow> osys \<Rightarrow>
    (string + sock_id) \<times> osys" where
  "serve_start ff uid dev ino intf path w =
     (case recoverStaleSocket ff uid intf path w of
        (Some e, w1) \<Rightarrow> (Inl e, w1)
      | (None, w1) \<Rightarrow>
          (case os_listen uid dev ino path (intf 3 w1) of
             (False, w2) \<Rightarrow> (Inl ''listen'', w2)
           | (True, w2) \<Rightarrow>
               (case os_chmod 384 path (intf 4 w2) of
                  (False, w3) \<Rightarrow> (Inl ''chmod socket'', w3)
                | (True, w3) \<Rightarrow>
                    (let w4 = intf 5 w3 in
                     case os_stat w4 path of
                       SysOk fi \<Rightarrow> (Inr \<lparr>si_dev = fi_dev fi, si_ino = fi_ino fi\<rparr>, w4)
                     | _ \<Rightarrow> (Inl ''stat socket'', w4)))))"

text \<open>The end of \<^verbatim>\<open>Close\<close>: a file system call between which another process may act once.\<close>

definition close_socket :: "(osys \<Rightarrow> osys) \<Rightarrow> sock_id \<Rightarrow> string \<Rightarrow> osys \<Rightarrow> osys" where
  "close_socket intf self path w =
     (if si_ino self = 0 then w
      else case os_stat w path of
             SysOk fi \<Rightarrow> if fi_dev fi = si_dev self \<and> fi_ino fi = si_ino self
               then snd (os_remove path (intf w)) else w
           | _ \<Rightarrow> w)"

end
