(* ===== verification/PathWalk.thy ===== *)
theory PathWalk
  imports SocketPath
begin

text \<open>
  Where a path leads: how the kernel walks it, component by component, following symbolic links (at most
  40 of them) and going up physically at \<^verbatim>\<open>..\<close>, against \<^verbatim>\<open>filepath.Clean\<close> and \<^verbatim>\<open>Join\<close>, which only rewrite the text. A
  stack of components, innermost first, stands for a clean absolute path.
\<close>

section \<open>The kernel\<close>

definition abs_of :: "string list \<Rightarrow> string" where
  "abs_of acc = CHR ''/'' # join_with (CHR ''/'') (rev acc)"

function kernel_walk :: "osys \<Rightarrow> nat \<Rightarrow> string list \<Rightarrow> string list \<Rightarrow> string list option" where
  "kernel_walk w n acc [] = Some acc"
| "kernel_walk w n acc (c # cs) =
     (if c = [] \<or> c = ''.'' then kernel_walk w n acc cs
      else if c = ''..'' then kernel_walk w n (tl acc) cs
      else case os_lstat w (abs_of (c # acc)) of
        SysOk fi \<Rightarrow>
          if fi_kind fi \<noteq> KLink then kernel_walk w n (c # acc) cs
          else (case n of 0 \<Rightarrow> None
            | Suc m \<Rightarrow> let t = os_target w (abs_of (c # acc)) in
                kernel_walk w m (if is_abs t then [] else acc) (split_on (CHR ''/'') t @ cs))
      | _ \<Rightarrow> None)"
  by pat_completeness auto
termination
  by (relation "measures [\<lambda>(w, n, acc, cs). n, \<lambda>(w, n, acc, cs). length cs]") auto

text \<open>The directory in which an entry is made at path \<open>p\<close>.\<close>

definition kernel_dir :: "osys \<Rightarrow> string \<Rightarrow> string option" where
  "kernel_dir w p = map_option abs_of (kernel_walk w 40 [] (butlast (split_on (CHR ''/'') p)))"

section \<open>Splitting and joining\<close>

abbreviation slash_split :: "string \<Rightarrow> string list" where
  "slash_split \<equiv> split_on (CHR ''/'')"

lemma split_append: "slash_split (a @ CHR ''/'' # b) = slash_split a @ slash_split b"
proof (induction a)
  case (Cons x a)
  then show ?case using split_on_nonempty[of "CHR ''/''" a] by (auto split: list.splits)
qed simp

lemma split_plain: "CHR ''/'' \<notin> set c \<Longrightarrow> slash_split c = [c]"
  by (induction c) auto

lemma split_join: "cs \<noteq> [] \<Longrightarrow> \<forall>c \<in> set cs. CHR ''/'' \<notin> set c \<Longrightarrow> slash_split (join_with (CHR ''/'') cs) = cs"
proof (induction cs)
  case (Cons c cs)
  show ?case
  proof (cases cs)
    case Nil
    then show ?thesis using Cons.prems by (simp add: join_with_def split_plain)
  next
    case (Cons d ds)
    then have "join_with (CHR ''/'') (c # cs) = c @ CHR ''/'' # join_with (CHR ''/'') cs"
      by (simp add: join_with_def)
    then show ?thesis using Cons.IH Cons.prems Cons by (simp add: split_append split_plain)
  qed
qed simp

section \<open>Cleaning\<close>

text \<open>A proper component names an entry of a directory.\<close>

definition proper :: "string \<Rightarrow> bool" where
  "proper c \<longleftrightarrow> c \<noteq> [] \<and> c \<noteq> ''.'' \<and> c \<noteq> ''..'' \<and> CHR ''/'' \<notin> set c"

text \<open>One component on a stack, and all of them.\<close>

definition push :: "string \<Rightarrow> string list \<Rightarrow> string list" where
  "push c acc = (if c = [] \<or> c = ''.'' then acc else if c = ''..'' then tl acc else c # acc)"

lemma clean_parts_fold: "clean_parts acc cs = rev (fold push cs acc)"
  by (induction cs arbitrary: acc) (simp_all add: push_def)

lemma clean_abs_fold: "clean_abs p = abs_of (fold push (slash_split p) [])"
  by (simp add: clean_abs_def abs_of_def clean_parts_fold)

lemma push_proper: "list_all proper acc \<Longrightarrow> CHR ''/'' \<notin> set c \<Longrightarrow> list_all proper (push c acc)"
  by (cases acc) (auto simp: push_def proper_def)

lemma fold_push_proper:
  "list_all proper acc \<Longrightarrow> \<forall>c \<in> set cs. CHR ''/'' \<notin> set c \<Longrightarrow> list_all proper (fold push cs acc)"
  by (induction cs arbitrary: acc) (simp_all add: push_proper)

lemma fold_push_plain: "list_all proper cs \<Longrightarrow> fold push cs acc = rev cs @ acc"
  by (induction cs arbitrary: acc) (simp_all add: push_def proper_def)

lemma split_slash_free: "\<forall>c \<in> set (slash_split p). CHR ''/'' \<notin> set c"
  using split_on_no_sep by blast

text \<open>The text of a stack splits into its components, after the empty one of the leading slash.\<close>

lemma split_abs: "list_all proper acc \<Longrightarrow> slash_split (abs_of acc) = [] # (if acc = [] then [[]] else rev acc)"
  using split_join[of "rev acc"] by (auto simp: abs_of_def list_all_iff proper_def join_with_def)

lemma fold_abs: "list_all proper acc \<Longrightarrow> fold push (slash_split (abs_of acc)) [] = acc"
  using fold_push_plain[of "rev acc" "[]"] by (auto simp: split_abs push_def list_all_iff)

lemma path_join_abs:
  assumes "list_all proper acc"
  shows "path_join (abs_of acc) b = abs_of (fold push (slash_split b) acc)"
  using fold_abs[OF assms] by (simp add: path_join_def clean_abs_fold split_append)

lemma path_join_any: "path_join a b = abs_of (fold push (slash_split b) (fold push (slash_split a) []))"
  by (simp add: path_join_def clean_abs_fold split_append)

text \<open>The cleaned directory of an absolute path is made of all of its components but the last.\<close>

lemma path_dir_fold:
  assumes "is_abs p"
  shows "path_dir p = abs_of (fold push (butlast (slash_split p)) [])"
proof -
  define d where "d = rev (dropWhile (\<lambda>c. c \<noteq> CHR ''/'') (rev p))"
  define t where "t = rev (takeWhile (\<lambda>c. c \<noteq> CHR ''/'') (rev p))"
  have "rev p = rev t @ rev d" by (simp add: d_def t_def)
  then have p: "p = d @ t" by (metis rev_append rev_rev_ident)
  have t: "CHR ''/'' \<notin> set t" by (auto simp: t_def dest: set_takeWhileD)
  have "CHR ''/'' \<in> set p" using assms by (cases p) (auto simp: is_abs_def has_prefix_def)
  then have ne: "dropWhile (\<lambda>c. c \<noteq> CHR ''/'') (rev p) \<noteq> []" by (simp add: dropWhile_eq_Nil_conv)
  then obtain z where "dropWhile (\<lambda>c. c \<noteq> CHR ''/'') (rev p) = CHR ''/'' # z"
    using hd_dropWhile[OF ne] by (cases "dropWhile (\<lambda>c. c \<noteq> CHR ''/'') (rev p)") auto
  then obtain d' where d': "d = d' @ ''/''" by (simp add: d_def)
  then have "slash_split p = slash_split d' @ [t]" "slash_split d = slash_split d' @ [[]]"
    using split_append[of d' t] split_append[of d' "[]"] split_plain[OF t] by (simp_all add: p)
  then show ?thesis by (simp add: path_dir_def d_def[symmetric] clean_abs_fold push_def)
qed

section \<open>A walk along checked components\<close>

text \<open>The paths that the server inspects on its way from \<open>cur\<close>.\<close>

fun visited :: "string \<Rightarrow> string list \<Rightarrow> string list" where
  "visited cur [] = []"
| "visited cur (c # cs) = (if c = [] then visited cur cs else path_join cur c # visited (path_join cur c) cs)"

definition path_parts :: "string \<Rightarrow> string list" where
  "path_parts d = slash_split (case cut_prefix ''/'' d of None \<Rightarrow> d | Some r \<Rightarrow> r)"

definition firm :: "osys \<Rightarrow> string \<Rightarrow> bool" where
  "firm w p \<longleftrightarrow> (\<exists>fi. os_lstat w p = SysOk fi \<and> fi_kind fi \<noteq> KLink)"

lemma visited_step:
  assumes "list_all proper acc" "CHR ''/'' \<notin> set c" "c \<noteq> []"
  shows "visited (abs_of acc) (c # cs) = abs_of (push c acc) # visited (abs_of (push c acc)) cs"
  using assms by (simp add: path_join_abs split_plain)

text \<open>Every directory above the end of the way has been inspected.\<close>

lemma visited_suffixes:
  assumes "list_all proper acc" "\<forall>c \<in> set cs. CHR ''/'' \<notin> set c" "fold push cs acc = x @ s" "s \<noteq> []"
  shows "(\<exists>y. acc = y @ s) \<or> abs_of s \<in> set (visited (abs_of acc) cs)"
  using assms
proof (induction cs arbitrary: acc)
  case (Cons c cs)
  show ?case
  proof (cases "c = []")
    case True
    then show ?thesis using Cons.IH[of acc] Cons.prems by (simp add: push_def)
  next
    case False
    have p: "list_all proper (push c acc)" using Cons.prems push_proper by simp
    have v: "visited (abs_of acc) (c # cs) = abs_of (push c acc) # visited (abs_of (push c acc)) cs"
      using visited_step Cons.prems False by simp
    consider (above) y where "push c acc = y @ s" | (later) "abs_of s \<in> set (visited (abs_of (push c acc)) cs)"
      using Cons.IH[OF p] Cons.prems by auto
    then show ?thesis unfolding v
    proof cases
      case (above y)
      then have "push c acc = s \<or> (\<exists>y. acc = y @ s)"
        by (cases y; cases acc) (auto simp: push_def split: if_splits intro: exI[of _ "_ # _"])
      then show "(\<exists>y. acc = y @ s) \<or> abs_of s \<in> set (abs_of (push c acc) # visited (abs_of (push c acc)) cs)" by auto
    qed simp
  qed
qed simp

lemma push_grows: "''..'' \<notin> set cs \<Longrightarrow> \<exists>x. fold push cs acc = x @ acc"
proof (induction cs arbitrary: acc)
  case (Cons c cs)
  obtain x where "fold push cs (push c acc) = x @ push c acc" using Cons.IH[of "push c acc"] Cons.prems by auto
  moreover have "push c acc = acc \<or> push c acc = c # acc" using Cons.prems by (auto simp: push_def)
  ultimately show ?case by auto
qed simp

text \<open>Where no component goes up and none is a link, the kernel ends where the text says.\<close>

lemma kernel_walk_firm:
  assumes "''..'' \<notin> set cs" "\<And>x s. fold push cs acc = x @ s \<Longrightarrow> s \<noteq> [] \<Longrightarrow> firm w (abs_of s)"
  shows "kernel_walk w n acc cs = Some (fold push cs acc)"
  using assms
proof (induction cs arbitrary: acc)
  case (Cons c cs)
  show ?case
  proof (cases "c = [] \<or> c = ''.''")
    case True
    then show ?thesis using Cons by (auto simp: push_def)
  next
    case False
    then have p: "push c acc = c # acc" using Cons.prems(1) by (auto simp: push_def)
    obtain x where "fold push cs (c # acc) = x @ c # acc" using push_grows[of cs "c # acc"] Cons.prems(1) by auto
    then have "firm w (abs_of (c # acc))" using Cons.prems(2)[of x "c # acc"] p by simp
    then show ?thesis using Cons.IH[of "c # acc"] Cons.prems False p by (auto simp: firm_def)
  qed
qed simp

lemma abs_path_parts: "is_abs d \<Longrightarrow> slash_split d = [] # path_parts d"
  by (cases d) (auto simp: is_abs_def has_prefix_def path_parts_def cut_prefix_def)

lemma is_abs_abs_of: "is_abs (abs_of acc)"
  by (simp add: is_abs_def has_prefix_def abs_of_def)

lemma checked_way:
  assumes "is_abs d" "\<forall>p \<in> set (visited ''/'' (path_parts d)). firm w p"
    "fold push (slash_split d) [] = x @ s" "s \<noteq> []"
  shows "firm w (abs_of s)"
proof -
  have "\<forall>c \<in> set (path_parts d). CHR ''/'' \<notin> set c"
    using split_slash_free[of d] abs_path_parts[OF assms(1)] by simp
  moreover have "fold push (path_parts d) [] = x @ s"
    using assms(3) abs_path_parts[OF assms(1)] by (simp add: push_def)
  ultimately have "abs_of s \<in> set (visited (abs_of []) (path_parts d))"
    using visited_suffixes[of "[]" "path_parts d" x s] assms(4) by auto
  then show ?thesis using assms(2) by (simp add: abs_of_def join_with_def)
qed

text \<open>An entry at a path without \<^verbatim>\<open>..\<close> is made in the directory that was inspected.\<close>

lemma kernel_dir_checked:
  assumes "is_abs p" "''..'' \<notin> set (slash_split p)"
    "\<forall>q \<in> set (visited ''/'' (path_parts (path_dir p))). firm w q"
  shows "kernel_dir w p = Some (path_dir p)"
proof -
  define F where "F = fold push (butlast (slash_split p)) []"
  have dir: "path_dir p = abs_of F" using path_dir_fold[OF assms(1)] by (simp add: F_def)
  have ok: "list_all proper F"
    using fold_push_proper[of "[]" "butlast (slash_split p)"] split_slash_free[of p]
    by (auto simp: F_def dest: in_set_butlastD)
  have "fold push (slash_split (path_dir p)) [] = F" using fold_abs[OF ok] dir by simp
  then have "firm w (abs_of s)" if "F = x @ s" "s \<noteq> []" for x s
    using checked_way[OF is_abs_abs_of[of F], of w x s] assms(3) dir that by simp
  moreover have "''..'' \<notin> set (butlast (slash_split p))" using assms(2) by (auto dest: in_set_butlastD)
  ultimately show ?thesis
    using kernel_walk_firm[of "butlast (slash_split p)" "[]" w] dir by (simp add: kernel_dir_def F_def)
qed

text \<open>So is an entry two names below an absolute directory, when both that directory and the new one are firm.\<close>

lemma kernel_dir_below:
  assumes "is_abs d" "\<forall>q \<in> set (visited ''/'' (path_parts d)). firm w q" "proper a" "proper b"
    "firm w (path_join d a)"
  shows "kernel_dir w (path_join (path_join d a) b) = Some (path_join d a)"
proof -
  define F where "F = fold push (slash_split d) []"
  have ok: "list_all proper F" using fold_push_proper[of "[]"] split_slash_free[of d] by (simp add: F_def)
  have one: "slash_split c = [c] \<and> push c X = c # X" if "proper c" for c X
    using that split_plain by (auto simp: proper_def push_def)
  have da: "path_join d a = abs_of (a # F)" using assms(3) one by (simp add: path_join_any F_def)
  have dab: "path_join (path_join d a) b = abs_of (b # a # F)"
    unfolding da using path_join_abs[of "a # F" b] ok assms(3,4) one by simp
  have "slash_split (abs_of (b # a # F)) = [] # rev (b # a # F)"
    using split_abs[of "b # a # F"] ok assms(3,4) by simp
  then have parts: "butlast (slash_split (path_join (path_join d a) b)) = [] # rev (a # F)"
    unfolding dab by (simp add: butlast_append)
  have up: "''..'' \<notin> set ([] # rev (a # F))" using ok assms(3) by (auto simp: proper_def list_all_iff)
  have run: "fold push ([] # rev (a # F)) [] = a # F"
    using fold_push_plain[of "rev (a # F)" "[]"] ok assms(3) by (simp add: push_def list_all_iff)
  have "firm w (abs_of s)" if s: "a # F = x @ s" "s \<noteq> []" for x s
  proof (cases x)
    case Nil
    then show ?thesis using assms(5) s by (simp add: da)
  next
    case (Cons y ys)
    then show ?thesis using checked_way[OF assms(1,2)] s by (simp add: F_def)
  qed
  then have "kernel_walk w 40 [] ([] # rev (a # F)) = Some (a # F)"
    using kernel_walk_firm[OF up, of "[]" w 40] run by metis
  then show ?thesis unfolding kernel_dir_def parts by (simp add: da)
qed

end
