(* ===== verification/SocketProps.thy ===== *)
theory SocketProps
  imports PathWalk
begin

text \<open>
  Properties of the socket file: where it may live, when a left-over one is removed, and that a server
  removes only its own.
\<close>

section \<open>The directory\<close>

lemma walk_components_None:
  "walk_components w cur cs = None \<longleftrightarrow>
     (\<forall>p \<in> set (visited cur cs). firm w p)"
  by (induction w cur cs rule: walk_components.induct) (auto simp: firm_def Let_def split: sysres.splits)

text \<open>A directory of our own that nobody else can enter.\<close>

definition private_dir :: "nat \<Rightarrow> finfo sysres \<Rightarrow> bool" where
  "private_dir uid r \<longleftrightarrow> (\<exists>fi. r = SysOk fi \<and> fi_kind fi = KDir \<and> fi_uid fi = uid \<and> fi_perm fi mod 64 = 0 \<and>
     fi_perm fi div 64 mod 8 = 7)"

lemma validatePrivateDir_None:
  assumes "validatePrivateDir uid w d True = None"
  shows "private_dir uid (os_stat w d)"
    "\<forall>p \<in> set (visited ''/'' (path_parts d)). firm w p"
  using assms
  by (auto simp: validatePrivateDir_def private_dir_def group_world_access_def owner_rwx_def path_parts_def
      walk_components_None[symmetric] split: option.splits sysres.splits if_splits)

lemma ensureAppDir_None:
  assumes "ensureAppDir uid ino d w = (None, w')"
  shows "private_dir uid (os_lstat w' d)" "\<And>p. p \<noteq> d \<Longrightarrow> os_lstat w' p = os_lstat w p \<and> os_stat w' p = os_stat w p"
  using assms
  by (auto simp: ensureAppDir_def private_dir_def os_mkdir_def set_entry_def split: sysres.splits if_splits prod.splits)

lemma firm_same: "firm w q \<Longrightarrow> os_lstat w' q = os_lstat w q \<Longrightarrow> firm w' q"
  by (simp add: firm_def)

lemma private_firm: "private_dir uid (os_lstat w q) \<Longrightarrow> firm w q"
  by (auto simp: private_dir_def firm_def)

text \<open>
  C38. Where the socket lives: when a path is chosen, the cleaned directory of the path belongs to the
  user, admits nobody else, and no component of the inspected way (to the runtime directory, for the
  default path) is a symbolic link; choosing it changes nothing but the creation of the application
  directory. The default path, and an explicit path without \<^verbatim>\<open>..\<close>, lead to that very directory: it is the
  one where the kernel makes the socket.
\<close>

theorem socket_path_is_private:
  assumes "ResolveSocketPath uid ino xrd explicit w = (Inr path, w')"
  shows "if explicit \<noteq> []
    then path = explicit \<and> w' = w \<and> private_dir uid (os_stat w (path_dir path)) \<and>
      (\<forall>p \<in> set (visited ''/'' (path_parts (path_dir path))). firm w p) \<and>
      (''..'' \<notin> set (slash_split path) \<longrightarrow> kernel_dir w path = Some (path_dir path))
    else path = path_join (path_join xrd ''omatorrent'') ''service.sock'' \<and>
      private_dir uid (os_stat w xrd) \<and> private_dir uid (os_lstat w' (path_join xrd ''omatorrent'')) \<and>
      (\<forall>p \<in> set (visited ''/'' (path_parts xrd)). firm w p) \<and>
      (\<forall>p. p \<noteq> path_join xrd ''omatorrent'' \<longrightarrow> os_lstat w' p = os_lstat w p) \<and>
      kernel_dir w' path = Some (path_join xrd ''omatorrent'')"
proof (cases "explicit = []")
  case False
  then have "is_abs explicit" "validatePrivateDir uid w (path_dir explicit) True = None" "path = explicit" "w' = w"
    using assms by (auto simp: ResolveSocketPath_def split: if_splits option.splits)
  with False show ?thesis
    using validatePrivateDir_None[of uid w "path_dir explicit"] kernel_dir_checked[of explicit w] by simp
next
  case True
  then obtain abs: "is_abs xrd" and
    a: "validatePrivateDir uid w xrd True = None" and b: "ensureAppDir uid ino (path_join xrd ''omatorrent'') w = (None, w')"
    and p: "path = path_join (path_join xrd ''omatorrent'') ''service.sock''"
    using assms by (auto simp: ResolveSocketPath_def split: if_splits option.splits prod.splits)
  note dir = validatePrivateDir_None[OF a] and app = ensureAppDir_None[OF b]
  have "\<forall>q \<in> set (visited ''/'' (path_parts xrd)). firm w' q"
    using dir(2) app(2) firm_same private_firm[OF app(1)] by metis
  moreover have "proper ''omatorrent''" "proper ''service.sock''" by (simp_all add: proper_def)
  ultimately have "kernel_dir w' path = Some (path_join xrd ''omatorrent'')"
    unfolding p by (intro kernel_dir_below abs private_firm[OF app(1)])
  then show ?thesis using True p dir app by simp
qed

section \<open>A stale socket\<close>

text \<open>
  C23. A socket is removed only when it is proven dead: it was a socket of this user with mode 0600, a
  connection to it was refused, and right before the removal the path still had the same type, mode
  and file identity. When startup is refused the server has changed nothing, whatever other
  processes did in the meantime; when it goes on, the path is free.
\<close>

theorem stale_socket_removed_only_when_dead:
  assumes "recoverStaleSocket ff uid intf path w = (r, w')"
  shows "(r \<noteq> None \<longrightarrow> w' \<in> {w, intf 0 w, intf 1 (intf 0 w), intf 2 (intf 1 (intf 0 w))}) \<and>
    (r = None \<longrightarrow> os_lstat w' path = SysAbsent \<and>
      (w' \<in> {w, intf 1 (intf 0 w)} \<or>
       (\<exists>fi fi2. os_lstat w path = SysOk fi \<and> fi_kind fi = KSocket \<and> fi_uid fi = uid \<and> fi_perm fi = 384 \<and>
          os_peer (intf 0 w) path = PeerRefused \<and>
          os_lstat (intf 1 (intf 0 w)) path = SysOk fi2 \<and> sameFile fi fi2 \<and>
          w' = set_entry path SysAbsent (intf 2 (intf 1 (intf 0 w))))))"
proof -
  have dead: "probeLiveDaemon ff pr = Dead \<longleftrightarrow> pr = PeerRefused" for pr
    by (auto simp: probeLiveDaemon_def split: peer.split)
  show ?thesis
  proof (cases "os_lstat w path")
    case (SysOk fi)
    show ?thesis
    proof (cases "fi_kind fi = KSocket \<and> fi_uid fi = uid \<and> fi_perm fi = 384")
      case True
      have run: "recover_probed intf path fi (probeLiveDaemon ff (os_peer (intf 0 w) path)) (intf 0 w) = (r, w')"
        using assms True SysOk by (simp add: recoverStaleSocket_def)
      show ?thesis
      proof (cases "probeLiveDaemon ff (os_peer (intf 0 w) path)")
        case Dead
        then have "os_peer (intf 0 w) path = PeerRefused" by (simp add: dead)
        then show ?thesis
          using run True SysOk unfolding Dead recover_probed_def Let_def
          by (auto simp: os_remove_def set_entry_def split: sysres.splits if_splits)
      qed (use run True SysOk in \<open>auto simp: recover_probed_def Let_def split: if_splits\<close>)
    next
      case False
      then show ?thesis using assms SysOk by (auto simp: recoverStaleSocket_def split: if_splits)
    qed
  qed (use assms in \<open>auto simp: recoverStaleSocket_def\<close>)
qed

section \<open>Our own socket\<close>

definition undisturbed :: "nat \<Rightarrow> osys \<Rightarrow> osys" where
  "undisturbed k w = w"

lemma socket_lifecycle_raw:
  assumes "serve_start ff uid dev ino undisturbed path w = (Inr self, w1)" "ino \<noteq> 0"
  shows "(\<exists>fi. os_lstat w1 path = SysOk fi \<and> fi_kind fi = KSocket \<and> fi_uid fi = uid \<and> fi_perm fi = 384 \<and>
      fi_dev fi = si_dev self \<and> fi_ino fi = si_ino self) \<and>
    (\<not> os_locked w1 path \<longrightarrow> os_lstat (close_socket (undisturbed 0) self path w1) path = SysAbsent) \<and>
    (\<forall>w2 fi. os_stat w2 path = SysOk fi \<and> (fi_dev fi \<noteq> si_dev self \<or> fi_ino fi \<noteq> si_ino self) \<longrightarrow>
      close_socket (undisturbed 0) self path w2 = w2)"
proof -
  obtain wr where wr: "recoverStaleSocket ff uid undisturbed path w = (None, wr)"
    using assms(1) by (auto simp: serve_start_def split: prod.splits option.splits)
  define fi where "fi = \<lparr>fi_kind = KSocket, fi_perm = 384, fi_uid = uid, fi_dev = dev, fi_ino = ino\<rparr>"
  have "self = \<lparr>si_dev = dev, si_ino = ino\<rparr>" "os_lstat w1 path = SysOk fi" "os_stat w1 path = SysOk fi"
    using assms(1)
    by (auto simp: serve_start_def wr undisturbed_def os_listen_def os_chmod_def set_entry_def fi_def
        split: prod.splits sysres.splits if_splits)
  then show ?thesis
    using assms(2) by (auto simp: fi_def close_socket_def undisturbed_def os_remove_def set_entry_def)
qed

text \<open>
  The life of the socket: a server that started undisturbed has a socket of its own with mode 0600 at
  the path; its shutdown removes it; and if another file has taken the path by then (a second
  instance, say) the shutdown leaves it alone.
\<close>

theorem socket_lifecycle:
  assumes "serve_start ff uid dev ino undisturbed path w = (Inr self, w1)" "ino \<noteq> 0"
  shows "(\<exists>fi. os_lstat w1 path = SysOk fi \<and> fi_kind fi = KSocket \<and> fi_uid fi = uid \<and> fi_perm fi = 384 \<and>
      fi_dev fi = si_dev self \<and> fi_ino fi = si_ino self) \<and>
    (\<not> os_locked w1 path \<longrightarrow> os_lstat (close_socket (undisturbed 0) self path w1) path = SysAbsent) \<and>
    (\<forall>w2 fi. os_stat w2 path = SysOk fi \<and> (fi_dev fi \<noteq> si_dev self \<or> fi_ino fi \<noteq> si_ino self) \<longrightarrow>
      close_socket (undisturbed 0) self path w2 = w2)"
  using assms by (rule socket_lifecycle_raw)

text \<open>
  Between the creation of the socket and the \<^verbatim>\<open>chmod\<close> its mode is 0700, which is what the umask leaves. A
  daemon that ends in between (or whose \<^verbatim>\<open>chmod\<close> fails: the listener does not unlink) leaves a socket that
  every later start refuses, for it accepts only mode 0600.
\<close>

theorem unfinished_start_blocks_the_next:
  assumes "os_listen uid dev ino path w = (True, w1)" "os_lstat w2 path = os_lstat w1 path"
  shows "serve_start ff uid dev' ino' intf path w2 = (Inl ''refusing socket with mode'', w2)"
proof -
  have "os_lstat w2 path = SysOk \<lparr>fi_kind = KSocket, fi_perm = 448, fi_uid = uid, fi_dev = dev, fi_ino = ino\<rparr>"
    unfolding assms(2) using assms(1) by (auto simp: os_listen_def set_entry_def split: sysres.splits if_splits)
  then show ?thesis by (simp add: serve_start_def recoverStaleSocket_def)
qed

section \<open>Witnesses\<close>

definition run_dir :: finfo where
  "run_dir = \<lparr>fi_kind = KDir, fi_perm = 448, fi_uid = 1000, fi_dev = 1, fi_ino = 7\<rparr>"

definition old_socket :: finfo where
  "old_socket = \<lparr>fi_kind = KSocket, fi_perm = 384, fi_uid = 1000, fi_dev = 1, fi_ino = 9\<rparr>"

definition os_example :: osys where
  "os_example = \<lparr>os_lstat = (\<lambda>p. if p = ''/run'' then SysOk run_dir else if p = ''/run/s'' then SysOk old_socket else SysAbsent),
     os_stat = (\<lambda>p. if p = ''/run'' then SysOk run_dir else if p = ''/run/s'' then SysOk old_socket else SysAbsent),
     os_peer = (\<lambda>_. PeerRefused), os_locked = (\<lambda>_. False), os_chmodFails = (\<lambda>_. False), os_statFails = (\<lambda>_. False),
     os_target = (\<lambda>_. [])\<rparr>"

lemma paths_example: "path_dir ''/run/s'' = ''/run''" "path_join ''/'' ''run'' = ''/run''" "path_join ''/run'' ''omatorrent'' = ''/run/omatorrent''"
  "split_on (CHR ''/'') ''run'' = [''run'']" "cut_prefix ''/'' ''/run'' = Some ''run''"
  by code_simp+

theorem socket_path_is_private_witness:
  "ResolveSocketPath 1000 3 [] ''/run/s'' os_example = (Inr ''/run/s'', os_example) \<and>
   private_dir 1000 (os_stat os_example ''/run'') \<and> kernel_dir os_example ''/run/s'' = Some ''/run''"
proof -
  have "ResolveSocketPath 1000 3 [] ''/run/s'' os_example = (Inr ''/run/s'', os_example)"
    by (simp add: ResolveSocketPath_def is_abs_def has_prefix_def validatePrivateDir_def paths_example os_example_def run_dir_def
        group_world_access_def owner_rwx_def)
  moreover have "''..'' \<notin> set (slash_split ''/run/s'')" by simp
  ultimately show ?thesis using socket_path_is_private[of 1000 3 "[]" "''/run/s''" os_example] by (simp add: paths_example)
qed

section \<open>A path that leaves the directory\<close>

text \<open>A link in the private directory leads to a directory whose parent anybody may write.\<close>

definition escape_lstat :: "string \<Rightarrow> finfo sysres" where
  "escape_lstat p =
     (if p = ''/run'' then SysOk run_dir
      else if p = ''/run/l'' then SysOk (run_dir\<lparr>fi_kind := KLink, fi_perm := 511\<rparr>)
      else if p = ''/tmp'' then SysOk (run_dir\<lparr>fi_perm := 511, fi_uid := 0\<rparr>)
      else if p = ''/tmp/d'' then SysOk run_dir else SysAbsent)"

definition escape_example :: osys where
  "escape_example = os_example\<lparr>os_lstat := escape_lstat, os_stat := escape_lstat,
     os_target := (\<lambda>p. if p = ''/run/l'' then ''/tmp/d'' else [])\<rparr>"

lemma escape_paths: "path_dir ''/run/l/../s'' = ''/run''" "abs_of [''run''] = ''/run''" "abs_of [''l'', ''run''] = ''/run/l''"
  "abs_of [''tmp''] = ''/tmp''" "abs_of [''d'', ''tmp''] = ''/tmp/d''"
  by code_simp+

text \<open>
  The check is made on the cleaned directory of an explicit path, but the server listens at the path as it
  was given. With a \<^verbatim>\<open>..\<close> behind a symbolic link the two differ: this path is accepted for the private
  directory \<^verbatim>\<open>/run\<close>, and the socket is made in \<^verbatim>\<open>/tmp\<close>, which others may enter and write.
\<close>

theorem explicit_path_escapes:
  "fst (ResolveSocketPath 1000 3 [] ''/run/l/../s'' escape_example) = Inr ''/run/l/../s'' \<and>
   kernel_dir escape_example ''/run/l/../s'' = Some ''/tmp'' \<and>
   \<not> private_dir 1000 (os_stat escape_example ''/tmp'')"
proof (intro conjI)
  show "fst (ResolveSocketPath 1000 3 [] ''/run/l/../s'' escape_example) = Inr ''/run/l/../s''"
    by (simp add: ResolveSocketPath_def is_abs_def has_prefix_def validatePrivateDir_def escape_paths paths_example
        escape_example_def escape_lstat_def run_dir_def group_world_access_def owner_rwx_def)
  show "kernel_dir escape_example ''/run/l/../s'' = Some ''/tmp''"
    by (simp add: kernel_dir_def escape_paths escape_example_def escape_lstat_def run_dir_def is_abs_def has_prefix_def)
  show "\<not> private_dir 1000 (os_stat escape_example ''/tmp'')"
    by (simp add: private_dir_def escape_example_def escape_lstat_def run_dir_def)
qed

section \<open>Witnesses for the socket\<close>

theorem stale_socket_removed_only_when_dead_witness:
  "os_lstat (snd (recoverStaleSocket (\<lambda>_. []) 1000 undisturbed ''/run/s'' os_example)) ''/run/s'' = SysAbsent"
proof -
  obtain r w' where r: "recoverStaleSocket (\<lambda>_. []) 1000 undisturbed ''/run/s'' os_example = (r, w')" by force
  then have "r = None"
    by (auto simp: recoverStaleSocket_def recover_probed_def os_example_def old_socket_def undisturbed_def probeLiveDaemon_def sameFile_def os_remove_def Let_def)
  then show ?thesis
    using stale_socket_removed_only_when_dead[OF r] r by simp
qed

theorem socket_lifecycle_witness:
  "\<exists>self w1. serve_start (\<lambda>_. []) 1000 1 12 undisturbed ''/run/s'' os_example = (Inr self, w1) \<and>
     os_lstat (close_socket (undisturbed 0) self ''/run/s'' w1) ''/run/s'' = SysAbsent"
proof -
  obtain r w1 where s: "serve_start (\<lambda>_. []) 1000 1 12 undisturbed ''/run/s'' os_example = (r, w1)" by force
  then obtain self where self: "r = Inr self" "\<not> os_locked w1 ''/run/s''"
    by (auto simp: serve_start_def recoverStaleSocket_def recover_probed_def os_example_def old_socket_def undisturbed_def probeLiveDaemon_def
        sameFile_def os_remove_def os_listen_def os_chmod_def set_entry_def Let_def)
  then show ?thesis
    using socket_lifecycle[of "\<lambda>_. []" 1000 1 12 "''/run/s''" os_example self w1] s by auto
qed

theorem unfinished_start_blocks_the_next_witness:
  "\<exists>w1. os_listen 1000 1 12 ''/run/t'' os_example = (True, w1) \<and>
     serve_start (\<lambda>_. []) 1000 1 13 undisturbed ''/run/t'' w1 = (Inl ''refusing socket with mode'', w1)"
proof -
  obtain w1 where l: "os_listen 1000 1 12 ''/run/t'' os_example = (True, w1)"
    by (simp add: os_listen_def os_example_def)
  then show ?thesis using unfinished_start_blocks_the_next[OF l refl] by blast
qed

end
