(* ===== verification/Config.thy ===== *)
theory Config
  imports Store
begin

text \<open>
  The service configuration (internal/config/config.go) and the default path of the profile store
  (internal/connection/store.go). Environment variables are a function that yields the empty string
  for an unset one; \<^verbatim>\<open>os.UserHomeDir\<close> reads \<^verbatim>\<open>HOME\<close>. The file is looked up in the file system model
  of Store; \<open>to_path\<close> turns a path into its components. Decoding the JSON text is an argument
  (\<open>unmarshal\<close>). Errors are their messages without the path.
\<close>

section \<open>Configuration\<close>

record config =
  cg_url :: string
  cg_user :: string
  cg_password :: string
  cg_socket :: string

definition Defaults :: config where
  "Defaults = \<lparr>cg_url = ''http://127.0.0.1:8080'', cg_user = [], cg_password = [], cg_socket = []\<rparr>"

text \<open>\<^verbatim>\<open>$XDG_CONFIG_HOME\<close> or \<^verbatim>\<open>~/.config\<close>; None without a home directory. \<open>join\<close> is \<^verbatim>\<open>filepath.Join\<close>.\<close>

definition config_home :: "(string \<Rightarrow> string \<Rightarrow> string) \<Rightarrow> (string \<Rightarrow> string) \<Rightarrow> string option" where
  "config_home join getenv =
     (if getenv ''XDG_CONFIG_HOME'' \<noteq> [] then Some (getenv ''XDG_CONFIG_HOME'')
      else if getenv ''HOME'' = [] then None
      else Some (join (getenv ''HOME'') ''.config''))"

definition DefaultStorePath :: "(string \<Rightarrow> string \<Rightarrow> string) \<Rightarrow> (string \<Rightarrow> string) \<Rightarrow> string option" where
  "DefaultStorePath join getenv =
     map_option (\<lambda>dir. join (join dir ''omatorrent'') ''connection.json'') (config_home join getenv)"

definition config_path :: "(string \<Rightarrow> string \<Rightarrow> string) \<Rightarrow> (string \<Rightarrow> string) \<Rightarrow> string \<Rightarrow> string option" where
  "config_path join getenv explicit =
     (if explicit \<noteq> [] then Some explicit
      else if getenv ''OMATORRENT_CONFIG'' \<noteq> [] then Some (getenv ''OMATORRENT_CONFIG'')
      else map_option (\<lambda>dir. join (join dir ''omatorrent'') ''service.json'') (config_home join getenv))"

definition configReadCap :: nat where "configReadCap = 1048576"

definition apply_file :: "config \<Rightarrow> config \<Rightarrow> config" where
  "apply_file file cfg = cfg\<lparr>cg_url := (if cg_url file \<noteq> [] then cg_url file else cg_url cfg),
     cg_user := cg_user file, cg_socket := cg_socket file\<rparr>"

text \<open>The open handle: permissions are checked on it, then it is read.\<close>

definition read_config :: "(string \<Rightarrow> config option) \<Rightarrow> fails \<Rightarrow> node \<Rightarrow> string + config" where
  "read_config unmarshal fails n =
     (if fails SysStat then Inl ''stat''
      else if \<not> private_mode (node_perm n) then Inl ''config file must not be group/world accessible''
      else case n of
        NFile _ _ data \<Rightarrow>
          (if fails SysRead then Inl ''read''
           else case unmarshal (take configReadCap data) of
             None \<Rightarrow> Inl ''parse''
           | Some file \<Rightarrow>
               if cg_password file \<noteq> [] then Inl ''the qbittorrent.password field is no longer supported''
               else Inr (apply_file file Defaults))
      | _ \<Rightarrow> Inl ''read'')"

definition Load :: "(string \<Rightarrow> string \<Rightarrow> string) \<Rightarrow> (string \<Rightarrow> path) \<Rightarrow> (string \<Rightarrow> config option) \<Rightarrow> (string \<Rightarrow> string) \<Rightarrow>
    fails \<Rightarrow> fs \<Rightarrow> string \<Rightarrow> string + config" where
  "Load join to_path unmarshal getenv fails fs explicit =
     (case config_path join getenv explicit of
        None \<Rightarrow> Inl ''no home directory''
      | Some p \<Rightarrow>
          (case fs (to_path p) of
             None \<Rightarrow> if explicit = [] \<and> getenv ''OMATORRENT_CONFIG'' = [] then Inr Defaults else Inl ''open''
           | Some NLink \<Rightarrow> Inl ''open''
           | Some n \<Rightarrow> if fails SysOpenRead then Inl ''open'' else read_config unmarshal fails n))"

section \<open>Properties\<close>

text \<open>
  Loading fails closed: a configuration that is accepted carries no password and has a URL, and it
  comes from a regular file that is no symbolic link, that neither group nor others can access and
  whose text has no password, or it is the default because the file was not asked for and is absent.
\<close>

theorem config_fails_closed:
  assumes "Load join to_path unmarshal getenv fails fs explicit = Inr cfg"
  shows "cg_password cfg = [] \<and> cg_url cfg \<noteq> [] \<and>
    (\<exists>p. config_path join getenv explicit = Some p \<and>
      (fs (to_path p) = None \<and> explicit = [] \<and> getenv ''OMATORRENT_CONFIG'' = [] \<and> cfg = Defaults \<or>
       (\<exists>m u data file. fs (to_path p) = Some (NFile m u data) \<and> m mod 64 = 0 \<and>
          unmarshal (take configReadCap data) = Some file \<and> cg_password file = [] \<and> cfg = apply_file file Defaults)))"
proof -
  obtain p where p: "config_path join getenv explicit = Some p"
    using assms by (auto simp: Load_def split: option.splits)
  show ?thesis
  proof (cases "fs (to_path p)")
    case None
    then show ?thesis using assms p by (auto simp: Load_def Defaults_def split: if_splits)
  next
    case (Some n)
    then have r: "read_config unmarshal fails n = Inr cfg"
      using assms p by (cases n) (auto simp: Load_def split: if_splits)
    then obtain m u data where n: "n = NFile m u data"
      by (cases n) (auto simp: read_config_def split: if_splits)
    then show ?thesis
      using r p Some
      by (auto simp: read_config_def node_perm_def private_mode_def apply_file_def Defaults_def split: if_splits option.splits)
  qed
qed

definition config_example :: fs where
  "config_example p = (if p = [''etc'', ''s.json''] then Some (NFile 384 1000 ''x'') else None)"

theorem config_fails_closed_witness:
  "Load (\<lambda>a b. a @ b) (\<lambda>_. [''etc'', ''s.json'']) (\<lambda>_. Some (Defaults\<lparr>cg_user := ''bob''\<rparr>)) (\<lambda>_. []) (\<lambda>_. False)
     config_example ''/etc/s.json'' = Inr (Defaults\<lparr>cg_user := ''bob''\<rparr>) \<and> cg_url (Defaults\<lparr>cg_user := ''bob''\<rparr>) \<noteq> []"
proof -
  have "Load (\<lambda>a b. a @ b) (\<lambda>_. [''etc'', ''s.json'']) (\<lambda>_. Some (Defaults\<lparr>cg_user := ''bob''\<rparr>)) (\<lambda>_. []) (\<lambda>_. False)
     config_example ''/etc/s.json'' = Inr (Defaults\<lparr>cg_user := ''bob''\<rparr>)"
    by (simp add: Load_def config_path_def config_example_def read_config_def node_perm_def private_mode_def Defaults_def apply_file_def)
  with config_fails_closed[OF this] show ?thesis by simp
qed

end
