(* ===== verification/Daemon.thy ===== *)
theory Daemon
  imports Server Configure Config
begin

text \<open>
  The daemon (cmd/omatorrent-service/main.go): \<open>host\<close> is the state the handler works on, the \<open>h_\<close>
  functions are the methods of \<^verbatim>\<open>daemonHandler\<close>, \<open>host_services\<close> is the handler as the server gets it,
  and \<open>boot\<close> is the wiring of \<^verbatim>\<open>run\<close> before anything is started. The forwarders between the
  channels of the syncer or the mutator and the server are \<open>forward\<close>.

  \<open>net\<close> and \<open>env\<close> are the environments of the client and of the manager, \<open>ids\<close> decodes the answer of
  an added magnet link.
\<close>

section \<open>The backend of the mutator\<close>

definition as_call :: "err option \<times> 'w \<Rightarrow> (err + string list) \<times> 'w" where
  "as_call r = (case r of (Some e, w) \<Rightarrow> (Inl e, w) | (None, w) \<Rightarrow> (Inr [], w))"

definition client_exec :: "(string \<Rightarrow> string list option) \<Rightarrow> 'w net \<Rightarrow> 'w client \<Rightarrow> backend_call \<Rightarrow> 'w \<Rightarrow>
    (err + string list) \<times> 'w" where
  "client_exec ids net c call w =
     (case call of
        StopTorrent h \<Rightarrow> as_call (cl_StopTorrent net c h w)
      | StartTorrent h \<Rightarrow> as_call (cl_StartTorrent net c h w)
      | PauseTorrent h \<Rightarrow> as_call (cl_PauseTorrent net c h w)
      | ResumeTorrent h \<Rightarrow> as_call (cl_ResumeTorrent net c h w)
      | AddMagnet u \<Rightarrow> cl_AddMagnet ids net c u w
      | DeleteTorrent h del \<Rightarrow> as_call (cl_DeleteTorrent net c h del w))"

section \<open>State\<close>

record ('s, 'w) host =
  ho_daemon :: "('s, 'w) daemon"
  ho_world :: 'w
  ho_now :: nat
  ho_bufs :: buffers
  ho_chans :: nat
  ho_logouts :: "'w client list"

section \<open>Wire values\<close>

definition toItem :: "torrent \<Rightarrow> torrent_item" where
  "toItem t = \<lparr>it_hash = t_hash t, it_name = t_name t, it_state = t_state t, it_progress = t_progress t,
     it_dl = t_dl t, it_up = t_up t, it_eta = t_eta t, it_ratio = t_ratio t, it_category = t_category t,
     it_size = t_size t, it_completed = t_completed t\<rparr>"

definition to_delta :: "change \<Rightarrow> delta_event" where
  "to_delta ch = \<lparr>de_seq = ch_seq ch, de_changed = List.map toItem (ch_changed ch), de_removed = ch_removed ch\<rparr>"

definition action_of :: "string \<Rightarrow> action" where
  "action_of a = (if a = ''torrent.pause'' then Pause else if a = ''torrent.resume'' then Resume
     else if a = ''torrent.add'' then Add else if a = ''torrent.remove'' then Remove else OtherAction a)"

definition action_name :: "action \<Rightarrow> string" where
  "action_name a = (case a of Pause \<Rightarrow> ''torrent.pause'' | Resume \<Rightarrow> ''torrent.resume'' | Add \<Rightarrow> ''torrent.add''
     | Remove \<Rightarrow> ''torrent.remove'' | OtherAction s \<Rightarrow> s)"

definition wire_result :: "result \<Rightarrow> mutation_result" where
  "wire_result r = \<lparr>mu_mutation = rs_mutation r, mu_action = action_name (rs_action r), mu_hash = rs_hash r,
     mu_status = rs_status r\<rparr>"

definition wire_stage1 :: "stage1 \<Rightarrow> mutation_stage1" where
  "wire_stage1 s1 = \<lparr>m1_outcome = s1_outcome s1, m1_mutation = s1_mutation s1, m1_action = action_name (s1_action s1),
     m1_hash = s1_hash s1, m1_replay = map_option wire_result (s1_replay s1)\<rparr>"

definition wire_status :: "status \<Rightarrow> connection_status_data" where
  "wire_status st = \<lparr>cs_configured = su_configured st, cs_mode = su_mode st, cs_url = su_url st, cs_host = su_host st,
     cs_transport = su_transport st, cs_insecure = su_insecure st, cs_user = su_user st, cs_hasSecret = su_hasSecret st,
     cs_tls = su_tls st, cs_pin = su_pin st, cs_status = su_status st, cs_detail = su_detail st, cs_epoch = su_epoch st\<rparr>"

definition test_params_of :: "connection_test_request \<Rightarrow> test_params" where
  "test_params_of r = \<lparr>tp_url = ct_url r, tp_user = ct_user r, tp_password = ct_password r, tp_stored = ct_stored r,
     tp_tls = ct_tls r, tp_pin = ct_pin r, tp_ack = ct_ack r\<rparr>"

definition configure_params_of :: "connection_configure_request \<Rightarrow> configure_params" where
  "configure_params_of r = \<lparr>tp_url = ct_url r, tp_user = ct_user r, tp_password = ct_password r, tp_stored = ct_stored r,
     tp_tls = ct_tls r, tp_pin = ct_pin r, tp_ack = ct_ack r, cp_action = ct_action r\<rparr>"

definition wire_test :: "test_result \<Rightarrow> connection_test_data" where
  "wire_test r = \<lparr>td_ok = tr_ok r, td_status = tr_status r, td_detail = tr_detail r, td_host = tr_host r,
     td_transport = tr_transport r, td_app = tr_app r, td_api = tr_api r, td_offered = tr_offered r\<rparr>"

definition wire_configure :: "configure_result \<Rightarrow> connection_configure_data" where
  "wire_configure r = \<lparr>cf_ok = cr_ok r, cf_rejection = cr_rejection r, cf_epoch = cr_epoch r, cf_mode = cr_mode r,
     cf_host = cr_host r, cf_transport = cr_transport r\<rparr>"

section \<open>The handler\<close>

abbreviation committed :: "('s, 'w) host \<Rightarrow> state" where
  "committed ho \<equiv> s_cur (da_sync (ho_daemon ho))"

definition h_Health :: "('s, 'w) host \<Rightarrow> bool" where
  "h_Health ho = st_ok (committed ho)"

definition h_StatusData :: "('s, 'w) host \<Rightarrow> status_data \<times> bool" where
  "h_StatusData ho = (let st = committed ho in
     (\<lparr>sd_app = st_app st, sd_api = st_api st, sd_dl = st_dl st, sd_up = st_up st,
       sd_total = m_len (st_torrents st)\<rparr>, st_ok st))"

definition no_dashboard :: dashboard_data where
  "no_dashboard = \<lparr>dd_app = [], dd_api = [], dd_dl = 0, dd_up = 0, dd_free = None, dd_counts = no_counts,
     dd_agg = no_sums, dd_active = [], dd_last = None\<rparr>"

definition h_Dashboard :: "('s, 'w) host \<Rightarrow> dashboard_data \<times> bool" where
  "h_Dashboard ho =
     (let st = committed ho; agg = Aggregate st;
          data = \<lparr>dd_app = st_app st, dd_api = st_api st, dd_dl = st_dl st, dd_up = st_up st, dd_free = d_free agg,
                  dd_counts = d_counts agg, dd_agg = d_agg agg, dd_active = d_active agg, dd_last = None\<rparr>
      in if st_ok st then (data, True)
         else if st_gen st = 0 then (no_dashboard, False)
         else (data\<lparr>dd_last := Some \<lparr>lk_app = st_app st, lk_api = st_api st, lk_counts = dd_counts data,
                 lk_agg = dd_agg data\<rparr>\<rparr>, False))"

text \<open>\<^verbatim>\<open>Subscribe\<close>: the committed torrents in map order, and a new channel of the syncer.\<close>

definition h_Subscribe :: "('s, 'w) host \<Rightarrow> torrent_item list \<times> nat \<times> ('s, 'w) host" where
  "h_Subscribe ho =
     (let d = ho_daemon ho; k = ho_chans ho; (st, s1) = Subscribe k (da_sync d) in
      (List.map (\<lambda>(h, t). toItem t) (st_torrents st), k,
       ho\<lparr>ho_daemon := d\<lparr>da_sync := s1\<rparr>, ho_chans := Suc k\<rparr>))"

definition h_cancelSub :: "nat \<Rightarrow> ('s, 'w) host \<Rightarrow> ('s, 'w) host" where
  "h_cancelSub k ho = ho\<lparr>ho_daemon := (ho_daemon ho)\<lparr>da_sync := cancelSub k (da_sync (ho_daemon ho))\<rparr>\<rparr>"

definition h_Submit :: "(string \<Rightarrow> string list option) \<Rightarrow> 'w net \<Rightarrow> mutation_request \<Rightarrow> ('s, 'w) host \<Rightarrow>
    mutation_stage1 \<times> ('s, 'w) host" where
  "h_Submit ids net r ho =
     (let d = ho_daemon ho; w = ho_world ho;
          req = \<lparr>rq_action = action_of (mr_action r), rq_hash = mr_hash r, rq_url = mr_url r,
                 rq_delete = mr_delete r, rq_ref = mr_ref r\<rparr>;
          (s1, m1, called) = Submit (\<lambda>c call. fst (client_exec ids net c call w)) req (committed ho) (ho_now ho) (da_mut d)
      in (wire_stage1 s1,
          ho\<lparr>ho_daemon := d\<lparr>da_mut := m1\<rparr>,
             ho_world := (case called of None \<Rightarrow> w | Some (c, call) \<Rightarrow> snd (client_exec ids net c call w))\<rparr>))"

definition h_ConnectionStatus :: "('s, 'w) host \<Rightarrow> connection_status_data" where
  "h_ConnectionStatus ho = wire_status (Status (da_mgr (ho_daemon ho)) (committed ho))"

definition h_ConnectionTest :: "('s, 'w) env \<Rightarrow> 'w net \<Rightarrow> connection_test_request \<Rightarrow> ('s, 'w) host \<Rightarrow>
    connection_test_data \<times> ('s, 'w) host" where
  "h_ConnectionTest env net r ho =
     (let d = ho_daemon ho;
          (res, m1, w1) = Test env net (test_params_of r) (ho_now ho) (ho_bufs ho) (da_mgr d) (ho_world ho)
      in (wire_test res, ho\<lparr>ho_daemon := d\<lparr>da_mgr := m1\<rparr>, ho_world := w1\<rparr>))"

text \<open>The client that a successful switch supersedes is logged out by a goroutine of its own.\<close>

definition h_ConnectionConfigure :: "('s, 'w) env \<Rightarrow> connection_configure_request \<Rightarrow> ('s, 'w) host \<Rightarrow>
    connection_configure_data \<times> ('s, 'w) host" where
  "h_ConnectionConfigure env r ho =
     (let (res, d1, old) = Configure env (configure_params_of r) (ho_daemon ho)
      in (wire_configure res, ho\<lparr>ho_daemon := d1,
            ho_logouts := ho_logouts ho @ (case old of None \<Rightarrow> [] | Some c \<Rightarrow> [c])\<rparr>))"

definition host_services :: "(string \<Rightarrow> string list option) \<Rightarrow> ('s, 'w) env \<Rightarrow> 'w net \<Rightarrow> ('s, 'w) host services" where
  "host_services ids env net = \<lparr>se_health = h_Health, se_status = h_StatusData, se_dashboard = h_Dashboard,
     se_subs = Some h_Subscribe, se_submit = Some (h_Submit ids net),
     se_conns = Some \<lparr>cn_status = h_ConnectionStatus, cn_test = h_ConnectionTest env net,
       cn_configure = h_ConnectionConfigure env\<rparr>\<rparr>"

section \<open>Forwarders\<close>

text \<open>The bounded channel of the handler between a source and the server: what does not fit ends it.\<close>

record 'e forward =
  fw_buf :: "'e list"
  fw_closed :: bool

definition forward_cap :: nat where "forward_cap = 16"

definition new_forward :: "'e forward" where
  "new_forward = \<lparr>fw_buf = [], fw_closed = False\<rparr>"

definition forward_one :: "('a \<Rightarrow> 'e) \<Rightarrow> 'a \<Rightarrow> 'e forward \<Rightarrow> 'e forward" where
  "forward_one f x fw =
     (if fw_closed fw then fw
      else if length (fw_buf fw) < forward_cap then fw\<lparr>fw_buf := fw_buf fw @ [f x]\<rparr>
      else fw\<lparr>fw_closed := True\<rparr>)"

definition forward_change :: "change \<Rightarrow> delta_event forward \<Rightarrow> delta_event forward" where
  "forward_change = forward_one to_delta"

text \<open>For results the overflow also cancels the source \<open>k\<close>.\<close>

definition forward_result :: "nat \<Rightarrow> result \<Rightarrow> mutation_result forward \<times> 'b mutator \<Rightarrow> mutation_result forward \<times> 'b mutator" where
  "forward_result k r fm =
     (case fm of (fw, m) \<Rightarrow>
        let fw1 = forward_one wire_result r fw in
        (fw1, if fw_closed fw1 \<and> \<not> fw_closed fw then cancelResults k m else m))"

section \<open>Wiring\<close>

definition connection_path :: "(string \<Rightarrow> string \<Rightarrow> string) \<Rightarrow> (string \<Rightarrow> string) \<Rightarrow> string \<Rightarrow> string" where
  "connection_path join getenv flag =
     (let p = (if flag = [] then getenv ''OMATORRENT_CONNECTION'' else flag) in
      if p = [] then (case DefaultStorePath join getenv of None \<Rightarrow> [] | Some q \<Rightarrow> q) else p)"

definition fallback_profile :: "config \<Rightarrow> profile" where
  "fallback_profile cfg = \<lparr>pf_url = cg_url cfg, pf_user = cg_user cfg, pf_tls = TLSSystem, pf_ca = [], pf_pin = [],
     pf_pem = [], pf_ack = False\<rparr>"

text \<open>\<^verbatim>\<open>run\<close> up to the server: the daemon around the client of the active profile, or an error.\<close>

definition boot :: "(string \<Rightarrow> profile option) \<Rightarrow> ('s, 'w) env \<Rightarrow> config \<Rightarrow> 's \<Rightarrow> fs \<Rightarrow> string + ('s, 'w) daemon" where
  "boot unmarshal env cfg sec fs =
     (case LoadActive unmarshal (e_readFails env) fs (e_path env) (fallback_profile cfg) of
        Inl e \<Rightarrow> Inl e
      | Inr (p, _) \<Rightarrow>
          (case BuildClient env fs p of
             None \<Rightarrow> Inl ''client''
           | Some c \<Rightarrow>
               (case NewManager unmarshal (e_readFails env) fs (e_path env) (fallback_profile cfg) of
                  Inl e \<Rightarrow> Inl e
                | Inr m \<Rightarrow> Inr \<lparr>da_mgr = AttachClient c m, da_sync = new_syncer c,
                    da_mut = new_mutator c \<lparr>mo_submit = 0, mo_window = 0, mo_max = 0, mo_ring = 0\<rparr>,
                    da_sec = sec, da_fs = fs\<rparr>)))"

section \<open>The running daemon\<close>

definition on_daemon :: "(('s, 'w) daemon \<Rightarrow> ('s, 'w) daemon) \<Rightarrow> ('s, 'w) host \<Rightarrow> ('s, 'w) host" where
  "on_daemon f ho = ho\<lparr>ho_daemon := f (ho_daemon ho)\<rparr>"

text \<open>What runs on the daemon: requests, synchronization cycles, reconciliation, ended subscriptions, the
  manager's first question to the provider, and the clock.\<close>

datatype host_event = HRequest ipc_request | HCycle | HReconcile | HCancel nat | HResults nat | HDropResults nat
  | HRefresh | HTick nat

inductive host_step :: "('raw \<Rightarrow> partial_torrent option) \<Rightarrow> (real \<Rightarrow> string) \<Rightarrow> (string \<Rightarrow> string list option) \<Rightarrow>
    ('s, 'w) env \<Rightarrow> 'w net \<Rightarrow> ('s, 'w) host \<Rightarrow> host_event \<Rightarrow> ('s, 'w) host \<Rightarrow> bool"
  for um ff ids env net where
  hs_request: "host_step um ff ids env net ho (HRequest q) (snd (dispatch ff (host_services ids env net) sub q ho))"
| hs_cycle: "host_step um ff ids env net ho HCycle
    (on_daemon (\<lambda>d. d\<lparr>da_sync := fst (snd (cycle um an (da_sync d)))\<rparr>) (ho\<lparr>ho_world := w\<rparr>))"
| hs_reconcile: "host_step um ff ids env net ho HReconcile
    (on_daemon (\<lambda>d. d\<lparr>da_mut := reconcile (s_cur (da_sync d)) (ho_now ho) (da_mut d)\<rparr>) ho)"
| hs_cancel: "host_step um ff ids env net ho (HCancel k) (h_cancelSub k ho)"
| hs_results: "host_step um ff ids env net ho (HResults k) (on_daemon (\<lambda>d. d\<lparr>da_mut := Results k (da_mut d)\<rparr>) ho)"
| hs_dropped: "host_step um ff ids env net ho (HDropResults k)
    (on_daemon (\<lambda>d. d\<lparr>da_mut := cancelResults k (da_mut d)\<rparr>) ho)"
| hs_refresh: "host_step um ff ids env net ho HRefresh
    (on_daemon (\<lambda>d. d\<lparr>da_mgr := refreshSecretPresence answer (da_mgr d)\<rparr>) ho)"
| hs_tick: "ho_now ho \<le> now \<Longrightarrow> host_step um ff ids env net ho (HTick now) (ho\<lparr>ho_now := now\<rparr>)"

end
