(* ===== verification/DaemonProps.thy ===== *)
theory DaemonProps
  imports Daemon ConfigureProps FrameProps SyncProps MutatorLemmas
begin

text \<open>
  What the wired daemon guarantees. \<open>host_inv\<close> is the invariant of the running daemon: the manager,
  the syncer and the mutator agree on the backend, which was built from the profile that is shown, and
  the committed torrents are well formed; the interpretation \<open>dm\<close> makes it hold in every state that
  is reachable from a successful start. On top of it: what a client sees of a switch, that a
  subscriber can always be served, and what a test through the socket does with its password.
\<close>

section \<open>The operations keep the backend\<close>

definition mut_same :: "'b mutator \<Rightarrow> 'b mutator \<Rightarrow> bool" where
  "mut_same m m' \<longleftrightarrow> mt_backend m' = mt_backend m \<and> mt_epoch m' = mt_epoch m \<and> mt_draining m' = mt_draining m"

lemma mut_same_refl [simp]: "mut_same m m"
  by (simp add: mut_same_def)

lemma mut_same_trans: "mut_same m1 m2 \<Longrightarrow> mut_same m2 m3 \<Longrightarrow> mut_same m1 m3"
  by (simp add: mut_same_def)

lemma mut_same_Submit: "Submit exec req st now m = (s1, m', called) \<Longrightarrow> mut_same m m'"
  by (auto simp: Submit_def Let_def reject_def register_def backend_failed_def mut_frame mut_same_def
      split: option.splits sum.splits prod.splits if_splits)

lemma mut_same_Results: "mut_same m (Results k m)" "mut_same m (cancelResults k m)"
  by (simp_all add: Results_def cancelResults_def mut_same_def mut_frame)

lemma mut_same_reconcile_loop: "reconcile_loop st now ps (fin, m) = (fin', m') \<Longrightarrow> mut_same m m'"
proof (induction st now ps "(fin, m)" arbitrary: fin m rule: reconcile_loop.induct)
  case (2 st now ref p rest fin m)
  show ?case
  proof (cases "settle st now (mt_epoch m) p")
    case None
    then show ?thesis using 2 by simp
  next
    case (Some status)
    define m2 where "m2 = (appendRingLocked (record_of ref p status) m)
      \<lparr>mt_inflight := m_del ref (mt_inflight (appendRingLocked (record_of ref p status) m))\<rparr>"
    have "mut_same m m2"
      by (simp add: m2_def mut_same_def mut_frame)
    moreover have "mut_same m2 m'"
      using 2(2)[OF Some refl refl] 2(3) Some by (simp add: m2_def Let_def)
    ultimately show ?thesis by (rule mut_same_trans)
  qed
qed simp

lemma mut_same_publish: "mut_same m (fold publish_result rs m)"
  by (simp add: mut_same_def fold_publish_fields)

lemma mut_same_reconcile: "mut_same m (reconcile st now m)"
proof -
  obtain fin m1 where r: "reconcile_locked st now m = (fin, m1)" by force
  then have "mut_same m m1"
    using mut_same_reconcile_loop[of st now "mt_inflight m" "[]" m] by (simp add: reconcile_locked_def)
  then show ?thesis
    using mut_same_publish by (auto simp: reconcile_def r intro: mut_same_trans)
qed

lemma cycle_backend:
  "s_backend (fst (snd (cycle um an s))) = s_backend s" "s_epoch (fst (snd (cycle um an s))) = s_epoch s"
  by (auto simp: cycle_def cycle_sync_def Let_def commit_degraded_epoch_def commit_def login_ok_def note_auth_failure_def
      probe_versions_def split: option.splits sum.splits prod.splits if_splits)

lemma cacheOffered_frame:
  "mg_profile (cacheOffered fp der m) = mg_profile m" "mg_endpoint (cacheOffered fp der m) = mg_endpoint m"
  "mg_epoch (cacheOffered fp der m) = mg_epoch m" "mg_valid (cacheOffered fp der m) = mg_valid m"
  "mg_current (cacheOffered fp der m) = mg_current m"
  by (simp_all add: cacheOffered_def Let_def)

definition mgr_same :: "'w manager \<Rightarrow> 'w manager \<Rightarrow> bool" where
  "mgr_same m m' \<longleftrightarrow> mg_profile m' = mg_profile m \<and> mg_endpoint m' = mg_endpoint m \<and> mg_epoch m' = mg_epoch m \<and>
     mg_valid m' = mg_valid m \<and> mg_current m' = mg_current m"

lemma mgr_same_refl [simp]: "mgr_same m m"
  by (simp add: mgr_same_def)

lemma mgr_same_classify: "classifyTestErr e ep m = (r, m') \<Longrightarrow> mgr_same m m'"
  by (auto simp: classifyTestErr_def Let_def mgr_same_def cacheOffered_frame split: err.splits if_splits)

lemma mgr_same_probe: "probe net c login ep m w = (r, m', w') \<Longrightarrow> mgr_same m m'"
  by (auto simp: probe_def Let_def split: option.splits sum.splits prod.splits if_splits dest!: mgr_same_classify)

lemma mgr_same_gate: "pace_gate now m = (b, m') \<Longrightarrow> mgr_same m m'"
  by (auto simp: pace_gate_def Let_def mgr_same_def split: if_splits)

lemma mgr_same_trans: "mgr_same m1 m2 \<Longrightarrow> mgr_same m2 m3 \<Longrightarrow> mgr_same m1 m3"
  by (simp add: mgr_same_def)

lemma mgr_same_Test: "Test env net p now b m w = (r, m', w') \<Longrightarrow> mgr_same m m'"
  by (auto simp: Test_def Let_def split: option.splits sum.splits prod.splits if_splits
      dest!: mgr_same_probe mgr_same_gate intro: mgr_same_trans)

lemma mgr_same_refresh: "mgr_same m (refreshSecretPresence a m)"
  by (simp add: refreshSecretPresence_def mgr_same_def split: option.splits)

section \<open>The committed torrents\<close>

text \<open>\<^verbatim>\<open>json.Unmarshal\<close> into an \<^verbatim>\<open>int64\<close> field yields a value of that range, or fails.\<close>

definition decodes_int64 :: "('raw \<Rightarrow> partial_torrent option) \<Rightarrow> bool" where
  "decodes_int64 um \<longleftrightarrow> (\<forall>raw p. um raw = Some p \<longrightarrow>
     pred_option int64 (p_dl p) \<and> pred_option int64 (p_up p) \<and> pred_option int64 (p_eta p) \<and>
     pred_option int64 (p_size p) \<and> pred_option int64 (p_completed p))"

definition torrent64 :: "torrent \<Rightarrow> bool" where
  "torrent64 t \<longleftrightarrow> int64 (t_dl t) \<and> int64 (t_up t) \<and> int64 (t_eta t) \<and> int64 (t_size t) \<and> int64 (t_completed t)"

definition all_torrents :: "(torrent \<Rightarrow> bool) \<Rightarrow> (string, torrent) gomap \<Rightarrow> bool" where
  "all_torrents Q ts \<longleftrightarrow> (\<forall>h t. m_get ts h = Some t \<longrightarrow> Q t)"

lemma all_torrents_simps:
  "all_torrents Q m_empty" "all_torrents Q ts \<Longrightarrow> Q t \<Longrightarrow> all_torrents Q (m_put h t ts)"
  "all_torrents Q ts \<Longrightarrow> all_torrents Q (m_del h ts)"
  by (auto simp: all_torrents_def gomap_simps split: if_splits)

lemma field_or_64:
  "pred_option int64 f \<Longrightarrow> int64 d \<Longrightarrow> int64 (field_or f id d)"
  "pred_option int64 f \<Longrightarrow> int64 d \<Longrightarrow> int64 (field_or f (min EtaUnknown) d)"
  by (cases f; simp add: field_or_def min_def EtaUnknown_def int64_defs)+

lemma torrent64_apply:
  assumes "decodes_int64 um" "um raw = Some p" "torrent64 t"
  shows "torrent64 ((apply_partial p t)\<lparr>t_hash := h\<rparr>)"
proof -
  have "pred_option int64 (p_dl p)" "pred_option int64 (p_up p)" "pred_option int64 (p_eta p)"
    "pred_option int64 (p_size p)" "pred_option int64 (p_completed p)"
    using assms(1,2) unfolding decodes_int64_def by blast+
  then show ?thesis
    using assms(3) by (simp add: torrent64_def apply_partial_fields field_or_64)
qed

lemma torrent64_zero: "torrent64 zero_torrent"
  by (simp add: torrent64_def zero_torrent_def int64_defs)

lemma full_loop_64:
  assumes "full_loop um kvs acc = Inr nxt" "all_torrents torrent64 acc" "decodes_int64 um"
  shows "all_torrents torrent64 nxt"
  using assms
proof (induction um kvs acc rule: full_loop.induct)
  case (2 um k raw rest acc)
  from 2(2) obtain p where p: "um raw = Some p" "validHash k"
    "full_loop um rest (m_put k ((apply_partial p zero_torrent)\<lparr>t_hash := k\<rparr>) acc) = Inr nxt"
    by (auto simp: decodeFull_def split: if_splits option.splits)
  have "all_torrents torrent64 (m_put k ((apply_partial p zero_torrent)\<lparr>t_hash := k\<rparr>) acc)"
    using 2(3) by (intro all_torrents_simps torrent64_apply[OF 2(4) p(1)] torrent64_zero)
  then show ?case
    using 2(1)[of "apply_partial p zero_torrent"] 2(4) p by (simp add: decodeFull_def)
qed simp

lemma delta_loop_64:
  assumes "delta_loop um kvs acc = Inr r" "all_torrents torrent64 (fst acc)" "decodes_int64 um"
  shows "all_torrents torrent64 (fst r)"
  using assms
proof (induction um kvs acc rule: delta_loop.induct)
  case (2 um k raw rest nxt changed)
  define t0 where "t0 = (case m_get nxt k of None \<Rightarrow> zero_torrent | Some t \<Rightarrow> t)"
  from 2(2) obtain p where p: "um raw = Some p" "validHash k"
    "delta_loop um rest (m_put k ((apply_partial p t0)\<lparr>t_hash := k\<rparr>) nxt,
       changed @ [(apply_partial p t0)\<lparr>t_hash := k\<rparr>]) = Inr r"
    by (auto simp: t0_def Let_def split: if_splits option.splits)
  have "torrent64 t0"
    using 2(3) torrent64_zero by (auto simp: t0_def all_torrents_def split: option.splits)
  then have "all_torrents torrent64 (m_put k ((apply_partial p t0)\<lparr>t_hash := k\<rparr>) nxt)"
    using 2(3) by (intro all_torrents_simps torrent64_apply[OF 2(4) p(1)]) simp_all
  then show ?case
    using 2(1)[of p t0 "(apply_partial p t0)\<lparr>t_hash := k\<rparr>"] 2(4) p by (simp add: t0_def)
qed simp

lemma removed_loop_64: "all_torrents Q (fst acc) \<Longrightarrow> all_torrents Q (fst (removed_loop hs acc))"
  by (induction hs acc rule: removed_loop.induct) (simp_all add: all_torrents_simps split: option.splits)

lemma merge_64:
  assumes "merge_torrents um prev md = Inr (nxt, ch, rm)" "all_torrents torrent64 prev" "decodes_int64 um"
  shows "all_torrents torrent64 nxt"
proof (cases "md_full md")
  case True
  then have "full_loop um (md_torrents md) m_empty = Inr nxt"
    using assms(1) by (auto simp: merge_torrents_def split: sum.splits)
  then show ?thesis
    by (rule full_loop_64[OF _ all_torrents_simps(1) assms(3)])
next
  case False
  then obtain nxt0 ch0 where d: "delta_loop um (md_torrents md) (prev, []) = Inr (nxt0, ch0)"
    "removed_loop (md_removed md) (nxt0, []) = (nxt, rm)"
    using assms(1) by (auto simp: merge_torrents_def split: sum.splits prod.splits)
  show ?thesis
    using delta_loop_64[OF d(1) _ assms(3)] assms(2) removed_loop_64[of torrent64 "(nxt0, [])" "md_removed md"] d(2) by simp
qed

text \<open>What every cycle keeps of the committed torrents.\<close>

definition torrents_good :: "(string, torrent) gomap \<Rightarrow> bool" where
  "torrents_good ts \<longleftrightarrow> torrents_wf ts \<and> all_torrents torrent64 ts"

lemma cycle_good:
  assumes "torrents_good (st_torrents (s_cur s))" "decodes_int64 um"
  shows "torrents_good (st_torrents (s_cur (fst (snd (cycle um an s)))))"
proof -
  obtain ok s' calls where c: "cycle um an s = (ok, s', calls)" by (metis surj_pair)
  show ?thesis
  proof (cases ok)
    case True
    then obtain md nxt ch rm where n: "build_next um (s_cur s) md = Inr (nxt, ch, rm)"
      "st_torrents (s_cur s') = st_torrents nxt"
      using cycle_cases[OF c] by (auto simp: committed_from_def)
    moreover from n(1) have "merge_torrents um (st_torrents (s_cur s)) md = Inr (st_torrents nxt, ch, rm)"
      by (auto simp: build_next_def merge_server_def zero_state_def Let_def split: sum.splits option.splits)
    ultimately show ?thesis
      using assms merge_64 merge_torrents_wf by (auto simp: torrents_good_def c)
  next
    case False
    then show ?thesis
      using cycle_cases[OF c] assms(1) by (auto simp: failed_from_def degraded_fields c)
  qed
qed

section \<open>The invariant of the running daemon\<close>

definition daemon_inv :: "('raw \<Rightarrow> partial_torrent option) \<Rightarrow> ('s, 'w) env \<Rightarrow> ('s, 'w) daemon \<Rightarrow> bool" where
  "daemon_inv um env d \<longleftrightarrow> daemon_ok d \<and> \<not> httpPolicyError (mg_endpoint (da_mgr d)) (pf_ack (mg_profile (da_mgr d))) \<and>
     (\<exists>fs. buildClient env fs (mg_profile (da_mgr d)) (mg_endpoint (da_mgr d)) = Some (s_backend (da_sync d))) \<and>
     (decodes_int64 um \<longrightarrow> torrents_good (st_torrents (s_cur (da_sync d))))"

lemma torrents_good_empty: "torrents_good m_empty"
  by (simp add: torrents_good_def torrents_wf_empty all_torrents_simps)

lemma daemon_inv_parts:
  "daemon_inv um env d \<Longrightarrow> mut_same (da_mut d) m \<Longrightarrow> daemon_inv um env (d\<lparr>da_mut := m\<rparr>)"
  "daemon_inv um env d \<Longrightarrow> mgr_same (da_mgr d) g \<Longrightarrow> daemon_inv um env (d\<lparr>da_mgr := g\<rparr>)"
  "daemon_inv um env d \<Longrightarrow> s_backend s = s_backend (da_sync d) \<Longrightarrow> s_epoch s = s_epoch (da_sync d) \<Longrightarrow>
     (decodes_int64 um \<Longrightarrow> torrents_good (st_torrents (s_cur s))) \<Longrightarrow> daemon_inv um env (d\<lparr>da_sync := s\<rparr>)"
  by (simp_all add: daemon_inv_def daemon_ok_def mut_same_def mgr_same_def)

lemma Configure_sync:
  assumes "Configure env p d = (r, d', lo)"
  shows "if cr_ok r then (\<exists>c. da_sync d' = SwitchBackend c (da_sync d)) else da_sync d' = da_sync d"
proof (cases "cr_ok r")
  case False
  then show ?thesis using Configure_frame[OF assms False] by (simp add: same_backend_def)
next
  case True
  show ?thesis
    by (rule Configure_ok[OF assms True]) (auto simp: activate_def Let_def True)
qed

lemma daemon_inv_Configure:
  assumes "daemon_inv um env d" "Configure env p d = (r, d', lo)"
  shows "daemon_inv um env d'"
proof -
  have d: "daemon_ok d" using assms(1) by (simp add: daemon_inv_def)
  note raw = configure_refines_raw[OF d assms(2)]
  show ?thesis
  proof (cases "cr_ok r")
    case False
    then have "active_of d' = active_of d" "da_sync d' = da_sync d"
      using raw Configure_sync[OF assms(2)] by simp_all
    then show ?thesis
      using assms(1) raw by (auto simp: daemon_inv_def active_of_def)
  next
    case True
    then obtain ep tls c fs where n: "buildClient env fs (next_profile p ep tls) ep = Some c"
      "\<not> httpPolicyError ep (tp_ack p)" "active_of d' = spec_switch (next_profile p ep tls) ep c (active_of d)"
      using raw by auto
    from Configure_sync[OF assms(2)] True obtain c' where "da_sync d' = SwitchBackend c' (da_sync d)" by auto
    then have "torrents_good (st_torrents (s_cur (da_sync d')))"
      by (simp add: switch_fields switched_fields torrents_good_empty)
    moreover have "mg_profile (da_mgr d') = next_profile p ep tls" "mg_endpoint (da_mgr d') = ep"
      "s_backend (da_sync d') = c" "pf_ack (next_profile p ep tls) = tp_ack p"
      using n(3) by (simp_all add: active_of_def spec_switch_def next_profile_def)
    ultimately show ?thesis
      using n raw by (auto simp: daemon_inv_def)
  qed
qed

definition host_inv :: "('raw \<Rightarrow> partial_torrent option) \<Rightarrow> ('s, 'w) env \<Rightarrow> ('s, 'w) host \<Rightarrow> bool" where
  "host_inv um env ho \<longleftrightarrow> daemon_inv um env (ho_daemon ho)"

lemma host_inv_handler:
  assumes "host_inv um env ho"
  shows "host_inv um env (snd (h_Submit ids net mr ho))" "host_inv um env (snd (h_ConnectionTest env net t ho))"
    "host_inv um env (snd (h_ConnectionConfigure env c ho))" "host_inv um env (snd (snd (h_Subscribe ho)))"
    "host_inv um env (h_cancelSub k ho)"
proof -
  show "host_inv um env (snd (h_Submit ids net mr ho))"
    using assms mut_same_Submit
    by (auto simp: host_inv_def h_Submit_def Let_def intro!: daemon_inv_parts split: prod.splits)
  show "host_inv um env (snd (h_ConnectionTest env net t ho))"
    using assms mgr_same_Test
    by (auto simp: host_inv_def h_ConnectionTest_def Let_def intro!: daemon_inv_parts split: prod.splits)
  show "host_inv um env (snd (h_ConnectionConfigure env c ho))"
    using assms daemon_inv_Configure
    by (auto simp: host_inv_def h_ConnectionConfigure_def Let_def split: prod.splits)
  show "host_inv um env (snd (snd (h_Subscribe ho)))" "host_inv um env (h_cancelSub k ho)"
    using assms
    by (auto simp: host_inv_def h_Subscribe_def h_cancelSub_def Subscribe_def cancelSub_def Let_def daemon_inv_def
        daemon_ok_def split: prod.splits)
qed

lemma host_inv_dispatch:
  assumes "host_inv um env ho"
  shows "host_inv um env (snd (dispatch ff (host_services ids env net) sub q ho))"
  using assms host_inv_handler[OF assms]
  by (simp add: dispatch_def host_services_def case_prod_beta)

text \<open>The start, with the clock and the outside world as they come.\<close>

definition host_start :: "(string \<Rightarrow> profile option) \<Rightarrow> ('s, 'w) env \<Rightarrow> config \<Rightarrow> fs \<Rightarrow> ('s, 'w) host \<Rightarrow> bool" where
  "host_start unmarshal env cfg fs ho \<longleftrightarrow> boot unmarshal env cfg (da_sec (ho_daemon ho)) fs = Inr (ho_daemon ho)"

lemma boot_cases:
  assumes "boot unmarshal env cfg sec fs = Inr d"
  obtains p ep c where "LoadActive unmarshal (e_readFails env) fs (e_path env) (fallback_profile cfg) = Inr (p, ep)"
    "Validate p = Inr ep" "buildClient env fs p ep = Some c" "da_mgr d = AttachClient c (new_manager p ep)"
    "da_sync d = new_syncer c" "mt_backend (da_mut d) = c" "mt_epoch (da_mut d) = 0" "\<not> mt_draining (da_mut d)"
proof -
  obtain p ep where l: "LoadActive unmarshal (e_readFails env) fs (e_path env) (fallback_profile cfg) = Inr (p, ep)"
    using assms by (auto simp: boot_def split: sum.splits)
  then have v: "Validate p = Inr ep"
    by (auto simp: LoadActive_def Let_def split: sum.splits)
  then obtain c where "buildClient env fs p ep = Some c"
    using assms l by (auto simp: boot_def BuildClient_def split: option.splits)
  then show ?thesis
    using assms l v that by (auto simp: boot_def BuildClient_def NewManager_def new_mutator_def)
qed

lemma host_inv_start: "host_start unmarshal env cfg fs ho \<Longrightarrow> host_inv um env ho"
  unfolding host_start_def
  by (erule boot_cases) (auto simp: host_inv_def daemon_inv_def daemon_ok_def AttachClient_def new_manager_def
      new_syncer_def zero_state_def torrents_good_empty Validate_ok)

lemma host_inv_step:
  assumes "host_inv um env ho" "host_step um ff ids env net ho e ho'"
  shows "host_inv um env ho'"
  using assms(2)
proof cases
  case (hs_cycle an w)
  then show ?thesis
    using assms(1) cycle_good[of "da_sync (ho_daemon ho)" um an]
    by (auto simp: host_inv_def on_daemon_def cycle_backend intro!: daemon_inv_parts) (simp add: daemon_inv_def)
next
  case hs_reconcile
  then show ?thesis
    using assms(1) by (auto simp: host_inv_def on_daemon_def intro: daemon_inv_parts mut_same_reconcile)
next
  case (hs_results k)
  then show ?thesis
    using assms(1) by (auto simp: host_inv_def on_daemon_def intro: daemon_inv_parts mut_same_Results)
next
  case (hs_dropped k)
  then show ?thesis
    using assms(1) by (auto simp: host_inv_def on_daemon_def intro: daemon_inv_parts mut_same_Results)
next
  case (hs_refresh answer)
  then show ?thesis
    using assms(1) by (auto simp: host_inv_def on_daemon_def intro: daemon_inv_parts mgr_same_refresh)
next
  case (hs_cancel k)
  then show ?thesis using host_inv_handler(5)[OF assms(1)] by simp
next
  case (hs_request sub q)
  then show ?thesis using host_inv_dispatch[OF assms(1)] by simp
next
  case (hs_tick now)
  then show ?thesis using assms(1) by (simp add: host_inv_def)
qed

interpretation dm: transition "host_start unmarshal env cfg fs" "host_step um ff ids env net" "host_inv um env"
  for unmarshal env cfg fs um ff ids net
  by unfold_locales (auto intro: host_inv_start host_inv_step)

section \<open>Agreement\<close>

text \<open>
  C4. In every state that the running daemon reaches between two requests, the synchronization, the
  mutations and the manager use one and the same client, in one epoch, which is the epoch that the
  connection status reports, and no switch is left half done; that client was built from the
  profile and the endpoint that the status shows; and remote plain HTTP is in use only where the
  profile acknowledges it.
\<close>

theorem daemon_runs_what_it_shows:
  assumes "reachable (host_start unmarshal env cfg fs) (host_step um ff ids env net) ho"
  shows "let d = ho_daemon ho; cs = h_ConnectionStatus ho in
    mt_backend (da_mut d) = s_backend (da_sync d) \<and> mg_current (da_mgr d) = Some (s_backend (da_sync d)) \<and>
    mt_epoch (da_mut d) = s_epoch (da_sync d) \<and> cs_epoch cs = s_epoch (da_sync d) \<and> \<not> mt_draining (da_mut d) \<and>
    cs_url cs = pf_url (mg_profile (da_mgr d)) \<and> cs_transport cs = ep_scheme (mg_endpoint (da_mgr d)) \<and>
    (\<exists>fs. buildClient env fs (mg_profile (da_mgr d)) (mg_endpoint (da_mgr d)) = Some (s_backend (da_sync d))) \<and>
    (cs_insecure cs \<longrightarrow> pf_ack (mg_profile (da_mgr d)))"
proof -
  have "host_inv um env ho" by (rule dm.reachable_inv[OF assms])
  then show ?thesis
    by (auto simp: host_inv_def daemon_inv_def daemon_ok_def h_ConnectionStatus_def wire_status_def Status_def
        httpPolicyError_def Let_def split: prod.splits)
qed

section \<open>Subscribers\<close>

lemma good_item:
  assumes "torrents_good ts" "(h, t) \<in> set ts"
  shows "it_hash (toItem t) = h" "item_ints (toItem t)" "length (runes (it_hash (toItem t))) \<le> 64"
    "length (runes (it_state (toItem t))) \<le> 64"
proof -
  have g: "m_get ts h = Some t"
    using assms by (auto simp: torrents_good_def torrents_wf_def m_get_mem)
  then have t: "t_hash t = h" "torrent_wf t" "torrent64 t"
    using assms(1) by (auto simp: torrents_good_def torrents_wf_def all_torrents_def)
  show "it_hash (toItem t) = h" using t(1) by (simp add: toItem_def)
  show "item_ints (toItem t)" using t(3) by (simp add: item_ints_def torrent64_def toItem_def)
  have "validHash (t_hash t)" "t_state t \<in> insert [] normalized_states"
    using t(2) by (simp_all add: torrent_wf_def)
  then show "length (runes (it_hash (toItem t))) \<le> 64" "length (runes (it_state (toItem t))) \<le> 64"
    using length_runes[of "t_hash t"] length_runes[of "t_state t"]
    by (auto simp: toItem_def validHash_def normalized_states_def StateDownloading_def StateSeeding_def StatePaused_def
        StateQueued_def StateChecking_def StateError_def StateMoving_def StateOther_def)
qed

text \<open>
  C12. In every state that the running daemon reaches, a new subscriber is offered each committed torrent
  once, under its hash, and every frame of its snapshot can be encoded: whatever names and
  categories the backend has sent, no torrent ends a subscription before its deltas start.
\<close>

theorem every_subscriber_can_be_served:
  assumes "reachable (host_start unmarshal env cfg fs) (host_step um ff ids env net) ho" "decodes_int64 um"
    and "short_floats ff" "int64 i" "h_Subscribe ho = (items, k, ho')" "length items < 2 ^ 64"
  shows "None \<notin> set (snapshot_frames ff i (sortItems items)) \<and>
    List.map it_hash items = m_keys (st_torrents (committed ho)) \<and> distinct (List.map it_hash items) \<and>
    mset (sortItems items) = mset items"
proof -
  let ?ts = "st_torrents (committed ho)"
  have good: "torrents_good ?ts"
    using dm.reachable_inv[OF assms(1)] assms(2) by (simp add: host_inv_def daemon_inv_def)
  have items: "items = List.map (\<lambda>(h, t). toItem t) ?ts"
    using assms(5) by (auto simp: h_Subscribe_def Subscribe_def Let_def split: prod.splits)
  have hashes: "List.map it_hash items = m_keys ?ts"
    using good_item(1)[OF good] by (auto simp: items m_keys_def)
  have enc: False if "(idx, t) \<in> set (List.enumerate 0 (sortItems items))" "None = EncodeSnapshotItem ff i idx t" for idx t
  proof -
    from that(1) have "t \<in> set items" "idx < length items"
      by (auto simp: in_set_enumerate_eq sortItems_def) (metis length_sort nth_mem set_sort)
    then obtain h u where "(h, u) \<in> set ?ts" "t = toItem u" "idx < 2 ^ 64"
      using assms(6) by (auto simp: items)
    then show ?thesis
      using snapshot_item_fits_raw[OF assms(3) _ assms(4), of t idx] good_item[OF good, of h u] that(2) by auto
  qed
  have "distinct (m_keys ?ts)"
    using good by (simp add: torrents_good_def torrents_wf_def m_ok_def)
  then show ?thesis
    using enc by (auto simp: snapshot_frames_def hashes) (simp_all add: sortItems_def)
qed

section \<open>A switch as the clients see it\<close>

text \<open>
  C13. After a successful configuration the daemon is down until the new backend has answered: health and
  status say so, the status counts no torrents, a new subscriber is offered none, and the connection
  status is that of the new connection, with the epoch of the answer; the client that was replaced
  is handed to the logout. After a refused one nothing that a client can read has changed, but for
  the flag that says whether a password is stored.
\<close>

theorem client_sees_switch:
  assumes "h_ConnectionConfigure env r ho = (res, ho')"
  shows "if cf_ok res
    then \<not> h_Health ho' \<and> sd_total (fst (h_StatusData ho')) = 0 \<and> fst (h_Subscribe ho') = [] \<and>
      cs_status (h_ConnectionStatus ho') = StatusConnecting \<and> cs_epoch (h_ConnectionStatus ho') = cf_epoch res \<and>
      cs_host (h_ConnectionStatus ho') = cf_host res \<and> cs_transport (h_ConnectionStatus ho') = cf_transport res \<and>
      cs_mode (h_ConnectionStatus ho') = cf_mode res \<and>
      ho_logouts ho' = ho_logouts ho @ (case mg_current (da_mgr (ho_daemon ho)) of None \<Rightarrow> [] | Some c \<Rightarrow> [c])
    else h_Health ho' = h_Health ho \<and> h_StatusData ho' = h_StatusData ho \<and> h_Dashboard ho' = h_Dashboard ho \<and>
      fst (h_Subscribe ho') = fst (h_Subscribe ho) \<and> ho_logouts ho' = ho_logouts ho \<and>
      (\<exists>b. h_ConnectionStatus ho' = (h_ConnectionStatus ho)\<lparr>cs_hasSecret := b\<rparr>)"
proof -
  obtain r1 d1 old where c: "Configure env (configure_params_of r) (ho_daemon ho) = (r1, d1, old)"
    by (metis surj_pair)
  then have res: "res = wire_configure r1" "ho_daemon ho' = d1"
    "ho_logouts ho' = ho_logouts ho @ (case old of None \<Rightarrow> [] | Some c \<Rightarrow> [c])"
    using assms by (auto simp: h_ConnectionConfigure_def)
  show ?thesis
  proof (cases "cr_ok r1")
    case True
    obtain ep q mu s2 fs1 cl where a: "activate (configure_params_of r) q ep cl ((ho_daemon ho)\<lparr>da_mut := mu, da_sec := s2, da_fs := fs1\<rparr>) = (r1, d1)"
      "old = mg_current (da_mgr (ho_daemon ho))"
      by (rule Configure_ok[OF c True])
    then have d1: "da_sync d1 = SwitchBackend cl (da_sync (ho_daemon ho))" "mg_endpoint (da_mgr d1) = ep" "mg_valid (da_mgr d1)"
      "mg_epoch (da_mgr d1) = cr_epoch r1" "cr_mode r1 = mode_of ep" "cr_host r1 = truncateRunes (ep_host ep) 128"
      "cr_transport r1 = ep_scheme ep"
      by (auto simp: activate_def Let_def)
    have "st_torrents (committed ho') = m_empty" "\<not> st_ok (committed ho')" "st_err (committed ho') = StatusLoading"
      by (simp_all add: res d1 switch_fields switched_fields)
    then show ?thesis
      using True d1 by (simp add: res a(2) wire_configure_def h_Health_def h_StatusData_def h_Subscribe_def Subscribe_def
          Let_def h_ConnectionStatus_def wire_status_def Status_def mapErrorClass_def gm.len_empty case_prod_beta)
        (simp add: m_empty_def)
  next
    case False
    then obtain b where d1: "da_sync d1 = da_sync (ho_daemon ho)" "da_mgr d1 = (da_mgr (ho_daemon ho))\<lparr>mg_hasSecret := b\<rparr>"
      "old = None"
      using Configure_frame[OF c False] by (auto simp: same_backend_def)
    then show ?thesis
      using False by (auto simp: res wire_configure_def h_Health_def h_StatusData_def h_Dashboard_def h_Subscribe_def Subscribe_def
          h_ConnectionStatus_def wire_status_def Status_def Let_def split: prod.splits)
  qed
qed

text \<open>
  C39. A daemon whose backend never answered has nothing last known to show. But the switch to another
  backend counts as a commit: after it the dashboard shows torrents and sums of zero as last known,
  though no synchronization has ever succeeded.
\<close>

theorem switch_fabricates_last_known:
  assumes "host_start unmarshal env cfg fs ho" "h_ConnectionConfigure env r ho = (res, ho')" "cf_ok res"
  shows "h_Dashboard ho = (no_dashboard, False) \<and> \<not> snd (h_Dashboard ho') \<and>
    dd_last (fst (h_Dashboard ho')) = Some \<lparr>lk_app = [], lk_api = [], lk_counts = no_counts, lk_agg = no_sums\<rparr>"
proof -
  obtain r1 d1 old where c: "Configure env (configure_params_of r) (ho_daemon ho) = (r1, d1, old)" "cr_ok r1" "ho_daemon ho' = d1"
    using assms(2,3) by (auto simp: h_ConnectionConfigure_def wire_configure_def split: prod.splits)
  obtain c0 where s: "da_sync (ho_daemon ho) = new_syncer c0"
    using assms(1) unfolding host_start_def by (rule boot_cases) blast
  from Configure_sync[OF c(1)] c(2) obtain b where "da_sync d1 = SwitchBackend b (da_sync (ho_daemon ho))" by auto
  then show ?thesis
    by (simp add: h_Dashboard_def s c(3) new_syncer_def zero_state_def switch_fields switched_fields Let_def Aggregate_def m_empty_def)
      (simp add: switched_state_def)
qed

section \<open>Tests through the socket\<close>

lemma NewConfigurable_parts: "NewConfigurable certs cc = Some c \<Longrightarrow> cl_user c = cc_user cc \<and> cl_fetch c = cc_fetch cc"
  by (auto simp: NewConfigurable_def split: option.splits if_splits)

text \<open>
  The server hands the password of a request on as a byte slice that is never nil. So a test that
  asks for the stored password, and sends none, is made with the empty password: it never reaches
  the backend and never succeeds, whatever password is stored.
\<close>

theorem ipc_test_ignores_stored_password:
  assumes "q_stored q" "q_password q = []" "q_user q \<noteq> []"
    and "h_ConnectionTest env net (test_request q) ho = (res, ho')"
  shows "\<not> td_ok res \<and> ho_world ho' = ho_world ho \<and>
    td_status res \<in> {StatusInvalidConfig, StatusInsecureHTTP, StatusAuthRequired, StatusSecretsUnavailable}"
proof -
  let ?p = "test_params_of (test_request q)"
  obtain r m1 w1 where t: "Test env net ?p (ho_now ho) (ho_bufs ho) (da_mgr (ho_daemon ho)) (ho_world ho) = (r, m1, w1)"
    by (metis surj_pair)
  have login: "probe net c True ep m w = (r, m2, w2) \<Longrightarrow> NewConfigurable certs cc = Some c \<Longrightarrow> cc_user cc \<noteq> [] \<Longrightarrow>
      cc_fetch cc = Some (\<lambda>w. (Inr [], w)) \<Longrightarrow> \<not> tr_ok r \<and> w2 = w \<and> tr_status r = StatusSecretsUnavailable"
    for c ep m w m2 w2 certs cc
    by (drule NewConfigurable_parts) (auto simp: probe_def Login_def login_password_def classifyTestErr_def no_result_def)
  have "\<not> tr_ok r \<and> w1 = ho_world ho \<and>
      tr_status r \<in> {StatusInvalidConfig, StatusInsecureHTTP, StatusAuthRequired, StatusSecretsUnavailable}"
    using t assms(1-3)
    by (auto simp: Test_def test_params_of_def test_request_def resolveSecret_def read_source_def no_result_def Let_def
        split: sum.splits option.splits if_splits prod.splits dest!: login)
  then show ?thesis
    using assms(4) t by (auto simp: h_ConnectionTest_def wire_test_def)
qed

section \<open>Witnesses\<close>

definition dw_host :: "(fake, nat) host" where
  "dw_host = \<lparr>ho_daemon = wc_daemon, ho_world = 0, ho_now = 0, ho_bufs = \<lparr>bf_mem = (\<lambda>_. []), bf_next = 0\<rparr>,
     ho_chans = 0, ho_logouts = []\<rparr>"

definition dw_net :: "nat net" where
  "dw_net = \<lparr>n_send = (\<lambda>_ _ w. (Inr \<lparr>hr_status = 204, hr_body = [], hr_broken = False\<rparr>, w)), n_sha = (\<lambda>_. [])\<rparr>"

lemma dw_start: "host_start (\<lambda>_. Some DefaultProfile) (wc_env False) Defaults wc_fs dw_host"
proof -
  have "openProfileForRead (\<lambda>_. False) wc_fs home_path = Inr (Some ''old'')"
    using wc_read by (simp add: ReadStoreRaw_def)
  then have "LoadActive (\<lambda>_. Some DefaultProfile) (\<lambda>_. False) wc_fs home_path fb = Inr (DefaultProfile, local_endpoint)" for fb
    by (simp add: LoadActive_def LoadStore_def default_endpoint) (simp add: DefaultProfile_def TLSSystem_def default_endpoint[unfolded DefaultProfile_def TLSSystem_def])
  then show ?thesis
    by (simp add: host_start_def boot_def wc_env_simps BuildClient_def default_endpoint wc_build NewManager_def dw_host_def
        wc_daemon_def AttachClient_def)
qed

abbreviation dw_reachable :: "(fake, nat) host \<Rightarrow> bool" where
  "dw_reachable \<equiv> reachable (host_start (\<lambda>_. Some DefaultProfile) (wc_env False) Defaults wc_fs)
     (host_step demo_um (\<lambda>_. ''0.1'') (\<lambda>_. None) (wc_env False) dw_net)"

definition dw_synced :: "(fake, nat) host" where
  "dw_synced = on_daemon (\<lambda>d. d\<lparr>da_sync := fst (snd (cycle demo_um demo_answers (da_sync d)))\<rparr>) (dw_host\<lparr>ho_world := 1\<rparr>)"

lemma dw_run: "dw_reachable dw_host" "dw_reachable dw_synced"
proof -
  show r: "dw_reachable dw_host" by (rule reach_init, rule dw_start)
  show "dw_reachable dw_synced"
    unfolding dw_synced_def by (rule reach_step[OF r hs_cycle])
qed

lemma demo_single: "build_next demo_um (s_cur s) demo_md = Inr (nxt, ch, rm) \<Longrightarrow> length (st_torrents nxt) = 1"
  by (auto simp: build_next_def merge_torrents_def demo_md_def merge_server_def zero_state_def m_put_def m_empty_def
      split: sum.splits if_splits option.splits)

lemma dw_torrents: "m_get (st_torrents (committed dw_synced)) demo_hash \<noteq> None" "length (st_torrents (committed dw_synced)) = 1"
proof -
  obtain nxt ch rm where b: "build_next demo_um (s_cur (new_syncer wc_client)) demo_md = Inr (nxt, ch, rm)"
    "m_get (st_torrents nxt) demo_hash \<noteq> None"
    using demo_build by (auto simp: new_syncer_def)
  obtain ok s' calls where c: "cycle demo_um demo_answers (new_syncer wc_client) = (ok, s', calls)" by (metis surj_pair)
  then have "ok"
    using b by (auto simp: cycle_def cycle_sync_def cycle_begin_def new_syncer_def zero_state_def
      demo_answers_def login_ok_def probe_versions_def commit_def needs_probe_def Let_def)
  then have "st_torrents (s_cur s') = st_torrents nxt"
    using cycle_cases[OF c] b(1) by (auto simp: committed_from_def demo_answers_def)
  moreover have "da_sync wc_daemon = new_syncer wc_client" by (simp add: wc_daemon_def)
  ultimately show "m_get (st_torrents (committed dw_synced)) demo_hash \<noteq> None" "length (st_torrents (committed dw_synced)) = 1"
    using b(2) c demo_single[OF b(1)] by (simp_all add: dw_synced_def on_daemon_def dw_host_def)
qed

theorem daemon_runs_what_it_shows_witness:
  "dw_reachable dw_synced \<and> mt_backend (da_mut (ho_daemon dw_synced)) = s_backend (da_sync (ho_daemon dw_synced))"
  using daemon_runs_what_it_shows[OF dw_run(2)] dw_run(2) by (simp add: Let_def)

theorem every_subscriber_can_be_served_witness:
  "\<exists>items k ho'. h_Subscribe dw_synced = (items, k, ho') \<and> items \<noteq> [] \<and>
     None \<notin> set (snapshot_frames (\<lambda>_. ''0.1'') 7 (sortItems items))"
proof -
  obtain items k ho' where s: "h_Subscribe dw_synced = (items, k, ho')" by (metis surj_pair)
  have "st_torrents (committed dw_synced) \<noteq> []"
    using dw_torrents by (auto simp: m_get_Nil)
  then have "items \<noteq> []"
    using s by (auto simp: h_Subscribe_def Subscribe_def Let_def)
  moreover have "decodes_int64 demo_um" "short_floats (\<lambda>_. ''0.1'')" "int64 7"
    by (simp_all add: decodes_int64_def demo_um_def no_fields_def short_floats_def int64_defs)
  moreover have "length items < 2 ^ 64"
    using s dw_torrents(2) by (auto simp: h_Subscribe_def Subscribe_def Let_def)
  ultimately show ?thesis
    using every_subscriber_can_be_served[OF dw_run(2) _ _ _ s] s by blast
qed

definition dw_configure :: connection_configure_request where
  "dw_configure = \<lparr>ct_url = ''http://127.0.0.1:8080'', ct_user = [], ct_password = Some ''new'', ct_stored = False,
     ct_tls = [], ct_pin = [], ct_ack = False, ct_action = ''replace''\<rparr>"

lemma dw_configured: "\<exists>res ho'. h_ConnectionConfigure (wc_env False) dw_configure dw_host = (res, ho') \<and> cf_ok res"
proof -
  have "configure_params_of dw_configure = wc_params"
    by (simp add: configure_params_of_def dw_configure_def wc_params_def)
  then show ?thesis
    using wc_ok by (auto simp: h_ConnectionConfigure_def dw_host_def wire_configure_def)
qed

theorem client_sees_switch_witness:
  "\<exists>res ho'. h_ConnectionConfigure (wc_env False) dw_configure dw_host = (res, ho') \<and> cf_ok res \<and>
     cs_epoch (h_ConnectionStatus ho') = cf_epoch res \<and> ho_logouts ho' = [wc_client]"
proof -
  obtain res ho' where c: "h_ConnectionConfigure (wc_env False) dw_configure dw_host = (res, ho')" "cf_ok res"
    using dw_configured by blast
  show ?thesis
    using client_sees_switch[OF c(1)] c by (simp add: dw_host_def wc_daemon_def)
qed

theorem switch_fabricates_last_known_witness:
  "\<exists>res ho'. h_ConnectionConfigure (wc_env False) dw_configure dw_host = (res, ho') \<and> dd_last (fst (h_Dashboard dw_host)) = None \<and>
     dd_last (fst (h_Dashboard ho')) \<noteq> None"
proof -
  obtain res ho' where c: "h_ConnectionConfigure (wc_env False) dw_configure dw_host = (res, ho')" "cf_ok res"
    using dw_configured by blast
  show ?thesis
    using switch_fabricates_last_known[OF dw_start c] c by (simp add: no_dashboard_def)
qed

definition dw_test :: ipc_request where
  "dw_test = no_request\<lparr>q_type := ''connection.test'', q_id := 3, q_url := ''http://127.0.0.1:8080'', q_user := ''admin'',
     q_stored := True\<rparr>"

theorem ipc_test_ignores_stored_password_witness:
  "\<not> td_ok (fst (h_ConnectionTest (wc_env False) dw_net (test_request dw_test) dw_host)) \<and>
   ho_world (snd (h_ConnectionTest (wc_env False) dw_net (test_request dw_test) dw_host)) = 0"
proof -
  obtain res ho' where c: "h_ConnectionTest (wc_env False) dw_net (test_request dw_test) dw_host = (res, ho')"
    by (metis surj_pair)
  have "q_stored dw_test" "q_password dw_test = []" "q_user dw_test \<noteq> []"
    by (simp_all add: dw_test_def no_request_def)
  from ipc_test_ignores_stored_password[OF this c] c show ?thesis
    by (simp add: dw_host_def)
qed

end
