(* ===== verification/Relay.thy ===== *)
theory Relay
  imports Daemon ServerLemmas MutatorLemmas
begin

text \<open>
  The way of a terminal mutation result from the mutator to the clients: the channel of the mutator
  (internal/mutate/mutator.go, \<^verbatim>\<open>publish\<close>), the forwarder of the handler (main.go, \<^verbatim>\<open>Results\<close>) and the pump of
  the server (internal/ipc/server.go, \<^verbatim>\<open>pumpResults\<close>), which subscribes again when its source drops it.
  \<open>relay_step\<close> interleaves the three goroutines with everything else that the mutator and the server do;
  the ghost fields record what was published and what was pushed since the pump subscribed.
\<close>

section \<open>The goroutines\<close>

text \<open>One turn of the forwarder: it receives from channel \<open>k\<close>, or finds it closed and drained.\<close>

definition forward_turn :: "nat \<Rightarrow> mutation_result forward \<times> 'b mutator \<Rightarrow> mutation_result forward \<times> 'b mutator" where
  "forward_turn k fm =
     (case fm of (fw, m) \<Rightarrow>
        case m_get (mt_chans m) k of
          None \<Rightarrow> (fw, m)
        | Some q \<Rightarrow>
            if fw_closed fw then (fw, m)
            else case rc_buf q of
              r # rs \<Rightarrow> forward_result k r (fw, m\<lparr>mt_chans := m_put k (q\<lparr>rc_buf := rs\<rparr>) (mt_chans m)\<rparr>)
            | [] \<Rightarrow> if rc_closed q then (fw\<lparr>fw_closed := True\<rparr>, m) else (fw, m))"

record ('b, 'd) relay =
  re_mut :: "'b mutator"
  re_src :: nat
  re_fw :: "mutation_result forward"
  re_server :: "'d server"
  re_published :: "result list"
  re_pushed :: "mutation_result list"

definition do_forward :: "('b, 'd) relay \<Rightarrow> ('b, 'd) relay" where
  "do_forward y = (let (fw, m) = forward_turn (re_src y) (re_fw y, re_mut y) in y\<lparr>re_fw := fw, re_mut := m\<rparr>)"

text \<open>One turn of the pump: a received result goes to every latched connection.\<close>

definition do_pump :: "(real \<Rightarrow> string) \<Rightarrow> ('b, 'd) relay \<Rightarrow> ('b, 'd) relay" where
  "do_pump ff y =
     (case fw_buf (re_fw y) of
        [] \<Rightarrow> y
      | r # rs \<Rightarrow> y\<lparr>re_fw := (re_fw y)\<lparr>fw_buf := rs\<rparr>, re_server := push_result ff r (re_server y),
                    re_pushed := re_pushed y @ [r]\<rparr>)"

definition do_publish :: "result \<Rightarrow> ('b, 'd) relay \<Rightarrow> ('b, 'd) relay" where
  "do_publish r y = y\<lparr>re_mut := publish_result r (re_mut y), re_published := re_published y @ [r]\<rparr>"

text \<open>The pump subscribes through the new channel \<open>k\<close>.\<close>

definition subscribe_pump :: "nat \<Rightarrow> ('b, 'd) relay \<Rightarrow> ('b, 'd) relay" where
  "subscribe_pump k y = y\<lparr>re_mut := Results k (cancelResults (re_src y) (re_mut y)), re_src := k,
     re_fw := new_forward, re_published := [], re_pushed := []\<rparr>"

definition fresh_chan :: "nat \<Rightarrow> 'b mutator \<Rightarrow> bool" where
  "fresh_chan k m \<longleftrightarrow> m_get (mt_chans m) k = None \<and> k \<notin> set (mt_subs m)"

definition relay_init :: "('b, 'd) relay \<Rightarrow> bool" where
  "relay_init y \<longleftrightarrow> (\<exists>y0 k. y = subscribe_pump k y0 \<and> server_init (re_server y0) \<and> mt_subs (re_mut y0) = [] \<and>
     fresh_chan k (re_mut y0))"

datatype relay_event = RePublish result | ReForward | RePump | ReArm nat | ReStop | ReMutator | ReSub nat | ReServer server_event

inductive relay_step :: "(real \<Rightarrow> string) \<Rightarrow> 'd services \<Rightarrow> ('b, 'd) relay \<Rightarrow> relay_event \<Rightarrow> ('b, 'd) relay \<Rightarrow> bool"
  for ff sv where
  re_publish: "relay_step ff sv y (RePublish r) (do_publish r y)"
| re_forward: "relay_step ff sv y ReForward (do_forward y)"
| re_pump: "relay_step ff sv y RePump (do_pump ff y)"
| re_arm: "fw_closed (re_fw y) \<Longrightarrow> fw_buf (re_fw y) = [] \<Longrightarrow> fresh_chan k (re_mut y) \<Longrightarrow>
    relay_step ff sv y (ReArm k) (subscribe_pump k y)"
| re_stop: "sr_closing (re_server y) \<Longrightarrow> relay_step ff sv y ReStop (y\<lparr>re_mut := cancelResults (re_src y) (re_mut y)\<rparr>)"
| re_mutator: "mt_subs m = mt_subs (re_mut y) \<Longrightarrow> mt_chans m = mt_chans (re_mut y) \<Longrightarrow>
    relay_step ff sv y ReMutator (y\<lparr>re_mut := m\<rparr>)"
| re_sub: "fresh_chan k (re_mut y) \<Longrightarrow> relay_step ff sv y (ReSub k) (y\<lparr>re_mut := Results k (re_mut y)\<rparr>)"
| re_server: "server_step ff sv (re_server y) e sr \<Longrightarrow> (\<forall>r. e \<noteq> EvResult r) \<Longrightarrow>
    relay_step ff sv y (ReServer e) (y\<lparr>re_server := sr\<rparr>)"

section \<open>Channels\<close>

definition subs_ok :: "'b mutator \<Rightarrow> bool" where
  "subs_ok m \<longleftrightarrow> distinct (mt_subs m) \<and> (\<forall>k \<in> set (mt_subs m). \<exists>q. m_get (mt_chans m) k = Some q \<and> \<not> rc_closed q)"

text \<open>What an offer to another channel leaves alone.\<close>

lemma offer_other:
  "c \<noteq> k \<Longrightarrow> m_get (mt_chans (offer_result r c m)) k = m_get (mt_chans m) k \<and>
     (k \<in> set (mt_subs (offer_result r c m)) \<longleftrightarrow> k \<in> set (mt_subs m))"
  by (auto simp: offer_result_def close_rchan_def gomap_simps split: option.splits)

lemma fold_offer_other:
  "k \<notin> set cs \<Longrightarrow> m_get (mt_chans (fold (offer_result r) cs m)) k = m_get (mt_chans m) k \<and>
     (k \<in> set (mt_subs (fold (offer_result r) cs m)) \<longleftrightarrow> k \<in> set (mt_subs m))"
  by (induction cs arbitrary: m) (simp_all add: offer_other)

lemma offer_subs_ok: "subs_ok m \<Longrightarrow> subs_ok (offer_result r c m)"
  by (auto simp: subs_ok_def offer_result_def close_rchan_def gomap_simps distinct_removeAll split: option.splits)

lemma fold_offer_subs_ok: "subs_ok m \<Longrightarrow> subs_ok (fold (offer_result r) cs m)"
  by (induction cs arbitrary: m) (simp_all add: offer_subs_ok)

lemma publish_subs_ok: "subs_ok m \<Longrightarrow> subs_ok (publish_result r m)"
  by (simp add: publish_result_def fold_offer_subs_ok)

text \<open>What publishing does to one channel.\<close>

lemma publish_chan:
  assumes "subs_ok m" "m_get (mt_chans m) k = Some q"
  shows "if k \<notin> set (mt_subs m)
    then m_get (mt_chans (publish_result r m)) k = Some q \<and> k \<notin> set (mt_subs (publish_result r m))
    else if length (rc_buf q) < rchan_cap
    then m_get (mt_chans (publish_result r m)) k = Some (q\<lparr>rc_buf := rc_buf q @ [r]\<rparr>) \<and> k \<in> set (mt_subs (publish_result r m))
    else m_get (mt_chans (publish_result r m)) k = Some (q\<lparr>rc_closed := True\<rparr>) \<and> k \<notin> set (mt_subs (publish_result r m))"
proof (cases "k \<in> set (mt_subs m)")
  case False
  then show ?thesis using fold_offer_other[OF False, of r m] assms(2) by (simp add: publish_result_def)
next
  case True
  then obtain xs ys where s: "mt_subs m = xs @ k # ys" "k \<notin> set xs" "k \<notin> set ys"
    using assms(1) by (auto simp: subs_ok_def dest!: split_list)
  define m1 where "m1 = fold (offer_result r) xs m"
  have m1: "m_get (mt_chans m1) k = Some q" "k \<in> set (mt_subs m1)"
    using fold_offer_other[OF s(2), of r m] assms(2) True by (simp_all add: m1_def)
  have p: "publish_result r m = fold (offer_result r) ys (offer_result r k m1)"
    by (simp add: publish_result_def s(1) m1_def)
  show ?thesis
    using True m1 fold_offer_other[OF s(3), of r "offer_result r k m1"]
    by (auto simp: p offer_result_def close_rchan_def gomap_simps)
qed

lemma cancel_subs_ok: "subs_ok m \<Longrightarrow> subs_ok (cancelResults c m)"
  by (auto simp: subs_ok_def cancelResults_def close_rchan_def gomap_simps distinct_removeAll split: option.splits)

lemma cancel_chan:
  "m_get (mt_chans m) k = Some q \<Longrightarrow> k \<notin> set (mt_subs (cancelResults k m)) \<and>
     (\<exists>b. m_get (mt_chans (cancelResults k m)) k = Some (q\<lparr>rc_closed := b\<rparr>))"
  by (auto simp: cancelResults_def close_rchan_def gomap_simps) (metis (full_types) rchan.surjective rchan.update_convs(2) rchan.simps old.unit.exhaust)

lemma Results_subs_ok: "subs_ok m \<Longrightarrow> fresh_chan k m \<Longrightarrow> subs_ok (Results k m)"
  by (auto simp: subs_ok_def Results_def fresh_chan_def gomap_simps)

section \<open>The invariant\<close>

text \<open>
  \<open>in_flight q fw\<close> is what the two channels hold, oldest first. As long as the channel of the pump is
  registered, what was pushed and what is under way is exactly what was published.
\<close>

definition in_flight :: "rchan \<Rightarrow> mutation_result forward \<Rightarrow> mutation_result list" where
  "in_flight q fw = fw_buf fw @ (if fw_closed fw then [] else List.map wire_result (rc_buf q))"

definition relay_inv :: "('b, 'd) relay \<Rightarrow> bool" where
  "relay_inv y \<longleftrightarrow> subs_ok (re_mut y) \<and> length (fw_buf (re_fw y)) \<le> forward_cap \<and>
     (\<exists>q. m_get (mt_chans (re_mut y)) (re_src y) = Some q \<and> length (rc_buf q) \<le> rchan_cap \<and>
        prefix (re_pushed y @ in_flight q (re_fw y)) (List.map wire_result (re_published y)) \<and>
        (re_src y \<in> set (mt_subs (re_mut y)) \<longrightarrow> \<not> fw_closed (re_fw y) \<and>
           List.map wire_result (re_published y) = re_pushed y @ in_flight q (re_fw y)))"

lemma relay_invE:
  assumes "relay_inv y"
  obtains q where "subs_ok (re_mut y)" "length (fw_buf (re_fw y)) \<le> forward_cap"
    "m_get (mt_chans (re_mut y)) (re_src y) = Some q" "length (rc_buf q) \<le> rchan_cap"
    "prefix (re_pushed y @ in_flight q (re_fw y)) (List.map wire_result (re_published y))"
    "re_src y \<in> set (mt_subs (re_mut y)) \<Longrightarrow> \<not> fw_closed (re_fw y)"
    "re_src y \<in> set (mt_subs (re_mut y)) \<Longrightarrow> List.map wire_result (re_published y) = re_pushed y @ in_flight q (re_fw y)"
  using assms unfolding relay_inv_def by blast

lemma relay_inv_subscribe:
  assumes "subs_ok (re_mut y)" "fresh_chan k (re_mut y)"
  shows "relay_inv (subscribe_pump k y)"
proof -
  have "fresh_chan k (cancelResults (re_src y) (re_mut y))"
    using assms(2) by (auto simp: fresh_chan_def cancelResults_def close_rchan_def gomap_simps split: option.splits)
  then show ?thesis
    using Results_subs_ok[OF cancel_subs_ok[OF assms(1)], of k "re_src y"]
    by (auto simp: relay_inv_def subscribe_pump_def Results_def gomap_simps in_flight_def new_forward_def)
qed

lemma relay_inv_init: "relay_init y \<Longrightarrow> relay_inv y"
  by (auto simp: relay_init_def subs_ok_def intro!: relay_inv_subscribe)

lemma relay_inv_publish:
  assumes "relay_inv y"
  shows "relay_inv (do_publish r y)"
  using assms
proof (rule relay_invE)
  fix q
  assume q: "subs_ok (re_mut y)" "length (fw_buf (re_fw y)) \<le> forward_cap"
    "m_get (mt_chans (re_mut y)) (re_src y) = Some q" "length (rc_buf q) \<le> rchan_cap"
    "prefix (re_pushed y @ in_flight q (re_fw y)) (List.map wire_result (re_published y))"
    "re_src y \<in> set (mt_subs (re_mut y)) \<Longrightarrow> \<not> fw_closed (re_fw y)"
    "re_src y \<in> set (mt_subs (re_mut y)) \<Longrightarrow> List.map wire_result (re_published y) = re_pushed y @ in_flight q (re_fw y)"
  note p = publish_chan[OF q(1,3), of r]
  have ok: "subs_ok (publish_result r (re_mut y))" by (rule publish_subs_ok[OF q(1)])
  show ?thesis
  proof (cases "re_src y \<in> set (mt_subs (re_mut y)) \<and> length (rc_buf q) < rchan_cap")
    case True
    then show ?thesis
      using p ok q(2,4,6,7) by (simp add: relay_inv_def do_publish_def in_flight_def)
  next
    case False
    then obtain b where b: "m_get (mt_chans (publish_result r (re_mut y))) (re_src y) = Some (q\<lparr>rc_closed := b\<rparr>)"
      "re_src y \<notin> set (mt_subs (publish_result r (re_mut y)))"
      using p by (cases "re_src y \<in> set (mt_subs (re_mut y))") (auto intro: that[of "rc_closed q"])
    then show ?thesis
      using ok q(2,4,5) by (auto simp: relay_inv_def do_publish_def in_flight_def prefix_def)
  qed
qed

lemma relay_inv_pump: "relay_inv y \<Longrightarrow> relay_inv (do_pump ff y)"
  by (auto simp: relay_inv_def do_pump_def in_flight_def split: list.splits)

text \<open>A turn of the forwarder: nothing to do, a result handed on, an overflow, or the end of the source.\<close>

lemma forward_cases:
  assumes "m_get (mt_chans m) k = Some q"
  obtains (idle) "forward_turn k (fw, m) = (fw, m)"
  | (moved) r rs where "\<not> fw_closed fw" "rc_buf q = r # rs" "length (fw_buf fw) < forward_cap"
      "forward_turn k (fw, m) = (fw\<lparr>fw_buf := fw_buf fw @ [wire_result r]\<rparr>,
         m\<lparr>mt_chans := m_put k (q\<lparr>rc_buf := rs\<rparr>) (mt_chans m)\<rparr>)"
  | (overflow) r rs where "\<not> fw_closed fw" "rc_buf q = r # rs"
      "forward_turn k (fw, m) = (fw\<lparr>fw_closed := True\<rparr>,
         cancelResults k (m\<lparr>mt_chans := m_put k (q\<lparr>rc_buf := rs\<rparr>) (mt_chans m)\<rparr>))"
  | (ended) "\<not> fw_closed fw" "rc_buf q = []" "rc_closed q" "forward_turn k (fw, m) = (fw\<lparr>fw_closed := True\<rparr>, m)"
proof (cases "fw_closed fw")
  case True
  then show ?thesis using assms idle by (simp add: forward_turn_def)
next
  case open_fw: False
  show ?thesis
  proof (cases "rc_buf q")
    case Nil
    then show ?thesis using assms open_fw idle ended by (cases "rc_closed q") (simp_all add: forward_turn_def)
  next
    case (Cons r rs)
    then show ?thesis
      using assms open_fw moved overflow
      by (cases "length (fw_buf fw) < forward_cap") (simp_all add: forward_turn_def forward_result_def forward_one_def Let_def)
  qed
qed

lemma subs_ok_put:
  "subs_ok m \<Longrightarrow> m_get (mt_chans m) k = Some q \<Longrightarrow> rc_closed q' = rc_closed q \<Longrightarrow>
     subs_ok (m\<lparr>mt_chans := m_put k q' (mt_chans m)\<rparr>)"
  by (auto simp: subs_ok_def gomap_simps)

lemma relay_inv_forward:
  assumes "relay_inv y"
  shows "relay_inv (do_forward y)"
  using assms
proof (rule relay_invE)
  fix q
  assume q: "subs_ok (re_mut y)" "length (fw_buf (re_fw y)) \<le> forward_cap"
    "m_get (mt_chans (re_mut y)) (re_src y) = Some q" "length (rc_buf q) \<le> rchan_cap"
    "prefix (re_pushed y @ in_flight q (re_fw y)) (List.map wire_result (re_published y))"
    "re_src y \<in> set (mt_subs (re_mut y)) \<Longrightarrow> \<not> fw_closed (re_fw y)"
    "re_src y \<in> set (mt_subs (re_mut y)) \<Longrightarrow> List.map wire_result (re_published y) = re_pushed y @ in_flight q (re_fw y)"
  from q(3) show ?thesis
  proof (cases rule: forward_cases[where fw = "re_fw y"])
    case idle
    then have "do_forward y = y" by (simp add: do_forward_def)
    then show ?thesis using assms by simp
  next
    case (moved r rs)
    have "subs_ok (re_mut y\<lparr>mt_chans := m_put (re_src y) (q\<lparr>rc_buf := rs\<rparr>) (mt_chans (re_mut y))\<rparr>)"
      by (rule subs_ok_put[OF q(1,3)]) simp
    then show ?thesis
      using moved q(2,4,5,7) by (simp add: relay_inv_def do_forward_def in_flight_def gomap_simps)
  next
    case (overflow r rs)
    let ?m = "re_mut y\<lparr>mt_chans := m_put (re_src y) (q\<lparr>rc_buf := rs\<rparr>) (mt_chans (re_mut y))\<rparr>"
    have "subs_ok (cancelResults (re_src y) ?m)"
      by (rule cancel_subs_ok, rule subs_ok_put[OF q(1,3)]) simp
    moreover have "m_get (mt_chans ?m) (re_src y) = Some (q\<lparr>rc_buf := rs\<rparr>)"
      by (simp add: gomap_simps)
    note cancel_chan[OF this]
    ultimately show ?thesis
      using overflow q(2,4,5) by (auto simp: relay_inv_def do_forward_def in_flight_def prefix_def)
  next
    case ended
    then show ?thesis
      using q by (auto simp: relay_inv_def do_forward_def in_flight_def prefix_def subs_ok_def)
  qed
qed

lemma relay_inv_step:
  assumes "relay_inv y" "relay_step ff sv y e y'"
  shows "relay_inv y'"
  using assms(2)
proof cases
  case (re_publish r)
  then show ?thesis using relay_inv_publish[OF assms(1)] by simp
next
  case re_forward
  then show ?thesis using relay_inv_forward[OF assms(1)] by simp
next
  case re_pump
  then show ?thesis using relay_inv_pump[OF assms(1)] by simp
next
  case (re_arm k)
  moreover have "subs_ok (re_mut y)" using assms(1) by (simp add: relay_inv_def)
  ultimately show ?thesis by (simp add: relay_inv_subscribe)
next
  case re_stop
  from assms(1) show ?thesis
  proof (rule relay_invE)
    fix q
    assume q: "subs_ok (re_mut y)" "length (fw_buf (re_fw y)) \<le> forward_cap"
      "m_get (mt_chans (re_mut y)) (re_src y) = Some q" "length (rc_buf q) \<le> rchan_cap"
      "prefix (re_pushed y @ in_flight q (re_fw y)) (List.map wire_result (re_published y))"
    show ?thesis
      using re_stop q cancel_subs_ok[OF q(1)] cancel_chan[OF q(3)] by (auto simp: relay_inv_def in_flight_def)
  qed
next
  case (re_mutator m)
  then show ?thesis using assms(1) by (simp add: relay_inv_def subs_ok_def)
next
  case (re_sub k)
  then show ?thesis
    using assms(1) Results_subs_ok[of "re_mut y" k]
    by (auto simp: relay_inv_def) (auto simp: Results_def fresh_chan_def gomap_simps)
next
  case (re_server e sr)
  then show ?thesis using assms(1) by (simp add: relay_inv_def)
qed

interpretation rl: transition relay_init "relay_step ff sv" relay_inv
  for ff :: "real \<Rightarrow> string" and sv :: "'d services"
  by unfold_locales (auto intro: relay_inv_init relay_inv_step)

end
