(* ===== verification/Listening.thy ===== *)
theory Listening
  imports ServerProps
begin

text \<open>
  What a listening connection keeps: through every step of the server, a connection that asked for
  result pushes stays latched or is torn down, and the frames accepted for it are only ever added to.
\<close>

section \<open>The operations on a connection\<close>

lemma grows_writer: "grows c (writer_turn ok c)"
proof (cases "io_out c")
  case (Cons f fs)
  then show ?thesis
    using grows_teardown[of "c\<lparr>io_out := fs\<rparr>"] by (simp add: writer_turn_def grows_def)
qed (simp add: writer_turn_def grows_def)

lemma grows_log: "grows c c' \<Longrightarrow> grows c (c'\<lparr>io_cancelled := io_cancelled c' @ xs\<rparr>)"
  by (auto simp: grows_def)

lemma grows_interference: "interference env \<Longrightarrow> grows c (env k c)"
  unfolding interference_def using grows_refl grows_send grows_writer by metis

lemma grows_sendBlocking: "interference env \<Longrightarrow> grows c (snd (snd (sendBlocking n env f c)))"
proof (induction n env f c rule: sendBlocking.induct)
  case (1 n env f c)
  show ?case
  proof (cases n)
    case 0
    then show ?thesis by (subst sendBlocking.simps) (simp add: grows_enqueue grows_teardown)
  next
    case (Suc m)
    then show ?thesis
      using 1 grows_trans[OF grows_interference[OF 1(2), of c m]]
      by (subst sendBlocking.simps) (auto simp: grows_enqueue)
  qed
qed

lemma grows_send_all: "interference env \<Longrightarrow> grows c (snd (send_all n env fs c))"
proof (induction n env fs c rule: send_all.induct)
  case (3 n env f fs c)
  obtain sent n1 c1 where s: "sendBlocking n env f c = (sent, n1, c1)" by (metis surj_pair)
  have "grows c c1" using grows_sendBlocking[OF 3(2), of c n f] by (simp add: s)
  moreover have "grows c1 (snd (send_all n1 env fs c1))" if sent
    using 3(1)[OF s[symmetric]] that 3(2) by simp
  ultimately show ?case using grows_trans by (cases sent) (auto simp: s)
qed simp_all

lemma grows_latch: "grows c (c\<lparr>io_cancel := x\<rparr>)" "grows c (snd (markSubscribed c))"
  by (simp_all add: grows_def markSubscribed_def)

lemma grows_subscription: "interference env \<Longrightarrow> grows c (snd (startSubscription ff n env i s items c))"
proof -
  assume e: "interference env"
  let ?fs = "snapshot_frames ff i (sortItems items)"
  obtain sent c1 where s: "send_all n env ?fs (setSubCancel s c) = (sent, c1)" by force
  have "grows (setSubCancel s c) c1" using grows_send_all[OF e, of "setSubCancel s c" n ?fs] by (simp add: s)
  then have g: "grows c c1" using grows_trans[OF grows_latch(1)[of c "Some s"]] by (simp add: setSubCancel_def)
  show ?thesis
    using g grows_trans[OF grows_log[OF g] grows_teardown] by (cases sent) (simp_all add: startSubscription_def s)
qed

lemma grows_answer: "interference env \<Longrightarrow> grows c (snd (answer_on ff n env a c))"
  using grows_trans[OF grows_latch(2) grows_subscription]
  by (cases a) (simp_all add: answer_on_def Let_def grows_send)

lemma grows_frames: "grows c (snd (send_frames fs c))"
proof (induction fs arbitrary: c)
  case (Cons f fs)
  obtain sent c1 where s: "send f c = (sent, c1)" by force
  have "grows c c1" using grows_send[of c f] by (simp add: s)
  then show ?case using Cons[of c1] grows_trans by (cases sent) (auto simp: s)
qed simp

lemma grows_pump: "grows c (snd (pump_delta ff s ev c))"
proof (cases "EncodeDeltas ff ev")
  case None
  then show ?thesis
    using grows_trans[OF grows_log[OF grows_refl[of c], of "[s]"] grows_teardown] by (simp add: pump_delta_def)
next
  case (Some frames)
  obtain sent c1 where s: "send_frames frames c = (sent, c1)" by force
  have "grows c c1" using grows_frames[of c frames] by (simp add: s)
  then show ?thesis using grows_log by (cases sent) (auto simp: pump_delta_def Some s)
qed

lemma grows_handshake: "handshake ff ok r c = (ph, c') \<Longrightarrow> grows c c'"
  by (cases ok) (auto simp: handshake_def writeFrame_def start_writer_def grows_def
      split: sum.splits read_error.splits if_splits)

section \<open>The steps of the server\<close>

text \<open>Connection \<open>k\<close> of an accepted client listens to results, or is torn down.\<close>

definition listening :: "'d server \<Rightarrow> nat \<Rightarrow> bool" where
  "listening sr k \<longleftrightarrow> k < sr_next sr \<and> (io_closed (sr_io sr k) \<or> k \<in> set (sr_mutConns sr))"

definition kept :: "'d server \<Rightarrow> 'd server \<Rightarrow> nat \<Rightarrow> bool" where
  "kept sr sr' k \<longleftrightarrow> listening sr' k \<and> grows (sr_io sr k) (sr_io sr' k)"

lemma kept_refl: "listening sr k \<Longrightarrow> kept sr sr k"
  by (simp add: kept_def)

lemma kept_listening: "kept sr sr1 k \<Longrightarrow> listening sr1 k"
  by (simp add: kept_def)

lemma kept_trans: "kept sr sr1 k \<Longrightarrow> kept sr1 sr2 k \<Longrightarrow> kept sr sr2 k"
  using grows_trans by (auto simp: kept_def)

lemma kept_on_io: "listening sr k \<Longrightarrow> (\<And>c. grows c (f c)) \<Longrightarrow> kept sr (on_io j f sr) k"
  by (auto simp: kept_def listening_def on_io_def grows_def)

lemma kept_leave: "listening sr k \<Longrightarrow> kept sr (leave j sr) k"
  by (auto simp: kept_def listening_def leave_def on_io_def grows_teardown teardown_fields)

lemma kept_then_leave: "kept sr sr1 k \<Longrightarrow> kept sr (leave j sr1) k"
  by (blast intro: kept_trans kept_leave kept_listening)

lemma kept_push: "listening sr k \<Longrightarrow> kept sr (fold (\<lambda>j. on_io j (\<lambda>c. snd (send f c))) js sr) k"
proof (induction js arbitrary: sr)
  case (Cons j js)
  have "kept sr (on_io j (\<lambda>c. snd (send f c)) sr) k" by (rule kept_on_io[OF Cons.prems grows_send])
  from kept_trans[OF this Cons.IH[OF kept_listening[OF this]]] show ?case by simp
qed (simp add: kept_refl)

text \<open>An operation that replaces the queue of one connection by a grown one, and may latch it.\<close>

lemma kept_put:
  assumes "listening sr k" "grows (sr_io sr j) c" "sr_next sr' = sr_next sr" "sr_io sr' = (sr_io sr)(j := c)"
    "set (sr_mutConns sr) \<subseteq> set (sr_mutConns sr')"
  shows "kept sr sr' k"
  using assms by (auto simp: kept_def listening_def grows_def)

lemma listening_step:
  assumes "listening sr k" "server_step ff sv sr e sr'"
  shows "kept sr sr' k"
  using assms(2)
proof cases
  case st_accept
  then show ?thesis using assms(1) by (auto simp: kept_def listening_def accept_def Let_def)
next
  case (st_first j ok r)
  obtain ph c where h: "handshake ff ok r (sr_io sr j) = (ph, c)" by force
  note put = kept_put[OF assms(1) grows_handshake[OF h]]
  have "kept sr (sr\<lparr>sr_io := (sr_io sr)(j := c), sr_phase := (sr_phase sr)(j := Ready)\<rparr>) k"
    "kept sr (sr\<lparr>sr_io := (sr_io sr)(j := c)\<rparr>) k"
    by (rule put; simp)+
  then show ?thesis
    using st_first by (cases ph) (simp_all add: first_frame_def h kept_then_leave)
next
  case (st_frame j env n r)
  show ?thesis
  proof (cases r)
    case (Inl x)
    have "kept sr (on_io j (read_failed ff x) sr) k"
      by (rule kept_on_io[OF assms(1)]) (simp add: read_failed_def grows_send)
    then show ?thesis using st_frame Inl by (simp add: next_frame_def kept_then_leave)
  next
    case (Inr q)
    obtain a d where a: "dispatch ff sv (io_subscribed (sr_io sr j)) q (sr_data sr) = (a, d)" by force
    obtain more c where c: "answer_on ff n env a (sr_io sr j) = (more, c)" by force
    define sr1 where "sr1 = (if latches sv q \<and> \<not> sr_closing sr
      then sr\<lparr>sr_mutConns := List.insert j (sr_mutConns sr)\<rparr> else sr)"
    have "grows (sr_io sr j) c" using grows_answer[OF st_frame(4), of "sr_io sr j" ff n a] by (simp add: c)
    then have "kept sr (sr1\<lparr>sr_data := d, sr_io := (sr_io sr)(j := c)\<rparr>) k"
      by (rule kept_put[OF assms(1)]) (auto simp: sr1_def)
    then show ?thesis
      using st_frame Inr by (simp add: next_frame_def a c sr1_def[symmetric] Let_def kept_then_leave)
  qed
next
  case (st_write j ok)
  then show ?thesis using kept_on_io[OF assms(1) grows_writer] by simp
next
  case (st_result r)
  then show ?thesis using kept_push[OF assms(1)] by (simp add: push_result_def)
next
  case (st_delta j s ev)
  then show ?thesis using kept_on_io[OF assms(1) grows_pump] by simp
next
  case (st_dropped j)
  then show ?thesis using kept_on_io[OF assms(1) grows_teardown] by simp
next
  case st_close
  then show ?thesis using assms(1) by (auto simp: kept_def listening_def shut_down_def grows_def)
qed

text \<open>A latched connection listens.\<close>

lemma latched_listens:
  assumes "server_inv ff sr" "k \<in> set (sr_mutConns sr)"
  shows "listening sr k"
proof -
  have "sr_phase sr k = Ready" by (rule server_inv_phase(4)[OF assms])
  then have "k \<in> set (sr_clients sr)" using server_inv_phase(3)[OF assms(1), of k] by simp
  moreover have "conn_inv (greetings ff) sr k" using assms(1) by (simp add: server_inv_def)
  ultimately show ?thesis using assms(2) by (auto simp: listening_def conn_inv_def conn_ok_def)
qed

end
