(* ===== verification/RelayProps.thy ===== *)
theory RelayProps
  imports Relay Listening
begin

text \<open>
  Properties of the relay of mutation results: nothing is lost, repeated or reordered between the
  mutator and the clients while the pump is subscribed, and what is settled reaches every client that
  listens once the forwarder and the pump have had 32 turns, whatever else happens in between.
\<close>

section \<open>Pushing to the connections\<close>

lemma fold_on_io: "sr_mutConns (fold (\<lambda>k. on_io k f) ks sr) = sr_mutConns sr"
  by (induction ks arbitrary: sr) (simp_all add: on_io_def)

lemma fold_on_io_at:
  "distinct ks \<Longrightarrow> sr_io (fold (\<lambda>k. on_io k f) ks sr) k = (if k \<in> set ks then f (sr_io sr k) else sr_io sr k)"
  by (induction ks arbitrary: sr) (auto simp: on_io_def)

lemma push_conns [simp]: "sr_mutConns (push_result ff r sr) = sr_mutConns sr"
  by (simp add: push_result_def fold_on_io)

lemma push_io:
  "distinct (sr_mutConns sr) \<Longrightarrow> k \<in> set (sr_mutConns sr) \<Longrightarrow>
     sr_io (push_result ff r sr) k = snd (send (EncodeMutationResult ff r) (sr_io sr k))"
  by (simp add: push_result_def fold_on_io_at)

lemma send_accepted:
  "io_closed (snd (send f c)) \<or> io_accepted (snd (send f c)) = io_accepted c @ [line f] \<and> \<not> io_closed c"
  by (cases rule: send_cases[of c f]) (simp_all add: enqueue_def teardown_fields)

lemma send_stays_closed: "io_closed c \<Longrightarrow> io_closed (snd (send f c))"
  by (simp add: send_closed)

text \<open>A listening connection accepts the frame, or is torn down.\<close>

lemma push_listening:
  assumes "listening sr k" "distinct (sr_mutConns sr)"
  shows "listening (push_result ff r sr) k \<and> (io_closed (sr_io (push_result ff r sr) k) \<or>
    io_accepted (sr_io (push_result ff r sr) k) = io_accepted (sr_io sr k) @ [line (EncodeMutationResult ff r)])"
proof -
  have "kept sr (push_result ff r sr) k"
    using kept_push[OF assms(1)] by (simp add: push_result_def)
  then show ?thesis
    using assms send_accepted[of "EncodeMutationResult ff r" "sr_io sr k"]
    by (auto simp: kept_def grows_def listening_def push_io)
qed

lemma conns_distinct_step:
  assumes "distinct (sr_mutConns sr)" "server_step ff sv sr e sr'"
  shows "distinct (sr_mutConns sr')"
  using assms(2)
proof cases
  case (st_frame k env n r)
  then show ?thesis
    using assms(1) by (auto simp: next_frame_def leave_def on_io_def Let_def distinct_removeAll split: sum.splits prod.splits)
next
  case (st_first k ok r)
  then show ?thesis
    using assms(1) by (auto simp: first_frame_def leave_def on_io_def distinct_removeAll split: phase.splits prod.splits)
qed (use assms(1) in \<open>auto simp: accept_def on_io_def shut_down_def Let_def\<close>)

lemma relay_conns_step:
  assumes "distinct (sr_mutConns (re_server y))" "relay_step ff sv y e y'"
  shows "distinct (sr_mutConns (re_server y'))"
  using assms(2)
proof cases
  case (re_server e sr)
  then show ?thesis using conns_distinct_step[OF assms(1)] by simp
qed (use assms(1) in \<open>auto simp: do_publish_def do_forward_def do_pump_def subscribe_pump_def Let_def split: list.splits prod.splits\<close>)

lemma init_no_conns: "relay_init y \<Longrightarrow> sr_mutConns (re_server y) = []"
  by (auto simp: relay_init_def subscribe_pump_def server_init_def) (erule ssubst, simp add: new_server_def)

interpretation rc: transition relay_init "relay_step ff sv" "\<lambda>y. distinct (sr_mutConns (re_server y))"
  for ff :: "real \<Rightarrow> string" and sv :: "'d services"
  by unfold_locales (auto simp: init_no_conns intro: relay_conns_step)

lemma relay_server_step:
  assumes "server_inv ff (re_server y)" "relay_step ff sv y e y'"
  shows "server_inv ff (re_server y')"
  using assms(2)
proof cases
  case re_pump
  have "server_inv ff (push_result ff r (re_server y))" for r
    by (rule server_inv_step[OF assms(1) st_result])
  then show ?thesis using re_pump assms(1) by (simp add: do_pump_def split: list.split)
next
  case (re_server e sr)
  then show ?thesis using server_inv_step[OF assms(1)] by simp
qed (use assms(1) in \<open>auto simp: do_publish_def do_forward_def subscribe_pump_def Let_def split: prod.splits\<close>)

interpretation rv: transition relay_init "relay_step ff sv" "\<lambda>y. server_inv ff (re_server y)"
  for ff :: "real \<Rightarrow> string" and sv :: "'d services"
  by unfold_locales (auto simp: relay_init_def subscribe_pump_def intro: server_inv_init relay_server_step)

section \<open>Runs\<close>

definition registered :: "('b, 'd) relay \<Rightarrow> bool" where
  "registered y \<longleftrightarrow> re_src y \<in> set (mt_subs (re_mut y))"

text \<open>
  Any run of the relay in which the pump's channel stays registered. \<open>rounds\<close> counts how often the
  forwarder has had a turn and then the pump, whatever other steps stand between and around them; the
  flag says that the forwarder has had its turn of the round under way.
\<close>

inductive relay_run :: "(real \<Rightarrow> string) \<Rightarrow> 'd services \<Rightarrow> ('b, 'd) relay \<Rightarrow> relay_event list \<Rightarrow> ('b, 'd) relay \<Rightarrow> bool"
  for ff sv where
  rr_here: "relay_run ff sv y [] y"
| rr_step: "relay_step ff sv y e y1 \<Longrightarrow> registered y1 \<Longrightarrow> relay_run ff sv y1 es y2 \<Longrightarrow> relay_run ff sv y (e # es) y2"

fun rounds :: "bool \<Rightarrow> relay_event list \<Rightarrow> nat" where
  "rounds w [] = 0"
| "rounds w (e # es) = (if e = ReForward then rounds True es
     else if e = RePump \<and> w then Suc (rounds False es) else rounds w es)"

text \<open>The steps of such a run, by what they do to the two channels: the forwarder moves a result, the pump
  pushes one, or both channels are left alone but for results that are newly published.\<close>

definition same_channels :: "('b, 'd) relay \<Rightarrow> ('b, 'd) relay \<Rightarrow> bool" where
  "same_channels y y' \<longleftrightarrow> re_fw y' = re_fw y \<and> re_pushed y' = re_pushed y \<and> prefix (re_published y) (re_published y')"

lemma run_turn_cases:
  assumes "relay_step ff sv y e y'" "registered y" "registered y'" "relay_inv y"
  obtains (forward) "e = ReForward" "y' = do_forward y"
  | (pump) "e = RePump" "y' = do_pump ff y"
  | (other) "e \<noteq> ReForward" "e \<noteq> RePump" "same_channels y y'" "re_server y' = re_server y"
  | (server) ev where "e = ReServer ev" "same_channels y y'" "server_step ff sv (re_server y) ev (re_server y')"
  using assms(1)
proof cases
  case (re_arm k)
  have "\<not> fw_closed (re_fw y)" using assms(2,4) by (auto simp: registered_def elim: relay_invE)
  then show ?thesis using re_arm by simp
next
  case re_stop
  then have "\<not> registered y'"
    using assms(4) cancel_chan by (auto simp: registered_def elim: relay_invE)
  then show ?thesis using assms(3) by simp
qed (auto simp: same_channels_def do_publish_def intro: that)

section \<open>Progress\<close>

text \<open>What was published in time, as the pump pushes it.\<close>

lemma registered_split:
  assumes "relay_inv y" "registered y"
  obtains q where "m_get (mt_chans (re_mut y)) (re_src y) = Some q" "\<not> fw_closed (re_fw y)" "\<not> rc_closed q"
    "length (rc_buf q) \<le> rchan_cap" "length (fw_buf (re_fw y)) \<le> forward_cap"
    "List.map wire_result (re_published y) = re_pushed y @ fw_buf (re_fw y) @ List.map wire_result (rc_buf q)"
  using assms(1)
proof (rule relay_invE)
  fix q
  assume q: "subs_ok (re_mut y)" "m_get (mt_chans (re_mut y)) (re_src y) = Some q" "length (rc_buf q) \<le> rchan_cap"
    "length (fw_buf (re_fw y)) \<le> forward_cap"
    "re_src y \<in> set (mt_subs (re_mut y)) \<Longrightarrow> \<not> fw_closed (re_fw y)"
    "re_src y \<in> set (mt_subs (re_mut y)) \<Longrightarrow> List.map wire_result (re_published y) = re_pushed y @ in_flight q (re_fw y)"
  moreover have "\<not> rc_closed q" using q(1,2) assms(2) by (auto simp: subs_ok_def registered_def)
  ultimately show thesis using assms(2) that by (auto simp: registered_def in_flight_def)
qed

text \<open>After a turn of the forwarder that keeps the channel registered, the forwarder holds something
  as long as something is still to be pushed.\<close>

lemma forward_fills:
  assumes "relay_inv y" "registered y" "registered (do_forward y)"
    and "length (re_pushed y) < length (re_published y)"
  shows "fw_buf (re_fw (do_forward y)) \<noteq> []"
proof -
  obtain q where q: "m_get (mt_chans (re_mut y)) (re_src y) = Some q" "\<not> fw_closed (re_fw y)"
    "List.map wire_result (re_published y) = re_pushed y @ fw_buf (re_fw y) @ List.map wire_result (rc_buf q)"
    by (rule registered_split[OF assms(1,2)])
  have some: "fw_buf (re_fw y) = [] \<Longrightarrow> rc_buf q \<noteq> []"
    using arg_cong[OF q(3), of length] assms(4) by auto
  show ?thesis
  proof (cases "rc_buf q")
    case Nil
    then show ?thesis
      using q(1,2) some by (auto simp: do_forward_def forward_turn_def split: if_splits)
  next
    case (Cons r rs)
    show ?thesis
    proof (cases "length (fw_buf (re_fw y)) < forward_cap")
      case True
      then show ?thesis
        using q(1,2) Cons by (simp add: do_forward_def forward_turn_def forward_result_def forward_one_def)
    next
      case False
      then show ?thesis
        using q(1,2) Cons by (auto simp: do_forward_def forward_turn_def forward_result_def forward_one_def forward_cap_def Let_def)
    qed
  qed
qed

lemma forward_frame: "re_pushed (do_forward y) = re_pushed y" "re_published (do_forward y) = re_published y"
  "re_server (do_forward y) = re_server y"
  by (simp_all add: do_forward_def split: prod.split)

lemma pump_frame: "re_published (do_pump ff y) = re_published y"
  "length (re_pushed (do_pump ff y)) = length (re_pushed y) + (if fw_buf (re_fw y) = [] then 0 else 1)"
  "registered (do_pump ff y) = registered y"
  by (simp_all add: do_pump_def registered_def split: list.split)

text \<open>Every round pushes one result, as long as one of the first \<open>n\<close> is still to be pushed.\<close>

lemma run_pushes:
  assumes "relay_run ff sv y es y'" "relay_inv y" "registered y" "n \<le> length (re_published y)"
    and "w \<Longrightarrow> length (re_pushed y) < n \<Longrightarrow> fw_buf (re_fw y) \<noteq> []"
  shows "relay_inv y' \<and> registered y' \<and> prefix (re_published y) (re_published y') \<and>
    min n (length (re_pushed y) + rounds w es) \<le> length (re_pushed y')"
  using assms
proof (induction arbitrary: w rule: relay_run.induct)
  case (rr_step y e y1 es y2)
  have inv: "relay_inv y1" by (rule relay_inv_step[OF rr_step.prems(1) rr_step.hyps(1)])
  from rr_step.hyps(1) rr_step.prems(2) rr_step.hyps(2) rr_step.prems(1) show ?case
  proof (cases rule: run_turn_cases)
    case forward
    have "length (re_pushed y1) < n \<Longrightarrow> fw_buf (re_fw y1) \<noteq> []"
      using forward_fills[OF rr_step.prems(1,2)] rr_step.hyps(2) rr_step.prems(3) forward
      by (simp add: forward_frame)
    then show ?thesis
      using rr_step.IH[OF inv rr_step.hyps(2), of True] rr_step.prems(3) forward by (simp add: forward_frame)
  next
    case pump
    show ?thesis
    proof (cases w)
      case True
      have "min n (length (re_pushed y) + 1) \<le> length (re_pushed y1)"
        using rr_step.prems(4)[OF True] pump by (cases "length (re_pushed y) < n") (auto simp: pump_frame)
      then show ?thesis
        using rr_step.IH[OF inv rr_step.hyps(2), of False] rr_step.prems(3) pump True by (auto simp: pump_frame(1))
    next
      case False
      then show ?thesis
        using rr_step.IH[OF inv rr_step.hyps(2), of False] rr_step.prems(3) pump by (auto simp: pump_frame)
    qed
  next
    case other
    then show ?thesis
      using rr_step.IH[OF inv rr_step.hyps(2), of w] rr_step.prems(3,4) prefix_length_le[of "re_published y" "re_published y1"]
      by (auto simp: same_channels_def intro: prefix_order.trans)
  next
    case (server ev)
    then show ?thesis
      using rr_step.IH[OF inv rr_step.hyps(2), of w] rr_step.prems(3,4) prefix_length_le[of "re_published y" "re_published y1"]
      by (auto simp: same_channels_def intro: prefix_order.trans)
  qed
qed auto

text \<open>So after 32 rounds all of it is pushed: the two channels hold at most 16 results each.\<close>

lemma run_settles:
  assumes "relay_run ff sv y es y'" "relay_inv y" "registered y" "32 \<le> rounds False es"
  shows "prefix (List.map wire_result (re_published y)) (re_pushed y')"
proof -
  let ?t = "List.map wire_result (re_published y)"
  obtain q :: rchan where q: "length (rc_buf q) \<le> rchan_cap" "length (fw_buf (re_fw y)) \<le> forward_cap"
    "?t = re_pushed y @ fw_buf (re_fw y) @ List.map wire_result (rc_buf q)"
    by (rule registered_split[OF assms(2,3)])
  have "length (re_published y) \<le> length (re_pushed y) + 32"
    using arg_cong[OF q(3), of length] q(1,2) by (simp add: rchan_cap_def forward_cap_def)
  with run_pushes[OF assms(1-3) le_refl, of False] assms(4)
  have r: "relay_inv y'" "registered y'" "prefix (re_published y) (re_published y')"
    "length (re_published y) \<le> length (re_pushed y')" by auto
  obtain q' :: rchan where "List.map wire_result (re_published y') = re_pushed y' @ fw_buf (re_fw y') @ List.map wire_result (rc_buf q')"
    by (rule registered_split[OF r(1,2)])
  then have p: "prefix (re_pushed y') (List.map wire_result (re_published y'))" by simp
  have "prefix ?t (List.map wire_result (re_published y'))" using r(3) by (rule map_mono_prefix)
  from prefix_length_prefix[OF this p] r(4) show ?thesis by simp
qed

section \<open>What a listening connection accepts\<close>

definition frames_of :: "(real \<Rightarrow> string) \<Rightarrow> mutation_result list \<Rightarrow> string list" where
  "frames_of ff rs = List.map (\<lambda>r. line (EncodeMutationResult ff r)) rs"

definition heard :: "(real \<Rightarrow> string) \<Rightarrow> nat \<Rightarrow> ('b, 'd) relay \<Rightarrow> ('b, 'd) relay \<Rightarrow> bool" where
  "heard ff k y y' \<longleftrightarrow> (\<exists>rs. re_pushed y' = re_pushed y @ rs \<and> (io_closed (sr_io (re_server y') k) \<or>
     (\<exists>zs. io_accepted (sr_io (re_server y') k) = io_accepted (sr_io (re_server y) k) @ zs \<and> subseq (frames_of ff rs) zs)))"

lemma heard_kept:
  assumes "re_pushed y1 = re_pushed y" "kept (re_server y) (re_server y1) k" "heard ff k y1 y2"
  shows "heard ff k y y2"
proof -
  obtain us where us: "io_accepted (sr_io (re_server y1) k) = io_accepted (sr_io (re_server y) k) @ us"
    using assms(2) by (auto simp: kept_def grows_def prefix_def)
  obtain rs where rs: "re_pushed y2 = re_pushed y1 @ rs" "io_closed (sr_io (re_server y2) k) \<or>
     (\<exists>zs. io_accepted (sr_io (re_server y2) k) = io_accepted (sr_io (re_server y1) k) @ zs \<and> subseq (frames_of ff rs) zs)"
    using assms(3) by (auto simp: heard_def)
  have "subseq (frames_of ff rs) zs \<Longrightarrow> subseq (frames_of ff rs) (us @ zs)" for zs
    by (rule subseq_drop_many)
  then show ?thesis using rs assms(1) us by (fastforce simp: heard_def)
qed

lemma heard_pump:
  assumes "fw_buf (re_fw y) = r # rs" "listening (re_server y) k" "distinct (sr_mutConns (re_server y))"
    "heard ff k (do_pump ff y) y2" "io_closed (sr_io (re_server (do_pump ff y)) k) \<Longrightarrow> io_closed (sr_io (re_server y2) k)"
  shows "heard ff k y y2"
proof -
  let ?y1 = "do_pump ff y"
  have y1: "re_pushed ?y1 = re_pushed y @ [r]" "re_server ?y1 = push_result ff r (re_server y)"
    by (simp_all add: do_pump_def assms(1))
  obtain us where us: "re_pushed y2 = re_pushed ?y1 @ us" "io_closed (sr_io (re_server y2) k) \<or>
     (\<exists>zs. io_accepted (sr_io (re_server y2) k) = io_accepted (sr_io (re_server ?y1) k) @ zs \<and> subseq (frames_of ff us) zs)"
    using assms(4) by (auto simp: heard_def)
  have "io_closed (sr_io (re_server y2) k) \<or>
     (\<exists>zs. io_accepted (sr_io (re_server y2) k) = io_accepted (sr_io (re_server y) k) @ zs \<and> subseq (frames_of ff (r # us)) zs)"
  proof (cases "io_closed (sr_io (re_server ?y1) k) \<or> io_closed (sr_io (re_server y2) k)")
    case True
    then show ?thesis using assms(5) by blast
  next
    case False
    then have "io_accepted (sr_io (re_server ?y1) k) = io_accepted (sr_io (re_server y) k) @ [line (EncodeMutationResult ff r)]"
      using push_listening[OF assms(2,3), of ff r] by (simp add: y1(2))
    moreover obtain zs where "io_accepted (sr_io (re_server y2) k) = io_accepted (sr_io (re_server ?y1) k) @ zs"
      "subseq (frames_of ff us) zs"
      using us(2) False by blast
    ultimately show ?thesis
      by (intro disjI2 exI[of _ "line (EncodeMutationResult ff r) # zs"]) (simp add: frames_of_def)
  qed
  then show ?thesis using us(1) y1(1) by (auto simp: heard_def)
qed

text \<open>Over a whole run, the listening connection has accepted a frame for every result pushed, in order.\<close>

lemma run_heard:
  assumes "relay_run ff sv y es y'" "relay_inv y" "registered y" "distinct (sr_mutConns (re_server y))"
    "listening (re_server y) k"
  shows "heard ff k y y' \<and> (io_closed (sr_io (re_server y) k) \<longrightarrow> io_closed (sr_io (re_server y') k))"
  using assms
proof (induction rule: relay_run.induct)
  case (rr_here y)
  then show ?case by (auto simp: heard_def frames_of_def)
next
  case (rr_step y e y1 es y2)
  have inv: "relay_inv y1" by (rule relay_inv_step[OF rr_step.prems(1) rr_step.hyps(1)])
  have dist: "distinct (sr_mutConns (re_server y1))" by (rule relay_conns_step[OF rr_step.prems(3) rr_step.hyps(1)])
  note IH = rr_step.IH[OF inv rr_step.hyps(2) dist]
  have quiet: ?case if "re_pushed y1 = re_pushed y" "kept (re_server y) (re_server y1) k"
    using that IH[OF kept_listening[OF that(2)]] heard_kept[OF that] by (auto simp: kept_def grows_def)
  from rr_step.hyps(1) rr_step.prems(2) rr_step.hyps(2) rr_step.prems(1) show ?case
  proof (cases rule: run_turn_cases)
    case forward
    then show ?thesis using rr_step.prems(4) by (intro quiet) (simp_all add: forward_frame kept_refl)
  next
    case pump
    show ?thesis
    proof (cases "fw_buf (re_fw y)")
      case Nil
      then show ?thesis using pump rr_step.prems(4) by (intro quiet) (simp_all add: do_pump_def kept_refl)
    next
      case (Cons r rs)
      have y1: "re_server y1 = push_result ff r (re_server y)" by (simp add: pump do_pump_def Cons)
      have k: "kept (re_server y) (re_server y1) k"
        using kept_push[OF rr_step.prems(4)] by (simp add: y1 push_result_def)
      show ?thesis
        using IH[OF kept_listening[OF k]] heard_pump[OF Cons rr_step.prems(4,3), of ff y2] k pump
        by (auto simp: kept_def grows_def)
    qed
  next
    case other
    then show ?thesis using rr_step.prems(4) by (intro quiet) (simp_all add: same_channels_def kept_refl)
  next
    case (server ev)
    then show ?thesis using listening_step[OF rr_step.prems(4)] by (intro quiet) (simp_all add: same_channels_def)
  qed
qed

lemma subseq_mem: "x \<in> set xs \<Longrightarrow> subseq xs ys \<Longrightarrow> x \<in> set ys"
  using set_nths_subset by (metis subseq_conv_nths subsetD)

section \<open>A reconciliation on the relay\<close>

text \<open>\<^verbatim>\<open>reconcile\<close>: the locked part, then the results are published one by one.\<close>

definition do_reconcile :: "state \<Rightarrow> nat \<Rightarrow> ('b, 'd) relay \<Rightarrow> ('b, 'd) relay" where
  "do_reconcile st now y =
     (case reconcile_locked st now (re_mut y) of (fin, m) \<Rightarrow> fold do_publish fin (y\<lparr>re_mut := m\<rparr>))"

definition chan_of :: "('b, 'd) relay \<Rightarrow> rchan option" where
  "chan_of y = m_get (mt_chans (re_mut y)) (re_src y)"

lemma publish_all:
  assumes "relay_inv y"
  shows "relay_inv (fold do_publish rs y) \<and> re_published (fold do_publish rs y) = re_published y @ rs \<and>
    re_pushed (fold do_publish rs y) = re_pushed y \<and> re_server (fold do_publish rs y) = re_server y"
  using assms
proof (induction rs arbitrary: y)
  case (Cons r rs)
  then show ?case using Cons.IH[OF relay_inv_publish[OF Cons.prems]] by (simp add: do_publish_def)
qed simp

text \<open>A channel with room for all of them stays registered.\<close>

lemma publish_room:
  assumes "relay_inv y" "registered y" "chan_of y = Some q" "length (rc_buf q) + length rs \<le> rchan_cap"
  shows "registered (fold do_publish rs y)"
  using assms
proof (induction rs arbitrary: y q)
  case (Cons r rs)
  have ok: "subs_ok (re_mut y)" using Cons.prems(1) by (simp add: relay_inv_def)
  have "length (rc_buf q) < rchan_cap" using Cons.prems(4) by simp
  then have p: "chan_of (do_publish r y) = Some (q\<lparr>rc_buf := rc_buf q @ [r]\<rparr>)" "registered (do_publish r y)"
    using publish_chan[OF ok, of "re_src y" q r] Cons.prems(2,3)
    by (simp_all add: registered_def chan_of_def do_publish_def)
  show ?case
    using Cons.IH[OF relay_inv_publish[OF Cons.prems(1)] p(2,1)] Cons.prems(4) by (simp add: do_publish_def)
qed simp

lemma settled_length: "length (settled st now epoch ps) \<le> length ps"
  by (induction ps) (auto simp: settled_simps split: option.splits)

text \<open>What the locked part of a reconciliation settles is published, in order; nothing is pushed yet.\<close>

lemma reconcile_on_relay:
  assumes "relay_inv y" "mut_wf (re_mut y)"
  shows "relay_inv (do_reconcile st now y) \<and>
    re_published (do_reconcile st now y) = re_published y @
      List.map (\<lambda>(ref, p, s). result_of p s) (settled st now (mt_epoch (re_mut y)) (mt_inflight (re_mut y))) \<and>
    re_pushed (do_reconcile st now y) = re_pushed y \<and> re_server (do_reconcile st now y) = re_server y"
proof -
  obtain rs m where r: "reconcile_locked st now (re_mut y) = (rs, m)" by force
  note spec = reconcile_locked_spec[OF assms(2) r]
  have "relay_inv (y\<lparr>re_mut := m\<rparr>)"
    using assms(1) by (simp add: relay_inv_def subs_ok_def spec(2))
  then show ?thesis
    using publish_all[of "y\<lparr>re_mut := m\<rparr>" rs] spec(1) by (simp add: do_reconcile_def r)
qed

text \<open>The pump's channel survives a reconciliation if it has room for everything in flight.\<close>

lemma reconcile_keeps_registered:
  assumes "relay_inv y" "registered y" "chan_of y = Some q" "mut_wf (re_mut y)"
    and "length (rc_buf q) + m_len (mt_inflight (re_mut y)) \<le> rchan_cap"
  shows "registered (do_reconcile st now y)"
proof -
  obtain rs m where r: "reconcile_locked st now (re_mut y) = (rs, m)" by force
  note spec = reconcile_locked_spec[OF assms(4) r]
  have "mt_subs m = mt_subs (re_mut y)" "mt_chans m = mt_chans (re_mut y)"
    by (simp_all add: spec(2))
  then have "relay_inv (y\<lparr>re_mut := m\<rparr>)" "registered (y\<lparr>re_mut := m\<rparr>)" "chan_of (y\<lparr>re_mut := m\<rparr>) = Some q"
    using assms(1-3) by (simp_all add: relay_inv_def subs_ok_def registered_def chan_of_def)
  moreover have "length rs \<le> m_len (mt_inflight (re_mut y))"
    by (simp add: spec(1) settled_length m_len_def)
  ultimately show ?thesis
    using publish_room[of "y\<lparr>re_mut := m\<rparr>" q rs] assms(5) by (simp add: do_reconcile_def r)
qed

section \<open>Properties\<close>

text \<open>
  C6. Under every interleaving of the mutator, the forwarder, the pump and the connections, what the pump
  has pushed since it subscribed is a prefix of what the mutator has published since then: no result is
  lost in between, repeated or overtaken. As long as the mutator has not dropped the pump's channel,
  the rest is what the two bounded channels hold.
\<close>

theorem results_pushed_in_order:
  assumes "reachable relay_init (relay_step ff sv) y"
  shows "prefix (re_pushed y) (List.map wire_result (re_published y)) \<and> length (fw_buf (re_fw y)) \<le> 16 \<and>
    (registered y \<longrightarrow> (\<exists>q. m_get (mt_chans (re_mut y)) (re_src y) = Some q \<and> length (rc_buf q) \<le> 16 \<and>
       List.map wire_result (re_published y) = re_pushed y @ fw_buf (re_fw y) @ List.map wire_result (rc_buf q)))"
  using rl.reachable_inv[OF assms]
proof (rule relay_invE)
  fix q
  assume q: "m_get (mt_chans (re_mut y)) (re_src y) = Some q" "length (rc_buf q) \<le> rchan_cap"
    "length (fw_buf (re_fw y)) \<le> forward_cap"
    "prefix (re_pushed y @ in_flight q (re_fw y)) (List.map wire_result (re_published y))"
    "re_src y \<in> set (mt_subs (re_mut y)) \<Longrightarrow> \<not> fw_closed (re_fw y)"
    "re_src y \<in> set (mt_subs (re_mut y)) \<Longrightarrow> List.map wire_result (re_published y) = re_pushed y @ in_flight q (re_fw y)"
  then show ?thesis
    by (auto simp: registered_def in_flight_def rchan_cap_def forward_cap_def dest: append_prefixD)
qed

lemma reachable_listens:
  assumes "reachable relay_init (relay_step ff sv) y" "k \<in> set (sr_mutConns (re_server y))"
  shows "listening (re_server y) k"
  by (rule latched_listens[OF rv.reachable_inv[OF assms(1)] assms(2)])

text \<open>
  What is published reaches the clients: take any run of the relay, with any other steps of the mutator,
  the server and its clients, in which the pump's channel stays registered. After 32 rounds of the
  forwarder and the pump everything that had been published when the run began has been pushed, and every
  connection that had asked for results has accepted the frame of each result pushed in the run, in
  order, or has been torn down.
\<close>

theorem settled_results_reach_clients:
  assumes "reachable relay_init (relay_step ff sv) y" "registered y" "relay_run ff sv y es y'" "32 \<le> rounds False es"
    and "k \<in> set (sr_mutConns (re_server y))"
  shows "prefix (List.map wire_result (re_published y)) (re_pushed y') \<and>
    (\<exists>rs. re_pushed y' = re_pushed y @ rs \<and> (io_closed (sr_io (re_server y') k) \<or>
       (\<exists>zs. io_accepted (sr_io (re_server y') k) = io_accepted (sr_io (re_server y) k) @ zs \<and>
          subseq (List.map (\<lambda>r. line (EncodeMutationResult ff r)) rs) zs)))"
  using run_settles[OF assms(3) rl.reachable_inv[OF assms(1)] assms(2,4)]
    run_heard[OF assms(3) rl.reachable_inv[OF assms(1)] assms(2) rc.reachable_inv[OF assms(1)] reachable_listens[OF assms(1,5)]]
  by (auto simp: heard_def frames_of_def)

text \<open>
  C7. Every mutation is answered. Take any reachable state with a well-formed mutator, the first
  reconciliation past the deadline of a mutation in flight, whatever the state of the backend, and any run
  of the program after it in which the pump's channel stays registered (through the reconciliation it does if
  it has room for what is in flight, by \<open>reconcile_keeps_registered\<close>; while the pump waits to subscribe
  again, it does not). Once the forwarder and the pump have had 32 rounds of turns, whatever other steps
  stood in between, the mutation's result, confirmed or timed out, has been pushed, and every
  connection that listened at the start has accepted its frame or is torn down.
\<close>

theorem every_mutation_is_answered:
  assumes "reachable relay_init (relay_step ff sv) y" "mut_wf (re_mut y)"
    and "m_get (mt_inflight (re_mut y)) ref = Some p" "pe_deadline p < now"
    and "registered (do_reconcile st now y)" "relay_run ff sv (do_reconcile st now y) es y'" "32 \<le> rounds False es"
    and "k \<in> set (sr_mutConns (re_server y))"
  shows "\<exists>s. s \<in> {StatusConfirmed, StatusTimeout} \<and> wire_result (result_of p s) \<in> set (re_pushed y') \<and>
    (io_closed (sr_io (re_server y') k) \<or>
     line (EncodeMutationResult ff (wire_result (result_of p s))) \<in> set (io_accepted (sr_io (re_server y') k)))"
proof -
  have inv: "relay_inv y" by (rule rl.reachable_inv[OF assms(1)])
  let ?m = "re_mut y" and ?z = "do_reconcile st now y"
  let ?fin = "List.map (\<lambda>(ref, p, s). result_of p s) (settled st now (mt_epoch ?m) (mt_inflight ?m))"
  have "settle st now (mt_epoch ?m) p \<noteq> None"
    using assms(4) by (simp add: settle_def split: option.split)
  then obtain s where "settle st now (mt_epoch ?m) p = Some s" by blast
  moreover from this have "s \<in> {StatusConfirmed, StatusTimeout}"
    by (auto simp: settle_def checkIntent_def split: option.splits action.splits if_splits)
  ultimately have s: "settle st now (mt_epoch ?m) p = Some s" "s \<in> {StatusConfirmed, StatusTimeout}" by blast+
  have "(ref, p) \<in> set (mt_inflight ?m)"
    using assms(3) mut_wfD(1)[OF assms(2)] by (simp add: m_get_mem)
  then have "(ref, p, s) \<in> set (settled st now (mt_epoch ?m) (mt_inflight ?m))"
    using s(1) by (simp add: settled_mem)
  then have mem: "result_of p s \<in> set ?fin"
    by (auto simp: image_iff intro!: bexI[of _ "(ref, p, s)"])
  have z: "relay_inv ?z" "re_published ?z = re_published y @ ?fin" "re_pushed ?z = re_pushed y" "re_server ?z = re_server y"
    using reconcile_on_relay[OF inv assms(2)] by simp_all
  have all: "prefix (List.map wire_result (re_published y @ ?fin)) (re_pushed y')"
    using run_settles[OF assms(6) z(1) assms(5,7)] z(2) by simp
  have "heard ff k ?z y'"
    using run_heard[OF assms(6) z(1) assms(5), of k] z(4) rc.reachable_inv[OF assms(1)] reachable_listens[OF assms(1,8)]
    by simp
  then obtain rs where rs: "re_pushed y' = re_pushed y @ rs" "io_closed (sr_io (re_server y') k) \<or>
     (\<exists>zs. io_accepted (sr_io (re_server y') k) = io_accepted (sr_io (re_server y) k) @ zs \<and> subseq (frames_of ff rs) zs)"
    unfolding heard_def z(3,4) by blast
  obtain q' where "prefix (re_pushed y @ in_flight q' (re_fw y)) (List.map wire_result (re_published y))"
    using inv by (rule relay_invE)
  then obtain us where "List.map wire_result (re_published y) = re_pushed y @ us"
    by (auto simp: prefix_def)
  then have "prefix (us @ List.map wire_result ?fin) rs" using all rs(1) by simp
  moreover have "wire_result (result_of p s) \<in> set (List.map wire_result ?fin)"
    by (subst set_map) (rule imageI[OF mem])
  ultimately have w: "wire_result (result_of p s) \<in> set rs" using set_mono_prefix by fastforce
  have f: "line (EncodeMutationResult ff (wire_result (result_of p s))) \<in> set (frames_of ff rs)"
    unfolding frames_of_def by (subst set_map) (rule imageI[OF w])
  show ?thesis
  proof (intro exI[of _ s] conjI s(2))
    show "wire_result (result_of p s) \<in> set (re_pushed y')"
      using w by (simp only: rs(1) set_append Un_iff simp_thms)
    show "io_closed (sr_io (re_server y') k) \<or>
        line (EncodeMutationResult ff (wire_result (result_of p s))) \<in> set (io_accepted (sr_io (re_server y') k))"
      using rs(2)
    proof
      assume "\<exists>zs. io_accepted (sr_io (re_server y') k) = io_accepted (sr_io (re_server y) k) @ zs \<and> subseq (frames_of ff rs) zs"
      then obtain zs where "io_accepted (sr_io (re_server y') k) = io_accepted (sr_io (re_server y) k) @ zs"
        "subseq (frames_of ff rs) zs" by blast
      then show ?thesis using f by (metis Un_iff set_append subseq_mem)
    qed simp
  qed
qed

section \<open>Witnesses\<close>

text \<open>A client that said hello and sent a mutation, which was busy; then a result is published.\<close>

definition busy_services :: "unit services" where
  "busy_services = idle\<lparr>se_submit := Some (\<lambda>_ d. (\<lparr>m1_outcome = ''busy'', m1_mutation = 0, m1_action = [], m1_hash = [],
     m1_replay = None\<rparr>, d))\<rparr>"

definition some_mutation :: ipc_request where
  "some_mutation = no_request\<lparr>q_type := ''torrent.pause'', q_id := 4\<rparr>"

definition latched :: "unit server" where
  "latched = next_frame plain_floats busy_services 0 (\<lambda>_ c. c) 0 (Inr some_mutation) greeted"

definition wr_start :: "(unit, unit) relay" where
  "wr_start = subscribe_pump 0 \<lparr>re_mut = new_mutator () \<lparr>mo_submit = 0, mo_window = 0, mo_max = 0, mo_ring = 0\<rparr>, re_src = 0,
     re_fw = new_forward, re_server = new_server (), re_published = [], re_pushed = []\<rparr>"

definition wr_result :: result where
  "wr_result = \<lparr>rs_mutation = 1, rs_action = Pause, rs_hash = [], rs_status = StatusConfirmed\<rparr>"

definition wr_published :: "(unit, unit) relay" where
  "wr_published = do_publish wr_result (wr_start\<lparr>re_server := latched\<rparr>)"

abbreviation wr_reachable :: "(unit, unit) relay \<Rightarrow> bool" where
  "wr_reachable \<equiv> reachable relay_init (relay_step plain_floats busy_services)"

lemma wr_server: "wr_reachable y \<Longrightarrow> server_step plain_floats busy_services (re_server y) e sr \<Longrightarrow> \<forall>r. e \<noteq> EvResult r \<Longrightarrow>
    wr_reachable (y\<lparr>re_server := sr\<rparr>)"
  by (erule reach_step) (rule re_server)

lemma wr_init: "wr_reachable wr_start"
  by (rule reach_init) (auto simp: relay_init_def wr_start_def server_init_def new_mutator_def fresh_chan_def gomap_simps intro!: exI)

lemma wr_latched: "wr_reachable (wr_start\<lparr>re_server := latched\<rparr>)"
proof -
  have start: "re_server wr_start = new_server ()" by (simp add: wr_start_def subscribe_pump_def)
  have "wr_reachable (wr_start\<lparr>re_server := accept (new_server ())\<rparr>)"
    by (rule wr_server[OF wr_init, where e = EvAccept]) (simp_all add: start st_accept)
  then have "wr_reachable (wr_start\<lparr>re_server := accept (new_server ()), re_server := greeted\<rparr>)"
    by (rule wr_server[where e = "EvFirst 0"]) (simp_all add: greeted_def st_first accepted_state)
  then have "wr_reachable (wr_start\<lparr>re_server := greeted\<rparr>)" by simp
  then have "wr_reachable (wr_start\<lparr>re_server := greeted, re_server := latched\<rparr>)"
    by (rule wr_server[where e = "EvFrame 0"]) (simp_all add: latched_def st_frame greeted_fields interference_def)
  then show ?thesis by simp
qed

lemma wr_run: "wr_reachable wr_published"
  unfolding wr_published_def by (rule reach_step[OF wr_latched re_publish])

lemma wr_fields: "registered wr_published" "re_published wr_published = [wr_result]" "re_pushed wr_published = []"
  "0 \<in> set (sr_mutConns (re_server wr_published))"
proof -
  show "registered wr_published" "re_published wr_published = [wr_result]" "re_pushed wr_published = []"
    by (simp_all add: wr_published_def do_publish_def wr_start_def subscribe_pump_def registered_def Results_def cancelResults_def
        new_mutator_def publish_result_def offer_result_def rchan_cap_def gomap_simps)
  have "sr_mutConns greeted = []"
    unfolding greeted_def accepted_state
    by (simp add: first_frame_def handshake_def hello_request_def no_request_def
        ProtocolVersion_def writeFrame_def new_server_def newConnIO_def)
  then have "sr_mutConns latched = [0]"
    by (simp add: latched_def next_frame_def some_mutation_def no_request_def latches_def dispatch_def busy_services_def
        answer_on_def send_def Let_def greeted_fields alive_def start_writer_def newConnIO_def outQueue_def enqueue_def List.insert_def)
  then show "0 \<in> set (sr_mutConns (re_server wr_published))"
    by (simp add: wr_published_def do_publish_def)
qed

theorem results_pushed_in_order_witness:
  "\<exists>q. m_get (mt_chans (re_mut wr_published)) (re_src wr_published) = Some q \<and>
     [wire_result wr_result] = fw_buf (re_fw wr_published) @ List.map wire_result (rc_buf q)"
  using results_pushed_in_order[OF wr_run] by (auto simp: wr_fields)

text \<open>The plain schedule, in which pump and forwarder take turns: it never loses the registration.\<close>

lemma pump_then_forward:
  assumes "relay_inv y" "registered y"
  shows "relay_inv (do_forward (do_pump ff y)) \<and> registered (do_forward (do_pump ff y))"
proof -
  let ?y = "do_pump ff y"
  have inv: "relay_inv ?y" "registered ?y" using relay_inv_pump[OF assms(1)] assms(2) by (simp_all add: pump_frame)
  obtain q where q: "m_get (mt_chans (re_mut ?y)) (re_src ?y) = Some q" "\<not> fw_closed (re_fw ?y)" "\<not> rc_closed q"
    by (rule registered_split[OF inv])
  have "length (fw_buf (re_fw y)) \<le> forward_cap" using assms(1) by (rule relay_invE)
  then have "length (fw_buf (re_fw ?y)) < forward_cap"
    by (auto simp: do_pump_def forward_cap_def split: list.splits)
  then have "registered (do_forward ?y)"
    using q inv(2) by (auto simp: do_forward_def forward_turn_def forward_result_def forward_one_def registered_def Let_def
        split: list.splits)
  then show ?thesis using relay_inv_forward[OF inv(1)] by blast
qed

definition taking_turns :: "nat \<Rightarrow> relay_event list" where
  "taking_turns n = concat (replicate n [RePump, ReForward])"

lemma turns_run:
  assumes "relay_inv y" "registered y"
  shows "\<exists>y'. relay_run ff sv y (taking_turns n) y'"
  using assms
proof (induction n arbitrary: y)
  case 0
  then show ?case by (auto simp: taking_turns_def intro: rr_here)
next
  case (Suc n)
  note r = pump_then_forward[OF Suc.prems, of ff]
  obtain y' where y': "relay_run ff sv (do_forward (do_pump ff y)) (taking_turns n) y'" using Suc.IH r by blast
  have "relay_run ff sv y (RePump # ReForward # taking_turns n) y'"
    using Suc.prems(2) r y' by (intro rr_step[OF re_pump _ rr_step[OF re_forward]]) (simp_all add: pump_frame)
  then show ?case by (auto simp: taking_turns_def)
qed

lemma turns_rounds: "rounds True (taking_turns n) = n"
  by (induction n) (simp_all add: taking_turns_def)

lemma turns_enough: "32 \<le> rounds False (taking_turns 33)"
proof -
  have "taking_turns 33 = RePump # ReForward # taking_turns 32"
    by (simp add: taking_turns_def numeral_eq_Suc)
  then show ?thesis by (simp add: turns_rounds)
qed

theorem settled_results_reach_clients_witness:
  "\<exists>y'. relay_run plain_floats busy_services wr_published (taking_turns 33) y' \<and> prefix [wire_result wr_result] (re_pushed y')"
proof -
  obtain y' where y': "relay_run plain_floats busy_services wr_published (taking_turns 33) y'"
    using turns_run[OF rl.reachable_inv[OF wr_run] wr_fields(1)] by blast
  from settled_results_reach_clients[OF wr_run wr_fields(1) this turns_enough wr_fields(4)] y' show ?thesis
    by (auto simp: wr_fields)
qed

definition wr_pending :: pending where
  "wr_pending = \<lparr>pe_mutation = 1, pe_action = Pause, pe_hash = replicate 40 (CHR ''a''), pe_url = [], pe_delete = False, pe_deadline = 10, pe_epoch = 0\<rparr>"

definition wr_waiting :: "(unit, unit) relay" where
  "wr_waiting = (wr_start\<lparr>re_server := latched\<rparr>)
     \<lparr>re_mut := (re_mut wr_start)\<lparr>mt_inflight := [(''r'', wr_pending)], mt_next := 1\<rparr>\<rparr>"

lemma wr_waiting_run: "wr_reachable wr_waiting"
proof -
  have "wr_reachable (wr_start\<lparr>re_server := latched\<rparr>)" using wr_latched .
  then show ?thesis
    unfolding wr_waiting_def by (rule reach_step) (rule re_mutator; simp)
qed

lemma wr_waiting_fields:
  "registered wr_waiting" "chan_of wr_waiting = Some \<lparr>rc_buf = [], rc_closed = False\<rparr>" "mut_wf (re_mut wr_waiting)"
  "mt_inflight (re_mut wr_waiting) = [(''r'', wr_pending)]" "0 \<in> set (sr_mutConns (re_server wr_waiting))"
proof -
  show "registered wr_waiting" "chan_of wr_waiting = Some \<lparr>rc_buf = [], rc_closed = False\<rparr>"
    "mt_inflight (re_mut wr_waiting) = [(''r'', wr_pending)]"
    by (simp_all add: wr_waiting_def wr_start_def subscribe_pump_def registered_def chan_of_def Results_def cancelResults_def
        new_mutator_def gomap_simps)
  show "mut_wf (re_mut wr_waiting)"
    by (simp add: wr_waiting_def wr_start_def subscribe_pump_def Results_def cancelResults_def new_mutator_def mut_wf_def
        mut_ids_ok_def fill_mut_options_def m_ok_Cons m_ok_Nil m_get_Cons m_get_Nil m_len_def wr_pending_def)
  show "0 \<in> set (sr_mutConns (re_server wr_waiting))"
    using wr_fields(4) by (simp add: wr_waiting_def wr_published_def do_publish_def)
qed

theorem every_mutation_is_answered_witness:
  "\<exists>y' s. relay_run plain_floats busy_services (do_reconcile (zero_state\<lparr>st_ok := False\<rparr>) 11 wr_waiting) (taking_turns 33) y' \<and>
     wire_result (result_of wr_pending s) \<in> set (re_pushed y')"
proof -
  let ?z = "do_reconcile (zero_state\<lparr>st_ok := False\<rparr>) 11 wr_waiting"
  have inv: "relay_inv wr_waiting" by (rule rl.reachable_inv[OF wr_waiting_run])
  have reg: "registered ?z"
    by (rule reconcile_keeps_registered[OF inv wr_waiting_fields(1,2,3)])
      (simp add: wr_waiting_fields(4) m_len_def rchan_cap_def)
  have "relay_inv ?z" using reconcile_on_relay[OF inv wr_waiting_fields(3)] by blast
  then obtain y' where y': "relay_run plain_floats busy_services ?z (taking_turns 33) y'"
    using turns_run reg by blast
  from every_mutation_is_answered[OF wr_waiting_run wr_waiting_fields(3) _ _ reg this turns_enough wr_waiting_fields(5), of "''r''" wr_pending]
  show ?thesis using y' by (auto simp: wr_waiting_fields(4) m_get_Cons wr_pending_def)
qed

end
