(* ===== verification/SyncRun.thy ===== *)
theory SyncRun
  imports SyncProps
begin

text \<open>
  The loop of \<^verbatim>\<open>Syncer.Run\<close> (internal/state/syncer.go): after each cycle the delay to the next one is
  updated from the outcome. A kick only cuts a wait short, so a run is the list of its cycles; what is
  collected are the backend calls and the delays. The properties are the ban frugality of the daemon in
  calls and in time, and the bounds of the delay under every outcome.
\<close>

section \<open>The loop\<close>

definition run_once :: "sync_options \<Rightarrow> ('raw \<Rightarrow> partial_torrent option) \<Rightarrow> 'raw answers \<Rightarrow> 'b syncer \<times> int \<Rightarrow>
    ('b syncer \<times> int) \<times> bcall list" where
  "run_once opts um an sb =
     (case sb of (s, backoff) \<Rightarrow>
        let (ok, s1, calls) = cycle um an s in ((s1, next_backoff opts ok (s_class s1) backoff), calls))"

fun run_loop :: "sync_options \<Rightarrow> ('raw \<Rightarrow> partial_torrent option) \<Rightarrow> 'raw answers list \<Rightarrow> 'b syncer \<times> int \<Rightarrow>
    ('b syncer \<times> int) \<times> bcall list \<times> int list" where
  "run_loop opts um [] sb = (sb, [], [])"
| "run_loop opts um (an # ans) sb =
     (let (sb1, calls) = run_once opts um an sb; (sb2, more, delays) = run_loop opts um ans sb1
      in (sb2, calls @ more, snd sb1 # delays))"

text \<open>\<^verbatim>\<open>New\<close> and the start of \<^verbatim>\<open>Run\<close> with no options set, as the daemon does it.\<close>

definition default_options :: sync_options where
  "default_options = fill_sync_options \<lparr>o_interval = 0, o_maxBackoff = 0, o_fetchBg = 0\<rparr>"

definition run_start :: "'b \<Rightarrow> 'b syncer \<times> int" where
  "run_start b = (new_syncer b, o_interval default_options)"

section \<open>Delays\<close>

lemma default_values: "o_interval default_options = 2000000000" "o_maxBackoff default_options = 30000000000"
  by (simp_all add: default_options_def fill_sync_options_def)

definition delay_ok :: "int \<Rightarrow> bool" where
  "delay_ok b \<longleftrightarrow> 2000000000 \<le> b \<and> b \<le> 600000000000"

lemma delay_doubles: "delay_ok b \<Longrightarrow> wrap64 (b * 2) = b * 2"
  by (intro wrap64_id) (simp add: delay_ok_def int64_defs)

lemma delay_next: "delay_ok b \<Longrightarrow> delay_ok (next_backoff default_options ok class b)"
  using delay_doubles[of b] by (auto simp: next_backoff_def default_values Let_def delay_ok_def)

lemma delays_ok:
  "delay_ok (snd sb) \<Longrightarrow> run_loop default_options um ans sb = (sb', calls, delays) \<Longrightarrow> list_all delay_ok delays"
proof (induction ans arbitrary: sb sb' calls delays)
  case (Cons an ans)
  obtain ok s1 c where c: "cycle um an (fst sb) = (ok, s1, c)" by (metis surj_pair)
  define sb1 where "sb1 = (s1, next_backoff default_options ok (s_class s1) (snd sb))"
  have o: "run_once default_options um an sb = (sb1, c)"
    by (simp add: run_once_def sb1_def c split_beta)
  obtain sb2 more ds where r: "run_loop default_options um ans sb1 = (sb2, more, ds)" by (metis surj_pair)
  have "delay_ok (snd sb1)" by (simp add: sb1_def delay_next Cons.prems(1))
  with Cons.IH[OF this r] show ?case
    using Cons.prems(2) o r by auto
qed simp

text \<open>The ladder of delays while logins are rejected.\<close>

definition auth_delay :: "nat \<Rightarrow> int" where
  "auth_delay k = min 600000000000 (30000000000 * 2 ^ k)"

definition delay_before :: "nat \<Rightarrow> int" where
  "delay_before k = (case k of 0 \<Rightarrow> 2000000000 | Suc j \<Rightarrow> auth_delay j)"

lemma auth_delay_ok: "30000000000 \<le> auth_delay k" "delay_ok (auth_delay k)"
proof -
  have "(1 :: int) \<le> 2 ^ k" by simp
  then show "30000000000 \<le> auth_delay k"
    unfolding auth_delay_def by linarith
  then show "delay_ok (auth_delay k)"
    unfolding delay_ok_def auth_delay_def by linarith
qed

lemma auth_ladder: "next_backoff default_options False ''auth'' (delay_before k) = auth_delay k"
proof (cases k)
  case 0
  then show ?thesis by (simp add: next_backoff_def delay_before_def auth_delay_def)
next
  case (Suc j)
  have "\<not> auth_delay j < 30000000000" using auth_delay_ok(1)[of j] by simp
  then show ?thesis
    using delay_doubles[OF auth_delay_ok(2)[of j]]
    by (simp add: next_backoff_def Suc delay_before_def Let_def) (simp add: auth_delay_def min_def)
qed

lemma rejected_class:
  assumes "parked_after k s" "an_login an = Some e" "errClass e = ''auth''"
  shows "\<exists>s'. cycle um an s = (False, s', if k < StickyAuthFails then [CLogin] else []) \<and>
    parked_after (if k < StickyAuthFails then Suc k else k) s' \<and> s_class s' = ''auth''"
  using assms
  by (auto simp: parked_after_def cycle_def cycle_begin_def Let_def note_auth_failure_def degrade_now degraded_fields)

lemma rejected_run:
  assumes "\<forall>an \<in> set ans. \<exists>e. an_login an = Some e \<and> errClass e = ''auth''" "parked_after j s"
    and "run_loop default_options um ans (s, delay_before k) = (sb, calls, delays)"
  shows "calls = replicate (min (length ans) (StickyAuthFails - j)) CLogin \<and>
    delays = List.map auth_delay [k..<k + length ans]"
  using assms
proof (induction ans arbitrary: j k s sb calls delays)
  case (Cons an ans)
  obtain s' where c: "cycle um an s = (False, s', if j < StickyAuthFails then [CLogin] else [])"
    "parked_after (if j < StickyAuthFails then Suc j else j) s'" "s_class s' = ''auth''"
    using rejected_class[OF Cons.prems(2)] Cons.prems(1) by force
  have o: "run_once default_options um an (s, delay_before k) =
      ((s', delay_before (Suc k)), if j < StickyAuthFails then [CLogin] else [])"
    by (simp add: run_once_def c auth_ladder) (simp add: delay_before_def)
  obtain sb2 more ds where r: "run_loop default_options um ans (s', delay_before (Suc k)) = (sb2, more, ds)"
    by (metis surj_pair)
  have "more = replicate (min (length ans) (StickyAuthFails - (if j < StickyAuthFails then Suc j else j))) CLogin \<and>
      ds = List.map auth_delay [Suc k..<Suc k + length ans]"
    using Cons.IH[OF _ c(2) r] Cons.prems(1) by simp
  moreover have "calls = (if j < StickyAuthFails then [CLogin] else []) @ more" "delays = auth_delay k # ds"
    using Cons.prems(3) o r by (auto simp: delay_before_def)
  moreover have "min (length (an # ans)) (StickyAuthFails - j) =
      (if j < StickyAuthFails then Suc (min (length ans) (StickyAuthFails - Suc j)) else 0)"
    by auto
  moreover have "[k..<k + length (an # ans)] = k # [Suc k..<Suc k + length ans]"
    by (subst upt_conv_Cons) simp_all
  ultimately show ?case
    by (cases "j < StickyAuthFails") (simp_all only: if_True if_False list.map append_Nil append_Cons replicate_Suc,
      simp)
qed simp

section \<open>Properties\<close>

text \<open>
  C24. Ban frugality in calls and in time: against a backend that rejects every login, however long the
  daemon runs, it sends three logins and nothing else, and the waits double from 30 seconds to
  the cap of ten minutes.
\<close>

theorem rejected_logins_paced:
  assumes "\<forall>an \<in> set ans. \<exists>e. an_login an = Some e \<and> errClass e = ''auth''"
    and "run_loop default_options um ans (run_start b) = (sb, calls, delays)"
  shows "calls = replicate (min (length ans) 3) CLogin \<and>
    delays = List.map (\<lambda>k. min 600000000000 (30000000000 * 2 ^ k)) [0..<length ans]"
proof -
  have "run_loop default_options um ans (new_syncer b, delay_before 0) = (sb, calls, delays)"
    using assms(2) by (simp add: run_start_def default_values delay_before_def)
  from rejected_run[OF assms(1) _ this, of 0] show ?thesis
    by (simp add: parked_after_def new_syncer_def zero_state_def StickyAuthFails_def auth_delay_def[abs_def])
qed

text \<open>
  Whatever the cycles meet, every wait of the loop is between two seconds and ten minutes: the
  doubling never overflows and the loop neither spins nor falls asleep.
\<close>

theorem loop_delays_bounded:
  assumes "run_loop default_options um ans (run_start b) = (sb, calls, delays)" "d \<in> set delays"
  shows "2000000000 \<le> d \<and> d \<le> 600000000000"
proof -
  have "delay_ok (snd (run_start b))" by (simp add: run_start_def default_values delay_ok_def)
  from delays_ok[OF this assms(1)] assms(2) show ?thesis by (auto simp: list_all_iff delay_ok_def)
qed

theorem rejected_logins_paced_witness:
  "\<exists>sb. run_loop default_options demo_um (replicate 4 rejecting_answers) (run_start ()) =
     (sb, [CLogin, CLogin, CLogin], [30000000000, 60000000000, 120000000000, 240000000000])"
proof -
  obtain sb calls delays where r: "run_loop default_options demo_um (replicate 4 rejecting_answers) (run_start ()) = (sb, calls, delays)"
    by (metis surj_pair)
  have "\<forall>an \<in> set (replicate 4 rejecting_answers). \<exists>e. an_login an = Some e \<and> errClass e = ''auth''"
    by (auto simp: rejecting_answers_def errClass_def)
  from rejected_logins_paced[OF this r] r show ?thesis
    by (simp add: numeral_eq_Suc upt_rec)
qed

theorem loop_delays_bounded_witness:
  "\<exists>d. snd (snd (run_loop default_options demo_um [demo_answers] (run_start ()))) = [d] \<and> d \<le> 600000000000"
proof -
  obtain sb calls delays where r: "run_loop default_options demo_um [demo_answers] (run_start ()) = (sb, calls, delays)"
    by (metis surj_pair)
  then have "\<exists>d. delays = [d]" by (auto simp: Let_def split: prod.splits)
  with loop_delays_bounded[OF r] r show ?thesis by auto
qed

end
