(* ===== verification/Transaction.thy ===== *)
theory Transaction
  imports DaemonProps
begin

text \<open>
  \<^verbatim>\<open>Manager.Configure\<close> under concurrency. Any number of goroutines are inside \<^verbatim>\<open>Configure\<close>, each with a
  program counter; \<open>tx_step\<close> runs one of them to the next point at which another goroutine can see
  what it did: one call of a component, or one critical section of the manager's lock. Between two
  such steps everything else the daemon does may happen (\<open>others\<close>): synchronization, mutations, tests
  and the presence probe change neither the profile, the secret, the file nor the backend.

  \<open>xm_log\<close> is a ghost: the calls that owned the switch, in the order in which they released it.
\<close>

section \<open>One call\<close>

text \<open>What the transaction has captured: the bytes of the file, the previous secret, whether it changed
  the secret, and the profile it wants.\<close>

record captured =
  cp_before :: "string option"
  cp_prev :: "string option"
  cp_mutated :: bool
  cp_next :: profile

datatype 'w tx_pc =
    TxIdle
  | TxCalled configure_params
  | TxChecked configure_params endpoint
  | TxBegun configure_params endpoint
  | TxRead configure_params endpoint "string option"
  | TxSnapshot configure_params endpoint "string option" "string option"
  | TxResolved configure_params endpoint captured
  | TxChanged configure_params endpoint captured
  | TxSaved configure_params endpoint captured
  | TxBuilt configure_params endpoint captured "'w client"
  | TxSwitched configure_params endpoint captured "'w client"
  | TxActive configure_params "'w client" configure_result "'w client option"
  | TxUndo configure_params string captured bool
  | TxUndoFile configure_params string captured bool
  | TxAbort configure_params configure_result
  | TxDone configure_params configure_result "'w client option"

definition captured_of :: "configure_params \<Rightarrow> endpoint \<Rightarrow> string option \<Rightarrow> string option \<Rightarrow> tls_options \<Rightarrow> captured" where
  "captured_of p ep before prev tls = \<lparr>cp_before = before, cp_prev = prev, cp_mutated = False,
     cp_next = next_profile p ep tls\<rparr>"

text \<open>The manager's critical section of the activation.\<close>

definition commit_manager :: "configure_params \<Rightarrow> profile \<Rightarrow> endpoint \<Rightarrow> 'w client \<Rightarrow> 'w manager \<Rightarrow> 'w manager" where
  "commit_manager p nxt ep c m =
     m\<lparr>mg_current := Some c, mg_profile := nxt, mg_endpoint := ep, mg_valid := True, mg_epoch := Suc (mg_epoch m),
       mg_hasSecret := (if cp_action p = ''replace'' then True
         else if cp_action p = ''delete'' then False else mg_hasSecret m)\<rparr>"

definition success :: "endpoint \<Rightarrow> nat \<Rightarrow> configure_result" where
  "success ep epoch = \<lparr>cr_ok = True, cr_rejection = [], cr_epoch = epoch, cr_mode = mode_of ep,
     cr_host = truncateRunes (ep_host ep) 128, cr_transport = ep_scheme ep\<rparr>"

fun tx_step :: "('s, 'w) env \<Rightarrow> 'w tx_pc \<Rightarrow> ('s, 'w) daemon \<Rightarrow> 'w tx_pc \<times> ('s, 'w) daemon" where
  "tx_step env TxIdle d = (TxIdle, d)"
| "tx_step env (TxCalled p) d =
     (case cfg_check p of Inl rcode \<Rightarrow> (TxDone p (rejection rcode) None, d) | Inr ep \<Rightarrow> (TxChecked p ep, d))"
| "tx_step env (TxChecked p ep) d =
     (case BeginSwitch (da_mut d) of
        (False, m) \<Rightarrow> (TxDone p (rejection RejectMutationsPending) None, d\<lparr>da_mut := m\<rparr>)
      | (True, m) \<Rightarrow> (TxBegun p ep, d\<lparr>da_mut := m\<rparr>))"
| "tx_step env (TxBegun p ep) d =
     (case ReadStoreRaw (e_readFails env) (da_fs d) (e_path env) of
        Inl _ \<Rightarrow> (TxAbort p (rejection RejectStorageError), d)
      | Inr before \<Rightarrow> (TxRead p ep before, d))"
| "tx_step env (TxRead p ep before) d =
     (case snapshot_secret env (cp_action p) (da_sec d) of
        (None, s) \<Rightarrow> (TxAbort p (rejection RejectSecretsMissing), d\<lparr>da_sec := s\<rparr>)
      | (Some prev, s) \<Rightarrow> (TxSnapshot p ep before prev, d\<lparr>da_sec := s\<rparr>))"
| "tx_step env (TxSnapshot p ep before prev) d =
     (case resolveTLSOptions (tp_tls p) (tp_pin p) (da_mgr d) of
        Inl _ \<Rightarrow> (TxAbort p (rejection RejectPinUnknown), d)
      | Inr tls \<Rightarrow> (TxResolved p ep (captured_of p ep before prev tls), d))"
| "tx_step env (TxResolved p ep k) d =
     (case change_secret env p (da_sec d) of
        ((False, _), s) \<Rightarrow> (TxAbort p (rejection RejectSecretsMissing), d\<lparr>da_sec := s\<rparr>)
      | ((True, mutated), s) \<Rightarrow> (TxChanged p ep (k\<lparr>cp_mutated := mutated\<rparr>), d\<lparr>da_sec := s\<rparr>))"
| "tx_step env (TxChanged p ep k) d =
     (case SaveStore (e_marshal env) (e_saveFails env) (e_uid env) (e_path env) (cp_next k) (da_fs d) of
        (Some _, fs) \<Rightarrow> (TxUndo p RejectStorageError k False, d\<lparr>da_fs := fs\<rparr>)
      | (None, fs) \<Rightarrow> (TxSaved p ep k, d\<lparr>da_fs := fs\<rparr>))"
| "tx_step env (TxSaved p ep k) d =
     (if e_hook env (cp_next k) then (TxUndo p RejectInvalidURL k True, d)
      else case buildClient env (da_fs d) (cp_next k) ep of
        None \<Rightarrow> (TxUndo p RejectInvalidURL k True, d)
      | Some c \<Rightarrow> (TxBuilt p ep k c, d))"
| "tx_step env (TxBuilt p ep k c) d = (TxSwitched p ep k c, d\<lparr>da_sync := SwitchBackend c (da_sync d)\<rparr>)"
| "tx_step env (TxSwitched p ep k c) d =
     (TxActive p c (success ep (Suc (mg_epoch (da_mgr d)))) (mg_current (da_mgr d)),
      d\<lparr>da_mgr := commit_manager p (cp_next k) ep c (da_mgr d)\<rparr>)"
| "tx_step env (TxActive p c r old) d = (TxDone p r old, d\<lparr>da_mut := CommitSwap c (da_mut d)\<rparr>)"
| "tx_step env (TxUndo p rcode k stored) d =
     (TxUndoFile p rcode k stored, if cp_mutated k then rollbackSecret env (cp_prev k) d else d)"
| "tx_step env (TxUndoFile p rcode k stored) d =
     (TxAbort p (rejection rcode), if stored then rollbackStoreBytes env (cp_before k) d else d)"
| "tx_step env (TxAbort p r) d = (TxDone p r None, d\<lparr>da_mut := AbortSwitch (da_mut d)\<rparr>)"
| "tx_step env (TxDone p r old) d = (TxDone p r old, d)"

text \<open>Whether a call owns the switch, and whether its decision on the certificate is behind it.\<close>

fun tx_open :: "'w tx_pc \<Rightarrow> bool" where
  "tx_open TxIdle = False"
| "tx_open (TxCalled p) = False"
| "tx_open (TxChecked p ep) = False"
| "tx_open (TxDone p r old) = False"
| "tx_open pc = True"

fun tx_resolved :: "'w tx_pc \<Rightarrow> bool" where
  "tx_resolved (TxBegun p ep) = False"
| "tx_resolved (TxRead p ep before) = False"
| "tx_resolved (TxSnapshot p ep before prev) = False"
| "tx_resolved pc = True"

section \<open>Running a call to its end\<close>

fun tx_rank :: "'w tx_pc \<Rightarrow> nat" where
  "tx_rank TxIdle = 0"
| "tx_rank (TxCalled p) = 14"
| "tx_rank (TxChecked p ep) = 13"
| "tx_rank (TxBegun p ep) = 12"
| "tx_rank (TxRead p ep before) = 11"
| "tx_rank (TxSnapshot p ep before prev) = 10"
| "tx_rank (TxResolved p ep k) = 9"
| "tx_rank (TxChanged p ep k) = 8"
| "tx_rank (TxSaved p ep k) = 7"
| "tx_rank (TxBuilt p ep k c) = 6"
| "tx_rank (TxSwitched p ep k c) = 5"
| "tx_rank (TxActive p c r old) = 1"
| "tx_rank (TxUndo p rcode k stored) = 3"
| "tx_rank (TxUndoFile p rcode k stored) = 2"
| "tx_rank (TxAbort p r) = 1"
| "tx_rank (TxDone p r old) = 0"

lemma tx_rank_step: "0 < tx_rank pc \<Longrightarrow> tx_step env pc d = (pc', d') \<Longrightarrow> tx_rank pc' < tx_rank pc"
  by (cases pc) (auto split: sum.splits option.splits prod.splits bool.splits if_splits)

function finish :: "('s, 'w) env \<Rightarrow> 'w tx_pc \<Rightarrow> ('s, 'w) daemon \<Rightarrow> 'w tx_pc \<times> ('s, 'w) daemon" where
  "finish env pc d = (if tx_rank pc = 0 then (pc, d)
     else finish env (fst (tx_step env pc d)) (snd (tx_step env pc d)))"
  by pat_completeness auto

termination finish
proof (relation "measure (\<lambda>(env, pc, d). tx_rank pc)")
  fix env :: "('s, 'w) env" and pc :: "'w tx_pc" and d
  assume "tx_rank pc \<noteq> 0"
  then show "((env, fst (tx_step env pc d), snd (tx_step env pc d)), env, pc, d) \<in> measure (\<lambda>(env, pc, d). tx_rank pc)"
    using tx_rank_step[of pc env d "fst (tx_step env pc d)" "snd (tx_step env pc d)"]
    by (simp add: case_prod_beta)
qed simp

declare finish.simps [simp del]

lemma finish_step: "0 < tx_rank pc \<Longrightarrow> finish env pc d = finish env (fst (tx_step env pc d)) (snd (tx_step env pc d))"
  by (subst finish.simps) simp

lemma finish_done: "finish env (TxDone p r old) d = (TxDone p r old, d)"
  by (subst finish.simps) simp

section \<open>The machine\<close>

record ('s, 'w) txm =
  xm_d :: "('s, 'w) daemon"
  xm_pc :: "nat \<Rightarrow> 'w tx_pc"
  xm_log :: "(nat \<times> configure_params \<times> configure_result \<times> 'w client option) list"

text \<open>What a transaction owns: the rest of the state may change under it at any time.\<close>

record ('s, 'w) core =
  co_profile :: profile
  co_endpoint :: endpoint
  co_valid :: bool
  co_current :: "'w client option"
  co_epoch :: nat
  co_sync :: "'w client \<times> nat"
  co_mut :: "'w client \<times> nat \<times> bool"
  co_sec :: 's
  co_fs :: fs

definition core :: "('s, 'w) daemon \<Rightarrow> ('s, 'w) core" where
  "core d = \<lparr>co_profile = mg_profile (da_mgr d), co_endpoint = mg_endpoint (da_mgr d), co_valid = mg_valid (da_mgr d),
     co_current = mg_current (da_mgr d), co_epoch = mg_epoch (da_mgr d),
     co_sync = (s_backend (da_sync d), s_epoch (da_sync d)),
     co_mut = (mt_backend (da_mut d), mt_epoch (da_mut d), mt_draining (da_mut d)),
     co_sec = da_sec d, co_fs = da_fs d\<rparr>"

definition others :: "('s, 'w) daemon \<Rightarrow> ('s, 'w) daemon \<Rightarrow> bool" where
  "others d d' \<longleftrightarrow> core d' = core d"

text \<open>The entry that a step adds to the log: a call that owned the switch and does not any more.\<close>

definition released :: "nat \<Rightarrow> 'w tx_pc \<Rightarrow> 'w tx_pc \<Rightarrow> (nat \<times> configure_params \<times> configure_result \<times> 'w client option) list" where
  "released t pc pc' = (if tx_open pc then (case pc' of TxDone p r old \<Rightarrow> [(t, p, r, old)] | _ \<Rightarrow> []) else [])"

datatype tx_event = TxCall nat configure_params | TxRun nat | TxOthers

text \<open>\<open>env t\<close> is what the call of goroutine \<open>t\<close> meets: which of its system calls fail, and so on.\<close>

inductive txm_step :: "(nat \<Rightarrow> ('s, 'w) env) \<Rightarrow> ('s, 'w) txm \<Rightarrow> tx_event \<Rightarrow> ('s, 'w) txm \<Rightarrow> bool" for env where
  txm_call: "xm_pc z t = TxIdle \<Longrightarrow> txm_step env z (TxCall t p) (z\<lparr>xm_pc := (xm_pc z)(t := TxCalled p)\<rparr>)"
| txm_run: "0 < tx_rank (xm_pc z t) \<Longrightarrow> tx_step (env t) (xm_pc z t) (xm_d z) = (pc', d') \<Longrightarrow>
    txm_step env z (TxRun t)
      \<lparr>xm_d = d', xm_pc = (xm_pc z)(t := pc'), xm_log = xm_log z @ released t (xm_pc z t) pc'\<rparr>"
| txm_others: "others (xm_d z) d' \<Longrightarrow> txm_step env z TxOthers (z\<lparr>xm_d := d'\<rparr>)"

inductive_cases txm_stepE: "txm_step env z e z'"

definition txm_init :: "('s, 'w) daemon \<Rightarrow> ('s, 'w) txm \<Rightarrow> bool" where
  "txm_init d0 z \<longleftrightarrow> z = \<lparr>xm_d = d0, xm_pc = (\<lambda>_. TxIdle), xm_log = []\<rparr>"

end
