(* ===== verification/TransactionProps.thy ===== *)
theory TransactionProps
  imports Transaction
begin

text \<open>
  Concurrent calls of \<^verbatim>\<open>Configure\<close> are serializable: at most one owns the switch, and whatever the
  interleaving, the calls that owned it had the results and the effects of \<open>Configure\<close> executed in one
  step each, in the order in which they released the switch. So the atomic \<open>Configure\<close> of the running
  daemon is what the code does.
\<close>

section \<open>A call that nobody disturbs\<close>

lemma core_update:
  "core (d\<lparr>da_fs := x\<rparr>) = (core d)\<lparr>co_fs := x\<rparr>" "core (d\<lparr>da_sec := y\<rparr>) = (core d)\<lparr>co_sec := y\<rparr>"
  by (simp_all add: core_def)

lemma finish_tx:
  assumes "configure_tx env p ep d = (r, d')"
  shows "finish env (TxBegun p ep) d = (TxDone p r (if cr_ok r then mg_current (da_mgr d) else None),
    if cr_ok r then d' else d'\<lparr>da_mut := AbortSwitch (da_mut d')\<rparr>)"
proof (cases "ReadStoreRaw (e_readFails env) (da_fs d) (e_path env)")
  case (Inl e)
  then show ?thesis
    using assms by (auto simp: finish_step finish_done configure_tx_def rejection_def)
next
  case (Inr before)
  note rd = this
  obtain sv s1 where sn: "snapshot_secret env (cp_action p) (da_sec d) = (sv, s1)" by force
  show ?thesis
  proof (cases sv)
    case None
    then show ?thesis
      using assms rd sn by (auto simp: finish_step finish_done configure_tx_def rejection_def)
  next
    case (Some prev)
    show ?thesis
    proof (cases "resolveTLSOptions (tp_tls p) (tp_pin p) (da_mgr d)")
      case (Inl e)
      then show ?thesis
        using assms rd sn Some by (auto simp: finish_step finish_done configure_tx_def rejection_def)
    next
      case (Inr tls)
      obtain ok mut s2 where ch: "change_secret env p s1 = ((ok, mut), s2)" by (metis surj_pair)
      obtain e fs1 where sv: "SaveStore (e_marshal env) (e_saveFails env) (e_uid env) (e_path env)
          (next_profile p ep tls) (da_fs d) = (e, fs1)" by force
      show ?thesis
        using assms
        by (cases ok; cases e; cases "e_hook env (next_profile p ep tls)"; cases "buildClient env fs1 (next_profile p ep tls) ep")
          (auto simp: finish_step finish_done configure_tx_def rd sn Some Inr ch sv rejection_def captured_of_def
            persist_and_switch_def fail_tx_def activate_def commit_manager_def success_def Let_def)
    qed
  qed
qed

section \<open>What a call depends on\<close>

lemma coreD:
  assumes "core d = core e"
  shows "mg_profile (da_mgr d) = mg_profile (da_mgr e)" "mg_endpoint (da_mgr d) = mg_endpoint (da_mgr e)"
    "mg_valid (da_mgr d) = mg_valid (da_mgr e)" "mg_current (da_mgr d) = mg_current (da_mgr e)"
    "mg_epoch (da_mgr d) = mg_epoch (da_mgr e)" "s_backend (da_sync d) = s_backend (da_sync e)"
    "s_epoch (da_sync d) = s_epoch (da_sync e)" "mt_backend (da_mut d) = mt_backend (da_mut e)"
    "mt_epoch (da_mut d) = mt_epoch (da_mut e)" "mt_draining (da_mut d) = mt_draining (da_mut e)"
    "da_sec d = da_sec e" "da_fs d = da_fs e"
  using assms by (simp_all add: core_def)

text \<open>Two states that a call cannot tell apart: until it has resolved the certificate it also reads the
  offered ones.\<close>

definition alike :: "'w tx_pc \<Rightarrow> ('s, 'w) daemon \<Rightarrow> ('s, 'w) daemon \<Rightarrow> bool" where
  "alike pc d e \<longleftrightarrow> core d = core e \<and> (tx_resolved pc \<or> mg_offered (da_mgr d) = mg_offered (da_mgr e))"

lemma rollbackSecret_core: "core d = core e \<Longrightarrow> core (rollbackSecret env prev d) = core (rollbackSecret env prev e)"
  by (auto simp: rollbackSecret_def core_def split: option.splits prod.splits bool.splits)

lemma rollbackStoreBytes_core: "core d = core e \<Longrightarrow> core (rollbackStoreBytes env before d) = core (rollbackStoreBytes env before e)"
  by (auto simp: rollbackStoreBytes_def core_def split: option.splits)

lemma rollbackSecret_offered: "mg_offered (da_mgr (rollbackSecret env prev d)) = mg_offered (da_mgr d)"
  by (auto simp: rollbackSecret_def split: option.splits prod.splits bool.splits)

lemma alike_resolve:
  assumes "alike (TxSnapshot p ep before prev) d e"
  shows "resolveTLSOptions mode pin (da_mgr d) = resolveTLSOptions mode pin (da_mgr e)"
proof -
  have c: "core d = core e" and o: "mg_offered (da_mgr d) = mg_offered (da_mgr e)"
    using assms by (simp_all add: alike_def)
  show ?thesis
    by (simp only: resolveTLSOptions_def o coreD(1)[OF c])
qed

lemma BeginSwitch_core:
  assumes "BeginSwitch m = (ok, m')"
  shows "m' = (if ok then m\<lparr>mt_draining := True\<rparr> else m)" "ok \<Longrightarrow> \<not> mt_draining m"
  using assms by (auto simp: BeginSwitch_def split: if_splits)

lemma alike_step:
  assumes "alike pc d e" "pc = TxCalled p \<or> tx_open pc"
  shows "fst (tx_step env pc d) = fst (tx_step env pc e)"
    "alike (fst (tx_step env pc d)) (snd (tx_step env pc d)) (snd (tx_step env pc e))"
proof -
  have c: "core d = core e" using assms(1) by (simp add: alike_def)
  note cs = coreD[OF c]
  have "fst (tx_step env pc d) = fst (tx_step env pc e) \<and>
    alike (fst (tx_step env pc d)) (snd (tx_step env pc d)) (snd (tx_step env pc e))"
  proof (cases pc)
    case (TxUndo p rcode k stored)
    then show ?thesis using assms(1) rollbackSecret_core[OF c] by (auto simp: alike_def)
  next
    case (TxUndoFile p rcode k stored)
    then show ?thesis using assms(1) rollbackStoreBytes_core[OF c] by (auto simp: alike_def)
  next
    case (TxSnapshot p ep before prev)
    then show ?thesis
      using assms(1) alike_resolve[OF assms(1)[unfolded TxSnapshot]] by (auto simp: alike_def split: sum.splits)
  qed (use assms c in \<open>auto simp: alike_def core_def cs commit_manager_def switch_fields CommitSwap_def AbortSwitch_def
      split: sum.splits option.splits prod.splits bool.splits\<close>)
  then show "fst (tx_step env pc d) = fst (tx_step env pc e)"
    "alike (fst (tx_step env pc d)) (snd (tx_step env pc d)) (snd (tx_step env pc e))" by blast+
qed

lemma tx_open_step: "tx_open pc \<Longrightarrow> tx_step env pc d = (pc', d') \<Longrightarrow> tx_open pc' \<or> (\<exists>p r old. pc' = TxDone p r old)"
  by (cases pc) (auto split: sum.splits option.splits prod.splits bool.splits if_splits)

lemma tx_open_rank: "tx_open pc \<Longrightarrow> 0 < tx_rank pc"
  by (cases pc) auto

lemma finish_alike:
  assumes "tx_open pc \<or> (\<exists>p r old. pc = TxDone p r old)" "alike pc d e"
  shows "fst (finish env pc d) = fst (finish env pc e) \<and> core (snd (finish env pc d)) = core (snd (finish env pc e))"
  using assms
proof (induction env pc d arbitrary: e rule: finish.induct)
  case (1 env pc d)
  show ?case
  proof (cases "tx_open pc")
    case True
    then have rk: "0 < tx_rank pc" by (rule tx_open_rank)
    note st = alike_step[OF 1(3), of undefined env, OF disjI2[OF True]]
    show ?thesis
      using 1(1)[OF _ _ st(2)] rk tx_open_step[OF True, of env d] st(1)
      by (simp add: finish_step[OF rk, of env d] finish_step[OF rk, of env e] prod_eq_iff)
  next
    case False
    then show ?thesis using 1(2,3) by (auto simp: finish_done alike_def)
  qed
qed

section \<open>The serial specification\<close>

inductive serial :: "(nat \<Rightarrow> ('s, 'w) env) \<Rightarrow> ('s, 'w) core \<Rightarrow>
    (nat \<times> configure_params \<times> configure_result \<times> 'w client option) list \<Rightarrow> ('s, 'w) core \<Rightarrow> bool" for env c0 where
  serial_none: "serial env c0 [] c0"
| serial_one: "serial env c0 es (core d) \<Longrightarrow> fst (BeginSwitch (da_mut d)) \<Longrightarrow> Configure (env t) p d = (r, d', old) \<Longrightarrow>
    serial env c0 (es @ [(t, p, r, old)]) (core d')"

fun tx_params :: "'w tx_pc \<Rightarrow> configure_params" where
  "tx_params (TxCalled p) = p"
| "tx_params (TxChecked p ep) = p"
| "tx_params (TxBegun p ep) = p"
| "tx_params (TxRead p ep before) = p"
| "tx_params (TxSnapshot p ep before prev) = p"
| "tx_params (TxResolved p ep k) = p"
| "tx_params (TxChanged p ep k) = p"
| "tx_params (TxSaved p ep k) = p"
| "tx_params (TxBuilt p ep k c) = p"
| "tx_params (TxSwitched p ep k c) = p"
| "tx_params (TxActive p c r old) = p"
| "tx_params (TxUndo p rcode k stored) = p"
| "tx_params (TxUndoFile p rcode k stored) = p"
| "tx_params (TxAbort p r) = p"
| "tx_params (TxDone p r old) = p"
| "tx_params TxIdle = undefined"

lemma tx_params_step: "0 < tx_rank pc \<Longrightarrow> tx_step env pc d = (pc', d') \<Longrightarrow> tx_params pc' = tx_params pc"
  by (cases pc) (auto split: sum.splits option.splits prod.splits bool.splits if_splits)

text \<open>From here on, whatever the others do before, the call does what the atomic one does from \<open>b\<close>.\<close>

definition on_track :: "('s, 'w) env \<Rightarrow> ('s, 'w) core \<Rightarrow> 'w tx_pc \<Rightarrow> ('s, 'w) daemon \<Rightarrow> bool" where
  "on_track env b pc d \<longleftrightarrow> (\<forall>e. core e = core d \<longrightarrow>
     (\<exists>d0 r d1 old e1. core d0 = b \<and> fst (BeginSwitch (da_mut d0)) \<and> Configure env (tx_params pc) d0 = (r, d1, old) \<and>
        finish env pc e = (TxDone (tx_params pc) r old, e1) \<and> core e1 = core d1))"

lemma on_track_others: "on_track env b pc d \<Longrightarrow> core d' = core d \<Longrightarrow> on_track env b pc d'"
  by (simp add: on_track_def)

lemma on_track_begin:
  assumes "cfg_check p = Inr ep" "BeginSwitch (da_mut d) = (True, m)"
  shows "on_track env (core d) (TxBegun p ep) (d\<lparr>da_mut := m\<rparr>)"
  unfolding on_track_def
proof (intro allI impI)
  fix e
  assume e: "core e = core (d\<lparr>da_mut := m\<rparr>)"
  define d0 where "d0 = e\<lparr>da_mut := da_mut d\<rparr>"
  have m: "m = (da_mut d)\<lparr>mt_draining := True\<rparr>" using BeginSwitch_core[OF assms(2)] by simp
  have d0: "core d0 = core d" using e by (simp add: d0_def core_def)
  obtain r d1 where tx: "configure_tx env p ep (d0\<lparr>da_mut := m\<rparr>) = (r, d1)" by force
  have "Configure env p d0 = (r, if cr_ok r then d1 else d1\<lparr>da_mut := AbortSwitch (da_mut d1)\<rparr>,
      if cr_ok r then mg_current (da_mgr d0) else None)"
    using assms tx by (simp add: Configure_def d0_def)
  moreover have "fst (BeginSwitch (da_mut d0))" using assms(2) by (simp add: d0_def)
  moreover have "alike (TxBegun p ep) e (d0\<lparr>da_mut := m\<rparr>)"
    using e by (simp add: alike_def d0_def core_def)
  then have "fst (finish env (TxBegun p ep) e) = fst (finish env (TxBegun p ep) (d0\<lparr>da_mut := m\<rparr>)) \<and>
      core (snd (finish env (TxBegun p ep) e)) = core (snd (finish env (TxBegun p ep) (d0\<lparr>da_mut := m\<rparr>)))"
    by (intro finish_alike) simp_all
  ultimately show "\<exists>d0 r d1 old e1. core d0 = core d \<and> fst (BeginSwitch (da_mut d0)) \<and>
      Configure env (tx_params (TxBegun p ep)) d0 = (r, d1, old) \<and>
      finish env (TxBegun p ep) e = (TxDone (tx_params (TxBegun p ep)) r old, e1) \<and> core e1 = core d1"
    using d0 finish_tx[OF tx] by (intro exI[of _ d0]) (auto simp: prod_eq_iff)
qed

lemma on_track_step:
  assumes "on_track env b pc d" "tx_open pc" "tx_step env pc d = (pc', d')"
  shows "on_track env b pc' d'"
  unfolding on_track_def
proof (intro allI impI)
  fix e'
  assume e': "core e' = core d'"
  note rk = tx_open_rank[OF assms(2)]
  have par: "tx_params pc' = tx_params pc" using tx_params_step[OF rk assms(3)] .
  note end' = tx_open_step[OF assms(2,3)]
  have "\<exists>e. core e = core d \<and> fst (finish env pc e) = fst (finish env pc' e') \<and>
      core (snd (finish env pc e)) = core (snd (finish env pc' e'))"
  proof (cases "tx_resolved pc'")
    case True
    then have "alike pc' d' e'" using e' by (simp add: alike_def)
    from finish_alike[OF end' this] show ?thesis
      using assms(3) by (intro exI[of _ d]) (simp add: finish_step[OF rk])
  next
    case False
    define e where "e = e'\<lparr>da_sec := da_sec d\<rparr>"
    have "core e = core d \<and> tx_step env pc e = (pc', e')"
    proof (cases pc)
      case (TxBegun p ep)
      then show ?thesis using assms(3) False e' coreD(11,12)[OF e']
        by (auto simp: e_def core_def split: sum.splits)
    next
      case (TxRead p ep before)
      obtain v s where sn: "snapshot_secret env (cp_action p) (da_sec d) = (v, s)" by force
      show ?thesis using TxRead assms(3) False e' coreD(11)[OF e'] sn
        by (cases v) (auto simp: e_def core_def)
    qed (use assms(2,3) False in \<open>auto split: sum.splits option.splits prod.splits bool.splits if_splits\<close>)
    then show ?thesis by (intro exI[of _ e]) (simp add: finish_step[OF rk])
  qed
  then show "\<exists>d0 r d1 old e1. core d0 = b \<and> fst (BeginSwitch (da_mut d0)) \<and> Configure env (tx_params pc') d0 = (r, d1, old) \<and>
      finish env pc' e' = (TxDone (tx_params pc') r old, e1) \<and> core e1 = core d1"
    using assms(1) unfolding on_track_def par by (metis fst_conv prod.collapse snd_conv)
qed

section \<open>What the others do\<close>

lemma others_parts:
  assumes "mgr_same (da_mgr d) m" "s_backend s = s_backend (da_sync d)" "s_epoch s = s_epoch (da_sync d)"
    "mut_same (da_mut d) u"
  shows "others d (d\<lparr>da_mgr := m, da_sync := s, da_mut := u\<rparr>)"
  using assms by (simp add: others_def core_def mgr_same_def mut_same_def)

text \<open>Every step of the running daemon that is no \<^verbatim>\<open>Configure\<close>, and every critical section of a cycle that is
  no switch, is a step of the others.\<close>

lemma others_host_step:
  assumes "host_step um ff ids env net ho e ho'" "\<And>q. e = HRequest q \<Longrightarrow> q_type q \<noteq> ''connection.configure''"
  shows "others (ho_daemon ho) (ho_daemon ho')"
  using assms(1)
proof cases
  case (hs_request q sub)
  have "others (ho_daemon ho) (ho_daemon (snd (h_Submit ids net mr ho)))" for mr
    by (auto simp: h_Submit_def Let_def others_def core_def mut_same_def split: prod.splits dest!: mut_same_Submit)
  moreover have "others (ho_daemon ho) (ho_daemon (snd (h_ConnectionTest env net tr ho)))" for tr
    by (auto simp: h_ConnectionTest_def Let_def others_def core_def mgr_same_def split: prod.splits dest!: mgr_same_Test)
  moreover have "others (ho_daemon ho) (ho_daemon (snd (snd (h_Subscribe ho))))"
    by (auto simp: h_Subscribe_def Subscribe_def Let_def others_def core_def split: prod.splits)
  moreover have "others (ho_daemon ho) (ho_daemon ho)" by (simp add: others_def)
  ultimately have "others (ho_daemon ho) (ho_daemon (snd (dispatch ff (host_services ids env net) sub q ho)))"
    using assms(2)[OF hs_request(1)] by (simp add: dispatch_def host_services_def case_prod_beta)
  then show ?thesis by (simp add: hs_request(2))
qed (auto simp: others_def core_def on_daemon_def cycle_backend h_cancelSub_def cancelSub_def
    mut_same_reconcile[unfolded mut_same_def] mut_same_Results[unfolded mut_same_def]
    mgr_same_refresh[unfolded mgr_same_def])

lemma others_sync_step:
  assumes "sm_step um y e y'" "\<And>b. e \<noteq> ESwitch b"
  shows "others (d\<lparr>da_sync := y_s y\<rparr>) (d\<lparr>da_sync := y_s y'\<rparr>)"
  using assms
  by (cases rule: sm_stepE) (auto simp: others_def core_def note_auth_failure_def login_ok_def probe_versions_def
      commit_def commit_degraded_epoch_def Subscribe_def cancelSub_def Let_def split: option.splits sum.splits prod.splits if_splits)

section \<open>The invariant\<close>

definition refused :: "configure_params \<Rightarrow> configure_result \<Rightarrow> bool" where
  "refused p r \<longleftrightarrow> (\<exists>rcode. cfg_check p = Inl rcode \<and> r = rejection rcode) \<or> r = rejection RejectMutationsPending"

definition txm_inv :: "(nat \<Rightarrow> ('s, 'w) env) \<Rightarrow> ('s, 'w) core \<Rightarrow> ('s, 'w) txm \<Rightarrow> bool" where
  "txm_inv env c0 z \<longleftrightarrow>
     (\<forall>t t'. tx_open (xm_pc z t) \<and> tx_open (xm_pc z t') \<longrightarrow> t = t') \<and>
     (\<forall>t. tx_open (xm_pc z t) \<longrightarrow> mt_draining (da_mut (xm_d z))) \<and>
     (\<exists>b. serial env c0 (xm_log z) b \<and> (\<forall>t. tx_open (xm_pc z t) \<longrightarrow> on_track (env t) b (xm_pc z t) (xm_d z)) \<and>
        ((\<forall>t. \<not> tx_open (xm_pc z t)) \<longrightarrow> core (xm_d z) = b)) \<and>
     distinct (List.map fst (xm_log z)) \<and>
     (\<forall>t p r old. (t, p, r, old) \<in> set (xm_log z) \<longrightarrow> xm_pc z t = TxDone p r old) \<and>
     (\<forall>t p r old. xm_pc z t = TxDone p r old \<longrightarrow> (t, p, r, old) \<in> set (xm_log z) \<or> refused p r) \<and>
     (\<forall>t p ep. xm_pc z t = TxChecked p ep \<longrightarrow> cfg_check p = Inr ep)"

lemma txm_invD:
  assumes "txm_inv env c0 z"
  shows "tx_open (xm_pc z t) \<Longrightarrow> tx_open (xm_pc z t') \<Longrightarrow> t = t'"
    "tx_open (xm_pc z t) \<Longrightarrow> mt_draining (da_mut (xm_d z))" "distinct (List.map fst (xm_log z))"
    "(t, p, r, old) \<in> set (xm_log z) \<Longrightarrow> xm_pc z t = TxDone p r old"
    "xm_pc z t = TxDone p r old \<Longrightarrow> (t, p, r, old) \<in> set (xm_log z) \<or> refused p r"
    "xm_pc z t = TxChecked p ep \<Longrightarrow> cfg_check p = Inr ep"
  using assms unfolding txm_inv_def by blast+

lemma txm_inv_serial:
  assumes "txm_inv env c0 z"
  shows "\<exists>b. serial env c0 (xm_log z) b \<and> (\<forall>t. tx_open (xm_pc z t) \<longrightarrow> on_track (env t) b (xm_pc z t) (xm_d z)) \<and>
    ((\<forall>t. \<not> tx_open (xm_pc z t)) \<longrightarrow> core (xm_d z) = b)"
  using assms unfolding txm_inv_def by blast

lemma txm_inv_init: "txm_init d0 z \<Longrightarrow> txm_inv env (core d0) z"
  by (auto simp: txm_inv_def txm_init_def intro: serial_none)

lemma open_keeps_drain: "tx_open pc \<Longrightarrow> tx_open pc' \<Longrightarrow> tx_step env pc d = (pc', d') \<Longrightarrow>
    mt_draining (da_mut d') = mt_draining (da_mut d)"
  by (cases pc) (auto simp: rollbackSecret_def rollbackStoreBytes_def split: sum.splits option.splits prod.splits bool.splits if_splits)

text \<open>A step of a call that owns the switch.\<close>

lemma txm_inv_open:
  assumes inv: "txm_inv env c0 z" and op: "tx_open (xm_pc z t)" and st: "tx_step (env t) (xm_pc z t) (xm_d z) = (pc', d')"
  shows "txm_inv env c0 \<lparr>xm_d = d', xm_pc = (xm_pc z)(t := pc'), xm_log = xm_log z @ released t (xm_pc z t) pc'\<rparr>"
proof -
  obtain b where b: "serial env c0 (xm_log z) b" "on_track (env t) b (xm_pc z t) (xm_d z)"
    using txm_inv_serial[OF inv] op by blast
  note D = txm_invD[OF inv]
  have only: "tx_open (xm_pc z t') \<Longrightarrow> t' = t" for t' using D(1) op by blast
  have new: "(t, p, r, old) \<notin> set (xm_log z)" for p r old
    using D(4)[of t p r old] op by auto
  then have fresh: "t \<notin> fst ` set (xm_log z)" by force
  note ot = on_track_step[OF b(2) op st]
  from tx_open_step[OF op st] show ?thesis
  proof
    assume op': "tx_open pc'"
    then have rl: "released t (xm_pc z t) pc' = []" by (cases pc') (auto simp: released_def)
    have "mt_draining (da_mut d')" using open_keeps_drain[OF op op' st] D(2)[OF op] by simp
    moreover have "pc' \<noteq> TxChecked p ep" "pc' \<noteq> TxDone p r old" for p ep r old using op' by auto
    moreover have "(t', p, r, old) \<in> set (xm_log z) \<longrightarrow> t' \<noteq> t" for t' p r old using new by blast
    ultimately show ?thesis
      using b(1) ot only op' D(3-6) unfolding txm_inv_def rl
      by (simp add: rl) blast
  next
    assume "\<exists>p r old. pc' = TxDone p r old"
    then obtain p r old where pc': "pc' = TxDone p r old" by blast
    then have rl: "released t (xm_pc z t) pc' = [(t, p, r, old)]" using op by (simp add: released_def)
    obtain d0 r0 d1 old0 e1 where x: "core d0 = b" "fst (BeginSwitch (da_mut d0))"
      "Configure (env t) p d0 = (r0, d1, old0)" "finish (env t) pc' d' = (TxDone p r0 old0, e1)" "core e1 = core d1"
      using ot unfolding on_track_def pc' by auto
    then have "r0 = r" "old0 = old" "core d1 = core d'" by (simp_all add: pc' finish_done)
    then have "serial env c0 (xm_log z @ [(t, p, r, old)]) (core d')"
      using serial_one[of env c0 "xm_log z" d0 t p r d1 old] b(1) x(1-3) by simp
    moreover have "\<not> tx_open (((xm_pc z)(t := pc')) t')" for t' using only pc' by auto
    moreover have "distinct (List.map fst (xm_log z @ [(t, p, r, old)]))" using D(3) fresh by simp
    ultimately show ?thesis
      using D(4-6) new unfolding txm_inv_def rl by (auto simp: pc')
  qed
qed

text \<open>A step outside the switch, that changes nothing but the counter of the call.\<close>

lemma txm_inv_quiet:
  assumes inv: "txm_inv env c0 z" and cl: "\<not> tx_open (xm_pc z t)" "\<And>p r old. (t, p, r, old) \<notin> set (xm_log z)"
    and pc': "\<not> tx_open pc'" "\<And>p r old. pc' = TxDone p r old \<Longrightarrow> refused p r"
      "\<And>p ep. pc' = TxChecked p ep \<Longrightarrow> cfg_check p = Inr ep"
  shows "txm_inv env c0 (z\<lparr>xm_pc := (xm_pc z)(t := pc')\<rparr>)"
proof -
  note D = txm_invD[OF inv]
  define pcs where "pcs = (xm_pc z)(t := pc')"
  have op: "tx_open (pcs t') \<longleftrightarrow> tx_open (xm_pc z t')" for t' using cl(1) pc'(1) by (simp add: pcs_def)
  have on: "pcs t' = xm_pc z t'" if "tx_open (xm_pc z t')" for t' using cl(1) that by (auto simp: pcs_def)
  have sel: "xm_pc (z\<lparr>xm_pc := pcs\<rparr>) = pcs" "xm_d (z\<lparr>xm_pc := pcs\<rparr>) = xm_d z" "xm_log (z\<lparr>xm_pc := pcs\<rparr>) = xm_log z"
    by simp_all
  have 1: "\<exists>b. serial env c0 (xm_log z) b \<and> (\<forall>t'. tx_open (xm_pc z t') \<longrightarrow> on_track (env t') b (pcs t') (xm_d z)) \<and>
      ((\<forall>t'. \<not> tx_open (xm_pc z t')) \<longrightarrow> core (xm_d z) = b)"
    using txm_inv_serial[OF inv] on by auto
  have 2: "pcs t' = TxDone p r old" if "(t', p, r, old) \<in> set (xm_log z)" for t' p r old
    using D(4)[OF that] cl(2) that by (auto simp: pcs_def)
  have 3: "(t', p, r, old) \<in> set (xm_log z) \<or> refused p r" if "pcs t' = TxDone p r old" for t' p r old
    using D(5)[of t' p r old] pc'(2) that by (auto simp: pcs_def split: if_splits)
  have 4: "cfg_check p = Inr ep" if "pcs t' = TxChecked p ep" for t' p ep
    using D(6)[of t' p ep] pc'(3) that by (auto simp: pcs_def split: if_splits)
  show ?thesis
    unfolding pcs_def[symmetric] txm_inv_def sel op using D(1-3) 1 2 3 4 by blast
qed

text \<open>A step of a call that does not own it.\<close>

lemma txm_inv_closed:
  assumes inv: "txm_inv env c0 z" and cl: "\<not> tx_open (xm_pc z t)" "0 < tx_rank (xm_pc z t)"
    and st: "tx_step (env t) (xm_pc z t) (xm_d z) = (pc', d')"
  shows "txm_inv env c0 \<lparr>xm_d = d', xm_pc = (xm_pc z)(t := pc'), xm_log = xm_log z @ released t (xm_pc z t) pc'\<rparr>"
proof -
  have rl: "released t (xm_pc z t) pc' = []" using cl by (simp add: released_def)
  note D = txm_invD[OF inv]
  obtain b where b: "serial env c0 (xm_log z) b" "\<And>t. tx_open (xm_pc z t) \<Longrightarrow> on_track (env t) b (xm_pc z t) (xm_d z)"
    "(\<forall>t. \<not> tx_open (xm_pc z t)) \<longrightarrow> core (xm_d z) = b"
    using txm_inv_serial[OF inv] by blast
  have new: "(t, p, r, old) \<notin> set (xm_log z)" for p r old
    using D(4)[of t p r old] cl(2) by auto
  have same: "\<lparr>xm_d = xm_d z, xm_pc = (xm_pc z)(t := pc'), xm_log = xm_log z @ released t (xm_pc z t) pc'\<rparr> =
      z\<lparr>xm_pc := (xm_pc z)(t := pc')\<rparr>"
    by (simp add: rl)
  have quiet: ?thesis if "d' = xm_d z" and "\<not> tx_open pc'" "\<And>p r old. pc' = TxDone p r old \<Longrightarrow> refused p r"
      "\<And>p ep. pc' = TxChecked p ep \<Longrightarrow> cfg_check p = Inr ep"
    unfolding that(1) same using inv cl(1) new that(2-4) by (rule txm_inv_quiet)
  show ?thesis
  proof (cases "xm_pc z t")
    case (TxCalled p)
    then show ?thesis using st by (intro quiet) (auto simp: refused_def split: sum.splits)
  next
    case (TxChecked p ep)
    obtain ok m where bs: "BeginSwitch (da_mut (xm_d z)) = (ok, m)" by force
    note m = BeginSwitch_core[OF bs]
    show ?thesis
    proof (cases ok)
      case False
      then show ?thesis using st TxChecked bs m by (intro quiet) (auto simp: refused_def)
    next
      case True
      then have none: "\<not> tx_open (xm_pc z t')" for t' using D(2) m(2) by blast
      then have base: "core (xm_d z) = b" using b(3) by blast
      have nxt: "pc' = TxBegun p ep" "d' = (xm_d z)\<lparr>da_mut := m\<rparr>" using st TxChecked bs True by auto
      have "on_track (env t) b pc' d'"
        unfolding nxt base[symmetric] using on_track_begin[OF D(6)[OF TxChecked]] bs True by simp
      then show ?thesis
        using D(3-6) b(1) none new m True unfolding rl unfolding nxt by (auto simp: txm_inv_def)
    qed
  qed (use cl in simp_all)
qed

lemma txm_inv_step:
  assumes "txm_inv env c0 z" "txm_step env z e z'"
  shows "txm_inv env c0 z'"
  using assms(2)
proof cases
  case (txm_call t p)
  have "(t, q, r, old) \<notin> set (xm_log z)" for q r old
    using txm_invD(4)[OF assms(1), of t q r old] txm_call by auto
  then show ?thesis
    unfolding txm_call(2) using txm_call by (intro txm_inv_quiet[OF assms(1)]) simp_all
next
  case (txm_run t pc' d')
  then show ?thesis
    using txm_inv_open[OF assms(1)] txm_inv_closed[OF assms(1)] by (cases "tx_open (xm_pc z t)") auto
next
  case (txm_others d')
  then have c: "core d' = core (xm_d z)" by (simp add: others_def)
  obtain b where b: "serial env c0 (xm_log z) b" "\<And>t. tx_open (xm_pc z t) \<Longrightarrow> on_track (env t) b (xm_pc z t) (xm_d z)"
    "(\<forall>t. \<not> tx_open (xm_pc z t)) \<longrightarrow> core (xm_d z) = b"
    using txm_inv_serial[OF assms(1)] by blast
  have "\<exists>b. serial env c0 (xm_log z) b \<and> (\<forall>t. tx_open (xm_pc z t) \<longrightarrow> on_track (env t) b (xm_pc z t) d') \<and>
      ((\<forall>t. \<not> tx_open (xm_pc z t)) \<longrightarrow> core d' = b)"
    using b on_track_others[OF _ c] c by auto
  then show ?thesis
    using txm_invD[OF assms(1)] coreD(10)[OF c] unfolding txm_inv_def txm_others by simp
qed

interpretation tx: transition "txm_init d0" "txm_step env" "txm_inv env (core d0)" for d0 env
  by unfold_locales (auto intro: txm_inv_init txm_inv_step)

section \<open>Serializability\<close>

text \<open>
  C2. Concurrent calls of \<^verbatim>\<open>Configure\<close> are serializable. In every reachable state at most one call owns the
  switch; the calls that have released it, each entered once, are a serial run of the atomic \<open>Configure\<close>
  from the first state, with the same results and superseded clients; and while nobody owns the switch
  the profile, the file, the secret and the backends are what that run leaves. A call that is not
  entered was refused and did nothing.
\<close>

theorem configures_are_serializable:
  assumes "reachable (txm_init d0) (txm_step env) z"
  shows "(\<exists>b. serial env (core d0) (xm_log z) b \<and> ((\<forall>t. \<not> tx_open (xm_pc z t)) \<longrightarrow> core (xm_d z) = b)) \<and>
    (\<forall>t t'. tx_open (xm_pc z t) \<and> tx_open (xm_pc z t') \<longrightarrow> t = t') \<and> distinct (List.map fst (xm_log z)) \<and>
    (\<forall>t p r old. xm_pc z t = TxDone p r old \<longrightarrow> (t, p, r, old) \<in> set (xm_log z) \<or> refused p r)"
proof -
  have inv: "txm_inv env (core d0) z" using assms by (rule tx.reachable_inv)
  show ?thesis
    using txm_inv_serial[OF inv] txm_invD(1,3,5)[OF inv] by blast
qed

section \<open>Agreement at every point\<close>

lemma core_ok: "core d = core e \<Longrightarrow> daemon_ok d \<longleftrightarrow> daemon_ok e"
  by (simp add: daemon_ok_def coreD[of d e])

lemma serial_ok:
  assumes "serial env (core d0) es b" "daemon_ok d0" "core d = b"
  shows "daemon_ok d"
  using assms
proof (induction arbitrary: d rule: serial.induct)
  case serial_none
  then show ?case using core_ok by blast
next
  case (serial_one es d1 t p r d' old)
  then have "daemon_ok d'" using configure_refines_register[of d1 "env t" p r d' old] by simp
  then show ?case using serial_one.prems(2) core_ok by blast
qed

text \<open>
  C9. At every point of every interleaving, in the middle of a switch too: a mutation can only be registered
  while the mutator, the syncer and the manager use the same client in the same epoch; so it goes to
  the backend that the daemon synchronizes with and shows.
\<close>

theorem mutations_meet_the_shown_backend:
  assumes "daemon_ok d0" "reachable (txm_init d0) (txm_step env) z"
    and "register req h now (da_mut (xm_d z)) = (Inr p, m')"
  shows "mt_backend m' = s_backend (da_sync (xm_d z)) \<and> pe_epoch p = s_epoch (da_sync (xm_d z)) \<and>
    mg_current (da_mgr (xm_d z)) = Some (mt_backend m') \<and> mg_epoch (da_mgr (xm_d z)) = pe_epoch p"
proof -
  have inv: "txm_inv env (core d0) z" using assms(2) by (rule tx.reachable_inv)
  have reg: "\<not> mt_draining (da_mut (xm_d z))" "p = new_pending req h now (da_mut (xm_d z))"
    "mt_backend m' = mt_backend (da_mut (xm_d z))"
    using assms(3) by (auto simp: register_def Let_def split: if_splits option.splits)
  have "\<not> tx_open (xm_pc z t)" for t using txm_invD(2)[OF inv] reg(1) by blast
  then have "daemon_ok (xm_d z)" using txm_inv_serial[OF inv] serial_ok[OF _ assms(1)] by blast
  then show ?thesis using reg(2,3) by (simp add: daemon_ok_def new_pending_def)
qed

section \<open>Progress\<close>

text \<open>A call that gets its turns ends after at most 14 of them, whoever owns the switch.\<close>

lemma call_ends:
  "\<exists>n z'. n \<le> tx_rank (xm_pc z t) \<and> ((\<lambda>x. txm_step env x (TxRun t)) ^^ n) z z' \<and>
     tx_rank (xm_pc z' t) = 0 \<and> finish (env t) (xm_pc z t) (xm_d z) = (xm_pc z' t, xm_d z')"
proof (induction "tx_rank (xm_pc z t)" arbitrary: z rule: less_induct)
  case less
  show ?case
  proof (cases "tx_rank (xm_pc z t) = 0")
    case True
    then show ?thesis by (intro exI[of _ 0] exI[of _ z]) (simp add: finish.simps[of "env t" "xm_pc z t"])
  next
    case False
    obtain pc' d' where st: "tx_step (env t) (xm_pc z t) (xm_d z) = (pc', d')" by force
    define z1 where "z1 = \<lparr>xm_d = d', xm_pc = (xm_pc z)(t := pc'), xm_log = xm_log z @ released t (xm_pc z t) pc'\<rparr>"
    have run: "txm_step env z (TxRun t) z1" unfolding z1_def using False st by (intro txm_run) simp_all
    have lt: "tx_rank (xm_pc z1 t) < tx_rank (xm_pc z t)"
      using tx_rank_step[OF _ st] False by (simp add: z1_def)
    from less[OF lt] obtain n z' where n: "n \<le> tx_rank (xm_pc z1 t)" "((\<lambda>x. txm_step env x (TxRun t)) ^^ n) z1 z'"
      "tx_rank (xm_pc z' t) = 0" "finish (env t) (xm_pc z1 t) (xm_d z1) = (xm_pc z' t, xm_d z')" by blast
    have "((\<lambda>x. txm_step env x (TxRun t)) ^^ Suc n) z z'" using run n(2) by (rule relpowp_Suc_I2)
    moreover have "finish (env t) (xm_pc z t) (xm_d z) = (xm_pc z' t, xm_d z')"
      using n(4) False st by (simp add: finish_step z1_def)
    ultimately show ?thesis using n(1,3) lt by (intro exI[of _ "Suc n"] exI[of _ z']) simp
  qed
qed

lemma reachable_run:
  assumes "reachable init (txm_step env) z" "((\<lambda>x. txm_step env x (TxRun t)) ^^ n) z z'"
  shows "reachable init (txm_step env) z'"
  using assms(2,1) by (induction n arbitrary: z') (auto intro: reach_step)

section \<open>Witnesses\<close>

lemma wt_run: "\<exists>z r d lo. reachable (txm_init wc_daemon) (txm_step (\<lambda>_. wc_env False)) z \<and> cr_ok r \<and>
    Configure (wc_env False) wc_params wc_daemon = (r, d, lo) \<and> xm_pc z 0 = TxDone wc_params r lo \<and> xm_d z = d"
proof -
  let ?env = "\<lambda>_ :: nat. wc_env False"
  obtain r d lo where c: "Configure (wc_env False) wc_params wc_daemon = (r, d, lo)" "cr_ok r"
    using wc_ok by force
  define z0 where "z0 = \<lparr>xm_d = wc_daemon, xm_pc = (\<lambda>_. TxIdle), xm_log = []\<rparr>"
  define z1 where "z1 = z0\<lparr>xm_pc := (xm_pc z0)(0 := TxCalled wc_params)\<rparr>"
  have r0: "reachable (txm_init wc_daemon) (txm_step ?env) z0"
    by (rule reach_init) (simp add: txm_init_def z0_def)
  have "txm_step ?env z0 (TxCall 0 wc_params) z1" unfolding z1_def by (rule txm_call) (simp add: z0_def)
  with r0 have r1: "reachable (txm_init wc_daemon) (txm_step ?env) z1" by (rule reach_step)
  obtain n z' where n: "((\<lambda>x. txm_step ?env x (TxRun 0)) ^^ n) z1 z'"
    "finish (wc_env False) (TxCalled wc_params) wc_daemon = (xm_pc z' 0, xm_d z')"
    using call_ends[of z1 0 ?env] by (auto simp: z1_def z0_def)
  obtain ro d1 where tx: "configure_tx (wc_env False) wc_params local_endpoint
      (wc_daemon\<lparr>da_mut := (da_mut wc_daemon)\<lparr>mt_draining := True\<rparr>\<rparr>) = (ro, d1)" by force
  have "finish (wc_env False) (TxCalled wc_params) wc_daemon = finish (wc_env False) (TxBegun wc_params local_endpoint)
      (wc_daemon\<lparr>da_mut := (da_mut wc_daemon)\<lparr>mt_draining := True\<rparr>\<rparr>)"
    by (simp add: finish_step wc_check wc_begin)
  also have "\<dots> = (TxDone wc_params r lo, d)"
    using finish_tx[OF tx] c tx by (auto simp: Configure_def wc_check wc_begin split: if_splits)
  finally have "xm_pc z' 0 = TxDone wc_params r lo" "xm_d z' = d" using n(2) by simp_all
  then show ?thesis using reachable_run[OF r1 n(1)] c by blast
qed

theorem configures_are_serializable_witness:
  "\<exists>z r lo. reachable (txm_init wc_daemon) (txm_step (\<lambda>_. wc_env False)) z \<and> cr_ok r \<and> (0, wc_params, r, lo) \<in> set (xm_log z)"
proof -
  obtain z r d lo where z: "reachable (txm_init wc_daemon) (txm_step (\<lambda>_. wc_env False)) z" "cr_ok r"
    "xm_pc z 0 = TxDone wc_params r lo"
    using wt_run by blast
  have "\<not> refused wc_params r" using z(2) by (auto simp: refused_def rejection_def)
  then have "(0, wc_params, r, lo) \<in> set (xm_log z)" using configures_are_serializable[OF z(1)] z(3) by blast
  then show ?thesis using z by blast
qed

theorem mutations_meet_the_shown_backend_witness:
  "\<exists>z p m'. reachable (txm_init wc_daemon) (txm_step (\<lambda>_. wc_env False)) z \<and>
     register \<lparr>rq_action = Pause, rq_hash = [], rq_url = [], rq_delete = False, rq_ref = ''r''\<rparr> [] 0 (da_mut (xm_d z)) = (Inr p, m') \<and>
     pe_epoch p = s_epoch (da_sync (xm_d z))"
proof -
  define z where "z = \<lparr>xm_d = wc_daemon, xm_pc = (\<lambda>_. TxIdle), xm_log = []\<rparr>"
  have r: "reachable (txm_init wc_daemon) (txm_step (\<lambda>_. wc_env False)) z"
    by (rule reach_init) (simp add: txm_init_def z_def)
  let ?rq = "\<lparr>rq_action = Pause, rq_hash = [], rq_url = [], rq_delete = False, rq_ref = ''r''\<rparr>"
  have "\<exists>p m'. register ?rq [] 0 (da_mut (xm_d z)) = (Inr p, m')"
    by (simp add: register_def z_def wc_daemon_def new_mutator_def lookupRefLocked_def gomap_simps Let_def fill_mut_options_def)
  then obtain p m' where reg: "register ?rq [] 0 (da_mut (xm_d z)) = (Inr p, m')" by blast
  show ?thesis using mutations_meet_the_shown_backend[OF wc_daemon_ok r reg] r reg by blast
qed

end
