(* ===== verification/SecretTool.thy ===== *)
theory SecretTool
  imports Secrets
begin

text \<open>
  The production provider (internal/secrets/secrets.go) against its contract. \<open>secret_service\<close> is what the
  code relies on of \<^verbatim>\<open>secret-tool\<close>, as ADR-0009 and the script in secrets_test.go document it: \<^verbatim>\<open>store\<close> keeps
  the bytes of its standard input, \<^verbatim>\<open>lookup\<close> prints them with one line feed or exits with 1 and no output,
  \<^verbatim>\<open>clear\<close> removes them. Under it the three operations are a \<open>secret_provider\<close>, and a \<open>steady_provider\<close>
  when the service keeps answering. The script of the tests is the instance.
\<close>

section \<open>What is known of secret-tool\<close>

abbreviation store_args :: "string list" where
  "store_args \<equiv> [''store'', ''--label=OmaTorrent qBittorrent WebUI password''] @ attrArgs"

abbreviation lookup_args :: "string list" where
  "lookup_args \<equiv> [''lookup''] @ attrArgs"

abbreviation clear_args :: "string list" where
  "clear_args \<equiv> [''clear''] @ attrArgs"

locale secret_service =
  fixes run :: "'s runner"
    and held :: "'s \<Rightarrow> string option"
  assumes store_kept: "run store_args (Some x) s = ((out, None), s') \<Longrightarrow>
      held s' = Some x"
    and store_error: "run store_args (Some x) s = ((out, Some e), s') \<Longrightarrow>
      held s' = held s"
    and lookup_found: "run lookup_args None s = ((out, None), s') \<Longrightarrow> \<exists>v. held s = Some v \<and> out = v @ [CHR 0x0A]"
    and lookup_missing: "run lookup_args None s = (([], Some (ExitCode 1)), s') \<Longrightarrow> held s = None"
    and lookup_keeps: "run lookup_args None s = (r, s') \<Longrightarrow> held s' = held s"
    and clear_removes: "run clear_args None s = ((out, None), s') \<Longrightarrow> held s' = None"
    and clear_error: "run clear_args None s = ((out, Some e), s') \<Longrightarrow> held s' = held s"
begin

text \<open>What the provider can report: an empty item counts as none.\<close>

definition visible :: "'s \<Rightarrow> string option" where
  "visible s = (if held s = Some [] then None else held s)"

lemma tool_Store_ok: "tool_Store run x s = (True, s') \<Longrightarrow> x \<noteq> [] \<and> held s' = Some x"
  using store_kept by (auto simp: tool_Store_def split: if_splits prod.splits)

lemma tool_Store_failed: "tool_Store run x s = (False, s') \<Longrightarrow> held s' = held s"
  using store_error by (auto simp: tool_Store_def split: if_splits prod.splits)

lemma tool_Delete_ok: "tool_Delete run s = (True, s') \<Longrightarrow> held s' = None"
  using clear_removes by (auto simp: tool_Delete_def split: prod.splits)

lemma tool_Delete_failed: "tool_Delete run s = (False, s') \<Longrightarrow> held s' = held s"
  using clear_error by (auto simp: tool_Delete_def split: prod.splits)

lemma tool_Get_value:
  assumes "tool_Get run s = (Some v, s')"
  shows "v = visible s"
proof -
  obtain out e s1 where r: "run lookup_args None s = ((out, e), s1)" by (metis surj_pair)
  show ?thesis
  proof (cases e)
    case None
    then obtain x where "held s = Some x" "out = x @ [CHR 0x0A]" using lookup_found r by blast
    then show ?thesis
      using assms r None by (auto simp: tool_Get_def visible_def strip_newline_def Let_def split: if_splits)
  next
    case (Some err)
    then have "err = ExitCode 1 \<and> out = [] \<and> v = None" using assms r by (auto simp: tool_Get_def split: if_splits)
    then show ?thesis using lookup_missing[of s s1] r Some by (simp add: visible_def)
  qed
qed

lemma tool_Get_keeps: "tool_Get run s = (r, s') \<Longrightarrow> held s' = held s"
  using lookup_keeps by (auto simp: tool_Get_def Let_def split: prod.splits option.splits if_splits)

end

sublocale secret_service \<subseteq> tool: secret_provider "tool_Store run" "tool_Get run" "tool_Delete run" visible
  by unfold_locales
    (auto dest: tool_Store_ok tool_Store_failed tool_Delete_ok tool_Delete_failed tool_Get_value tool_Get_keeps simp: visible_def)

text \<open>A service that has just changed the item can change it again.\<close>

locale steady_service = secret_service run held
  for run :: "'s runner" and held :: "'s \<Rightarrow> string option" +
  assumes again: "run args1 stdin1 s = ((out, None), s') \<Longrightarrow> args1 \<noteq> lookup_args \<Longrightarrow>
    args2 \<in> {store_args, clear_args} \<Longrightarrow>
    snd (fst (run args2 stdin2 s')) = None"

sublocale steady_service \<subseteq> steady_tool: steady_provider "tool_Store run" "tool_Get run" "tool_Delete run" visible
proof unfold_locales
  fix s prev s1 x s2
  assume g: "tool_Get run s = (Some prev, s1)" and c: "tool_Store run x s1 = (True, s2) \<or> tool_Delete run s1 = (True, s2)"
  from c obtain args stdin out where "run args stdin s1 = ((out, None), s2)" "args \<noteq> lookup_args"
    by (auto simp: tool_Store_def tool_Delete_def split: if_splits prod.splits)
  then have ag: "snd (fst (run store_args y s2)) = None" "snd (fst (run clear_args y s2)) = None" for y
    by (intro again; simp)+
  have "prev \<noteq> Some []" using tool_Get_value[OF g] by (auto simp: visible_def split: if_splits)
  then show "fst (case prev of Some y \<Rightarrow> tool_Store run y s2 | None \<Rightarrow> tool_Delete run s2)"
    using ag(1)[of prev] ag(2)[of None] by (auto simp: tool_Store_def tool_Delete_def split: option.splits prod.splits)
qed

section \<open>The script of the tests\<close>

text \<open>\<^verbatim>\<open>fakeTool\<close> of secrets_test.go: a file holds the item.\<close>

definition script_tool :: "string option spawn" where
  "script_tool p s =
     (case pr_args p of
        [] \<Rightarrow> (([], Some (ExitCode 8)), s)
      | a # _ \<Rightarrow>
          if a = ''store'' then (([], None), Some (case pr_stdin p of None \<Rightarrow> [] | Some x \<Rightarrow> x))
          else if a = ''lookup'' then
            (case s of None \<Rightarrow> (([], Some (ExitCode 1)), s) | Some x \<Rightarrow> ((x @ [CHR 0x0A], None), s))
          else if a = ''clear'' then (([], None), None)
          else (([], Some (ExitCode 8)), s))"

interpretation script: steady_service "run_tool bin environ script_tool" "\<lambda>s. s" for bin environ
  by unfold_locales
    (auto simp: run_tool_def script_tool_def attrArgs_def split: option.splits if_splits list.splits)

section \<open>Properties\<close>

text \<open>
  Under the documented behaviour of \<^verbatim>\<open>secret-tool\<close> the provider returns every secret as it was stored,
  bytes that end in line feeds included; a deleted secret is gone; an empty one is never stored; a
  failed operation changes nothing; and what is read is the stored secret or nothing, never another one.
\<close>

theorem secret_tool_roundtrip:
  assumes "secret_service run held"
  shows "(tool_Store run x s = (True, s1) \<and> tool_Get run s1 = (Some v, s2) \<longrightarrow> x \<noteq> [] \<and> v = Some x) \<and>
    (tool_Delete run s = (True, s1) \<and> tool_Get run s1 = (Some v, s2) \<longrightarrow> v = None) \<and>
    (tool_Store run x s = (False, s1) \<or> tool_Delete run s = (False, s1) \<or> tool_Get run s = (r, s1) \<longrightarrow> held s1 = held s) \<and>
    (tool_Get run s = (Some (Some y), s1) \<longrightarrow> held s = Some y)"
proof -
  note S = secret_service.tool_Store_ok[OF assms] secret_service.tool_Store_failed[OF assms]
  note D = secret_service.tool_Delete_ok[OF assms] secret_service.tool_Delete_failed[OF assms]
  note G = secret_service.tool_Get_value[OF assms] secret_service.tool_Get_keeps[OF assms]
  note vis = secret_service.visible_def[OF assms]
  show ?thesis
    using S[of x s s1] D[of s s1] G(1)[of s1 v s2] G(1)[of s "Some y" s1] G(2)[of s r s1]
    by (auto simp: vis split: if_splits)
qed


text \<open>The processes that an operation starts.\<close>

definition logged_spawn :: "'s spawn \<Rightarrow> ('s \<times> process list) spawn" where
  "logged_spawn spawn p sl = (case spawn p (fst sl) of (r, s1) \<Rightarrow> (r, (s1, snd sl @ [p])))"

datatype secret_op = OpStore string | OpGet | OpDelete

definition secret_effect :: "'s runner \<Rightarrow> secret_op \<Rightarrow> 's \<Rightarrow> 's" where
  "secret_effect run op s = (case op of
     OpStore x \<Rightarrow> snd (tool_Store run x s) | OpGet \<Rightarrow> snd (tool_Get run s) | OpDelete \<Rightarrow> snd (tool_Delete run s))"

lemma minimalEnv_kept: "set (minimalEnv environ) = {kv \<in> set environ. \<exists>keep \<in> set kept_variables. has_prefix keep kv}"
  by (auto simp: minimalEnv_def)

lemma command_env_kept: "\<exists>kv \<in> set environ. \<exists>keep \<in> set kept_variables. has_prefix keep kv \<Longrightarrow>
    set (command_env environ) = {kv \<in> set environ. \<exists>keep \<in> set kept_variables. has_prefix keep kv}"
  using minimalEnv_kept[of environ] by (cases "minimalEnv environ") (auto simp: command_env_def)

text \<open>An environment without any of the seven variables is passed on as a whole.\<close>

lemma command_env_unfiltered: "\<forall>kv \<in> set environ. \<forall>keep \<in> set kept_variables. \<not> has_prefix keep kv \<Longrightarrow>
    command_env environ = environ"
proof -
  assume "\<forall>kv \<in> set environ. \<forall>keep \<in> set kept_variables. \<not> has_prefix keep kv"
  then have "set (minimalEnv environ) = {}" unfolding minimalEnv_kept by blast
  then show ?thesis by (simp add: command_env_def)
qed

definition the_seven :: "string list" where
  "the_seven = [''PATH='', ''HOME='', ''DBUS_SESSION_BUS_ADDRESS='', ''XDG_RUNTIME_DIR='', ''LANG='', ''LC_ALL='', ''LC_CTYPE='']"

lemma command_env_set:
  "set (command_env environ) =
     (let kept = {kv \<in> set environ. \<exists>v \<in> set the_seven. has_prefix v kv} in if kept = {} then set environ else kept)"
proof -
  have "kept_variables = the_seven" by (simp add: kept_variables_def the_seven_def)
  then show ?thesis
    using command_env_kept[of environ] command_env_unfiltered[of environ] by (auto simp: Let_def)
qed

text \<open>
  C29. The secret crosses standard input only. Whatever \<^verbatim>\<open>secret-tool\<close> does, an operation starts at most one
  process. It has one of three fixed command lines; its environment holds the variables of seven names
  and no other as long as one of the seven is set, and is the whole environment of the daemon when none is (see
  the finding on \<^verbatim>\<open>minimalEnv\<close>); in either case neither depends on the secret. Only \<^verbatim>\<open>store\<close> gets any input, and
  it gets the secret, which is not empty.
\<close>

theorem secret_crosses_stdin_only:
  "\<exists>ps. snd (secret_effect (run_tool binPath environ (logged_spawn spawn)) op (s, old)) = old @ ps \<and> length ps \<le> 1 \<and>
    (\<forall>p \<in> set ps. pr_program p = tool binPath \<and> pr_args p \<in> {store_args, lookup_args, clear_args} \<and>
       set (pr_env p) = (let kept = {kv \<in> set environ. \<exists>v \<in> set the_seven. has_prefix v kv} in
         if kept = {} then set environ else kept) \<and>
       (case pr_stdin p of None \<Rightarrow> True | Some x \<Rightarrow> x \<noteq> [] \<and> op = OpStore x))"
proof (cases op)
  case (OpStore x)
  then show ?thesis
    by (cases "x = []")
      (auto simp: secret_effect_def tool_Store_def run_tool_def logged_spawn_def command_env_set split: prod.splits)
next
  case OpGet
  then show ?thesis
    by (auto simp: secret_effect_def tool_Get_def run_tool_def logged_spawn_def command_env_set Let_def
        split: prod.splits option.splits if_splits)
next
  case OpDelete
  then show ?thesis
    by (auto simp: secret_effect_def tool_Delete_def run_tool_def logged_spawn_def command_env_set split: prod.splits)
qed

theorem secret_tool_roundtrip_witness:
  "tool_Get (run_tool [] [] script_tool) (snd (tool_Store (run_tool [] [] script_tool) [CHR ''a'', CHR 0x0A] None)) =
     (Some (Some [CHR ''a'', CHR 0x0A]), Some [CHR ''a'', CHR 0x0A])"
proof -
  let ?run = "run_tool [] [] script_tool"
  have st: "tool_Store ?run [CHR ''a'', CHR 0x0A] None = (True, Some [CHR ''a'', CHR 0x0A])"
    by (simp add: tool_Store_def run_tool_def script_tool_def attrArgs_def)
  obtain v s2 where g: "tool_Get ?run (Some [CHR ''a'', CHR 0x0A]) = (Some v, s2)"
    by (simp add: tool_Get_def run_tool_def script_tool_def attrArgs_def strip_newline_def Let_def)
  have sv: "secret_service ?run (\<lambda>s. s)" by (rule script.secret_service_axioms)
  have "v = Some [CHR ''a'', CHR 0x0A]"
    using secret_tool_roundtrip[OF sv, of "[CHR ''a'', CHR 0x0A]" None "Some [CHR ''a'', CHR 0x0A]" v s2] st g by simp
  moreover have "s2 = Some [CHR ''a'', CHR 0x0A]"
    using secret_tool_roundtrip[OF sv, of "[]" "Some [CHR ''a'', CHR 0x0A]" s2 None s2 "Some v"] g by simp
  ultimately show ?thesis using st g by simp
qed

theorem secret_crosses_stdin_only_witness:
  "\<exists>ps. snd (secret_effect (run_tool [] [''PATH=/bin'', ''SECRET=x''] (logged_spawn script_tool)) (OpStore ''pw'') (None, [])) = ps \<and>
     length ps = 1 \<and> (\<forall>p \<in> set ps. pr_stdin p = Some ''pw'' \<and> set (pr_env p) = {''PATH=/bin''})"
proof -
  let ?env = "[''PATH=/bin'', ''SECRET=x'']"
  let ?run = "run_tool [] ?env (logged_spawn script_tool)"
  let ?fin = "secret_effect ?run (OpStore ''pw'') (None, [])"
  from secret_crosses_stdin_only[of "[]" ?env script_tool "OpStore ''pw''" None "[]"] obtain ps where
    ps: "snd ?fin = ps" "\<forall>p \<in> set ps. set (pr_env p) = (let kept = {kv \<in> set ?env. \<exists>v \<in> set the_seven. has_prefix v kv} in
      if kept = {} then set ?env else kept)"
    by auto
  have "{kv \<in> set ?env. \<exists>v \<in> set the_seven. has_prefix v kv} = {''PATH=/bin''}"
    by (auto simp: the_seven_def has_prefix_def)
  moreover have "length (snd ?fin) = 1" "\<forall>p \<in> set (snd ?fin). pr_stdin p = Some ''pw''"
    by (simp_all add: secret_effect_def tool_Store_def run_tool_def logged_spawn_def script_tool_def)
  ultimately show ?thesis using ps by (auto simp: Let_def)
qed

end
