(* ===== verification/Probe.thy ===== *)
theory Probe
  imports RequestProps ProtocolProps
begin

text \<open>
  The probe (cmd/ot-probe/main.go), a minimal client: it chooses the socket, says hello, asks once for
  the health and \<open>n\<close> times for the status with a pause between two of them, and prints the answers.
  \<open>exchange\<close> is one \<^verbatim>\<open>send\<close>: the line goes out with a line feed and the next line comes back, None when writing
  or reading fails; \<open>pause\<close> is what a pause of so many nanoseconds does to the connection.
  \<open>talk\<close> is the exchange with the server of this development, so that the property is end to end: from
  the text that the client writes, through framing, parsing, handshake, dispatch, encoding, queue and
  writer, to the text that it prints; \<open>sleep_on\<close> is the idle deadline of that server, 30 seconds without a request. The
  count is below MaxInt64, so the ids do not wrap.
\<close>

section \<open>The client\<close>

definition probe_path :: "(string \<Rightarrow> string \<Rightarrow> string) \<Rightarrow> (string \<Rightarrow> string) \<Rightarrow> string \<Rightarrow> string option" where
  "probe_path join getenv socket =
     (if socket \<noteq> [] then Some socket
      else if getenv ''XDG_RUNTIME_DIR'' = [] then None
      else Some (join (join (getenv ''XDG_RUNTIME_DIR'') ''omatorrent'') ''service.sock''))"

definition hello_line :: string where
  "hello_line = ''{\"type\":\"hello\",\"protocol\":1}''"

definition health_line :: string where
  "health_line = ''{\"type\":\"health\",\"id\":1}''"

definition status_line :: "int \<Rightarrow> string" where
  "status_line i = ''{\"type\":\"system.status\",\"id\":'' @ int_string i @ ''}''"

datatype probe_action = Send string | Pause int

definition probe_actions :: "int \<Rightarrow> int \<Rightarrow> probe_action list" where
  "probe_actions interval n = [Send hello_line, Send health_line] @
     concat (List.map (\<lambda>i. Send (status_line (i + 1)) # (if i < n then [Pause interval] else [])) [1..n])"

type_synonym 'c exchange = "string \<Rightarrow> 'c \<Rightarrow> string option \<times> 'c"

text \<open>What is printed, the exit code, and the connection; a failed exchange ends the program.\<close>

fun probe_loop :: "'c exchange \<Rightarrow> (int \<Rightarrow> 'c \<Rightarrow> 'c) \<Rightarrow> probe_action list \<Rightarrow> string list \<Rightarrow> 'c \<Rightarrow> string list \<times> nat \<times> 'c" where
  "probe_loop ex pause [] printed c = (printed, 0, c)"
| "probe_loop ex pause (Send l # as) printed c =
     (case ex l c of
        (None, c1) \<Rightarrow> (printed, 1, c1)
      | (Some r, c1) \<Rightarrow> probe_loop ex pause as (printed @ [r]) c1)"
| "probe_loop ex pause (Pause d # as) printed c = probe_loop ex pause as printed (pause d c)"

definition probe_main :: "(string \<Rightarrow> string \<Rightarrow> string) \<Rightarrow> (string \<Rightarrow> string) \<Rightarrow> (string \<Rightarrow> 'c option) \<Rightarrow> 'c exchange \<Rightarrow>
    (int \<Rightarrow> 'c \<Rightarrow> 'c) \<Rightarrow> string \<Rightarrow> int \<Rightarrow> int \<Rightarrow> string list \<times> nat" where
  "probe_main join getenv dial ex pause socket interval n =
     (case probe_path join getenv socket of
        None \<Rightarrow> ([], 1)
      | Some p \<Rightarrow>
          (case dial p of
             None \<Rightarrow> ([], 1)
           | Some c \<Rightarrow> (case probe_loop ex pause (probe_actions interval n) [] c of (printed, rc, _) \<Rightarrow> (printed, rc))))"

section \<open>The exchange with the server\<close>

text \<open>On connection \<open>k\<close>: the request loop takes the line, and the writer gets its turn.\<close>

definition serve_line :: "(real \<Rightarrow> string) \<Rightarrow> 'd services \<Rightarrow> nat \<Rightarrow> string \<Rightarrow> 'd server \<Rightarrow> 'd server" where
  "serve_line ff sv k l sr =
     (let r = fst (readRequest (l @ [CHR 0x0A])) in
      if sr_phase sr k = Handshake then first_frame ff k True r sr
      else if sr_phase sr k = Gone then sr
      else on_io k (writer_turn True) (next_frame ff sv 0 (\<lambda>_ c. c) k r sr))"

definition talk :: "(real \<Rightarrow> string) \<Rightarrow> 'd services \<Rightarrow> nat \<Rightarrow> 'd server exchange" where
  "talk ff sv k l sr =
     (let sr1 = serve_line ff sv k l sr in
      case drop (length (io_wire (sr_io sr k))) (io_wire (sr_io sr1 k)) of
        [] \<Rightarrow> (None, sr1) | f # _ \<Rightarrow> (Some f, sr1))"

text \<open>A client that pauses for the idle deadline finds that the handler has left: its read has failed.\<close>

definition idleReadDeadline :: int where "idleReadDeadline = 30000000000"

definition sleep_on :: "(real \<Rightarrow> string) \<Rightarrow> 'd services \<Rightarrow> nat \<Rightarrow> int \<Rightarrow> 'd server \<Rightarrow> 'd server" where
  "sleep_on ff sv k d sr =
     (if d \<ge> idleReadDeadline \<and> sr_phase sr k = Ready then next_frame ff sv 0 (\<lambda>_ c. c) k (Inl ReadEOF) sr else sr)"

section \<open>The lines parse\<close>

lemma int_string_one: "int_string 1 = ''1''"
  by code_simp

lemma probe_line_json:
  "hello_line = marshal ff (request_json (no_request\<lparr>q_type := ''hello'', q_protocol := 1\<rparr>) [''type'', ''protocol''])"
  "health_line = marshal ff (request_json (no_request\<lparr>q_type := ''health'', q_id := 1\<rparr>) [''type'', ''id''])"
  "status_line i = marshal ff (request_json (no_request\<lparr>q_type := ''system.status'', q_id := i\<rparr>) [''type'', ''id''])"
  by (simp_all add: hello_line_def health_line_def status_line_def request_json_def request_value_def encode_plain
      plain_eval plain_char_def int_string_one)

lemma probe_line_parse:
  "parseFrame hello_line = Some (no_request\<lparr>q_type := ''hello'', q_protocol := 1\<rparr>)"
  "parseFrame health_line = Some (no_request\<lparr>q_type := ''health'', q_id := 1\<rparr>)"
  "int64 i \<Longrightarrow> parseFrame (status_line i) = Some (no_request\<lparr>q_type := ''system.status'', q_id := i\<rparr>)"
proof -
  have u: "utf8_valid ''hello''" "utf8_valid ''health''" "utf8_valid ''system.status''"
    by (rule utf8_plain, simp add: plain_eval plain_char_def)+
  note defs = request_keys_def key_sets_def need_def conn_keys_def valid_field_def request_value_def no_request_def u int64_defs
  show "parseFrame hello_line = Some (no_request\<lparr>q_type := ''hello'', q_protocol := 1\<rparr>)"
    unfolding probe_line_json(1)[of "\<lambda>_. []"] by (rule request_roundtrip_raw) (simp_all add: defs, (auto)?)
  show "parseFrame health_line = Some (no_request\<lparr>q_type := ''health'', q_id := 1\<rparr>)"
    unfolding probe_line_json(2)[of "\<lambda>_. []"] by (rule request_roundtrip_raw) (simp_all add: defs, (auto)?)
  show "parseFrame (status_line i) = Some (no_request\<lparr>q_type := ''system.status'', q_id := i\<rparr>)" if "int64 i"
    unfolding probe_line_json(3)[of i "\<lambda>_. []"] by (rule request_roundtrip_raw) (use that in \<open>simp_all add: defs, (auto)?\<close>)
qed

section \<open>End to end\<close>

lemma read_line:
  assumes "parseFrame l = Some q" "CHR 0x0A \<notin> set l" "length l < MaxFrame"
  shows "fst (readRequest (l @ [CHR 0x0A])) = Inr q"
proof -
  have tw: "takeWhile (\<lambda>c. c \<noteq> CHR 0x0A) (l @ [CHR 0x0A]) = l" using assms(2) by (induction l) auto
  have "CHR 0x0A \<in> set (take MaxFrame (l @ [CHR 0x0A]))" using assms(3) by simp
  from read_loop_line[OF this, of "[]"] show ?thesis
    using assms by (simp add: readRequest_def tw)
qed

lemma probe_line_plain:
  "CHR 0x0A \<notin> set hello_line" "CHR 0x0A \<notin> set health_line" "CHR 0x0A \<notin> set (status_line i)"
  "length hello_line < MaxFrame" "length health_line < MaxFrame" "int64 i \<Longrightarrow> length (status_line i) < MaxFrame"
proof -
  have "printing c \<Longrightarrow> c \<noteq> CHR 0x0A" for c by (auto simp: printing_def)
  then have "CHR 0x0A \<notin> set (int_string i)" for i using printing_int_string by (auto simp: list_all_iff)
  then show "CHR 0x0A \<notin> set (status_line i)" by (simp add: status_line_def)
  show "int64 i \<Longrightarrow> length (status_line i) < MaxFrame"
    using length_int_string[of i] by (simp add: status_line_def MaxFrame_def)
qed (simp_all add: hello_line_def health_line_def MaxFrame_def)

text \<open>A connection whose client waits for nothing.\<close>

definition settled_conn :: "nat \<Rightarrow> 'd server \<Rightarrow> bool" where
  "settled_conn k sr \<longleftrightarrow> sr_phase sr k = Ready \<and> io_out (sr_io sr k) = [] \<and> \<not> io_closed (sr_io sr k)"

lemma talk_hello:
  assumes "sr_phase sr k = Handshake" "\<not> io_closed (sr_io sr k)" "io_out (sr_io sr k) = []"
  shows "\<exists>sr1. talk ff sv k hello_line sr = (Some (line (EncodeHello ff)), sr1) \<and> settled_conn k sr1 \<and> sr_data sr1 = sr_data sr"
  using read_line[OF probe_line_parse(1) probe_line_plain(1,4)] assms
  by (simp add: talk_def serve_line_def first_frame_def handshake_def writeFrame_def start_writer_def settled_conn_def
      ProtocolVersion_def Let_def no_request_def)

lemma talk_answer:
  assumes "settled_conn k sr" "parseFrame l = Some q" "CHR 0x0A \<notin> set l" "length l < MaxFrame"
    and "dispatch ff sv (io_subscribed (sr_io sr k)) q (sr_data sr) = (Answer f, sr_data sr)"
  shows "\<exists>sr1. talk ff sv k l sr = (Some (line f), sr1) \<and> settled_conn k sr1 \<and> sr_data sr1 = sr_data sr"
  using read_line[OF assms(2-4)] assms(1,5)
  by (simp add: talk_def serve_line_def next_frame_def answer_on_def send_def enqueue_def alive_def on_io_def
      writer_turn_def settled_conn_def outQueue_def Let_def)

lemma talk_status:
  assumes "settled_conn k sr" "int64 (i + 1)" "se_status sv (sr_data sr) = (st, ok)"
  shows "\<exists>sr1. talk ff sv k (status_line (i + 1)) sr = (Some (line (EncodeStatus ff (i + 1) ok st)), sr1) \<and>
    settled_conn k sr1 \<and> sr_data sr1 = sr_data sr"
proof -
  have "dispatch ff sv sb (no_request\<lparr>q_type := ''system.status'', q_id := i + 1\<rparr>) (sr_data sr) =
      (Answer (EncodeStatus ff (i + 1) ok st), sr_data sr)" for sb
    using assms(3) by (simp add: dispatch_def no_request_def)
  from talk_answer[OF assms(1) probe_line_parse(3)[OF assms(2)] probe_line_plain(3) probe_line_plain(6)[OF assms(2)] this]
  show ?thesis by blast
qed

abbreviation statuses :: "int \<Rightarrow> int \<Rightarrow> int list \<Rightarrow> probe_action list" where
  "statuses d n is \<equiv> concat (List.map (\<lambda>i. Send (status_line (i + 1)) # (if i < n then [Pause d] else [])) is)"

lemma probe_statuses:
  assumes "settled_conn k sr" "\<forall>i \<in> set is. int64 (i + 1)" "se_status sv (sr_data sr) = (st, ok)" "d < idleReadDeadline"
  shows "\<exists>sr1. probe_loop (talk ff sv k) (sleep_on ff sv k) (statuses d n is) printed sr =
    (printed @ List.map (\<lambda>i. line (EncodeStatus ff (i + 1) ok st)) is, 0, sr1)"
  using assms
proof (induction "is" arbitrary: printed sr)
  case (Cons i js)
  obtain sr1 where sr1: "talk ff sv k (status_line (i + 1)) sr = (Some (line (EncodeStatus ff (i + 1) ok st)), sr1)"
    "settled_conn k sr1" "sr_data sr1 = sr_data sr"
    using talk_status[OF Cons.prems(1) _ Cons.prems(3)] Cons.prems(2) by force
  have "sleep_on ff sv k d sr1 = sr1" using Cons.prems(4) by (simp add: sleep_on_def)
  then show ?case
    using Cons.IH[of sr1 "printed @ [line (EncodeStatus ff (i + 1) ok st)]"] Cons.prems(2-4) sr1 by auto
qed simp

text \<open>After a pause as long as the idle deadline nothing comes back.\<close>

lemma talk_idle:
  assumes "settled_conn k sr" "idleReadDeadline \<le> d"
  shows "fst (talk ff sv k l (sleep_on ff sv k d sr)) = None"
  using assms
  by (simp add: talk_def serve_line_def sleep_on_def next_frame_def leave_def on_io_def settled_conn_def Let_def read_failed_def)

text \<open>
  C19. End to end, for every number of status requests: on a connection that was just accepted the probe
  prints the service's hello, the health and \<open>n\<close> times the status that the services report, each
  with the id of its request, and exits with 0, as long as its pauses are shorter than the 30 seconds after
  which the server drops an idle client. With longer pauses and two requests or more it prints the
  first status, finds the connection closed and exits with 1.
\<close>

theorem probe_shows_the_daemon:
  assumes "sr_phase sr k = Handshake" "sr_io sr k = newConnIO" "n < max_int64"
    and "dial p = Some sr" "probe_path join getenv socket = Some p" "se_status sv (sr_data sr) = (st, ok)"
  shows "probe_main join getenv dial (talk ff sv k) (sleep_on ff sv k) socket interval n =
    (if n \<le> 1 \<or> interval < 30 * 10 ^ 9
     then ([line (EncodeHello ff), line (EncodeHealth ff 1 (se_health sv (sr_data sr)))] @
       List.map (\<lambda>i. line (EncodeStatus ff (i + 1) ok st)) [1..n], 0)
     else ([line (EncodeHello ff), line (EncodeHealth ff 1 (se_health sv (sr_data sr))), line (EncodeStatus ff 2 ok st)], 1))"
proof -
  let ?ex = "talk ff sv k" and ?pause = "sleep_on ff sv k"
  obtain s1 where s1: "?ex hello_line sr = (Some (line (EncodeHello ff)), s1)" "settled_conn k s1" "sr_data s1 = sr_data sr"
    using talk_hello[of sr k ff sv] assms(1,2) by (auto simp: newConnIO_def)
  have "dispatch ff sv sb (no_request\<lparr>q_type := ''health'', q_id := 1\<rparr>) (sr_data s1) =
      (Answer (EncodeHealth ff 1 (se_health sv (sr_data sr))), sr_data s1)" for sb
    by (simp add: dispatch_def no_request_def s1(3))
  from talk_answer[OF s1(2) probe_line_parse(2) probe_line_plain(2,5) this]
  obtain s2 where s2: "?ex health_line s1 = (Some (line (EncodeHealth ff 1 (se_health sv (sr_data sr)))), s2)"
    "settled_conn k s2" "sr_data s2 = sr_data sr"
    using s1(3) by auto
  have st: "se_status sv (sr_data s2) = (st, ok)" using s2(3) assms(6) by simp
  have ids: "int64 (i + 1)" if "i \<in> set [1..n]" for i using assms(3) that by (auto simp: int64_defs)
  let ?two = "[line (EncodeHello ff), line (EncodeHealth ff 1 (se_health sv (sr_data sr)))]"
  have main: "probe_main join getenv dial ?ex ?pause socket interval n =
      (case probe_loop ?ex ?pause (statuses interval n [1..n]) ?two s2 of (printed, rc, _) \<Rightarrow> (printed, rc))"
    using assms(4,5) s1(1) s2(1) by (simp add: probe_main_def probe_actions_def)
  consider (one) "n = 1" | (none) "n < 1" | (short) "interval < idleReadDeadline" | (long) "1 < n" "idleReadDeadline \<le> interval"
    by linarith
  then show ?thesis
  proof cases
    case one
    obtain s3 where "probe_loop ?ex ?pause (statuses 0 n [1..n]) ?two s2 =
        (?two @ List.map (\<lambda>i. line (EncodeStatus ff (i + 1) ok st)) [1..n], 0, s3)"
      using probe_statuses[OF s2(2) _ st, of "[1..n]" 0 ff n ?two] ids by (auto simp: idleReadDeadline_def)
    moreover have "statuses interval n [1..n] = statuses 0 n [1..n]" using one by simp
    ultimately show ?thesis unfolding main using one by simp
  next
    case none
    then show ?thesis by (simp add: main)
  next
    case short
    obtain s3 where "probe_loop ?ex ?pause (statuses interval n [1..n]) ?two s2 =
        (?two @ List.map (\<lambda>i. line (EncodeStatus ff (i + 1) ok st)) [1..n], 0, s3)"
      using probe_statuses[OF s2(2) _ st short, of "[1..n]" ff n ?two] ids by auto
    then show ?thesis using short by (simp add: main idleReadDeadline_def)
  next
    case long
    have up: "[1..n] = 1 # 2 # [3..n]" using long(1) by (simp add: upto_rec1)
    obtain s3 where s3: "?ex (status_line 2) s2 = (Some (line (EncodeStatus ff 2 ok st)), s3)" "settled_conn k s3"
      using talk_status[OF s2(2) _ st, of 1 ff] by (auto simp: int64_defs)
    obtain s4 where "?ex (status_line 3) (?pause interval s3) = (None, s4)"
      using talk_idle[OF s3(2) long(2), of ff sv "status_line 3"] by (metis prod.collapse)
    then show ?thesis
      using s3(1) long by (simp add: main up idleReadDeadline_def)
  qed
qed

definition quiet_services :: "unit services" where
  "quiet_services = idle\<lparr>se_status := (\<lambda>_. (\<lparr>sd_app = ''v5.0'', sd_api = ''2.11'', sd_dl = 0, sd_up = 0, sd_total = 3\<rparr>, True))\<rparr>"

theorem probe_shows_the_daemon_witness:
  "\<exists>printed. probe_main (\<lambda>a b. a @ ''/'' @ b) (\<lambda>_. ''/run'') (\<lambda>_. Some (accept (new_server ())))
     (talk (\<lambda>_. ''0'') quiet_services 0) (sleep_on (\<lambda>_. ''0'') quiet_services 0) [] 2000000000 2 = (printed, 0) \<and> length printed = 4 \<and>
     snd (probe_main (\<lambda>a b. a @ ''/'' @ b) (\<lambda>_. ''/run'') (\<lambda>_. Some (accept (new_server ())))
       (talk (\<lambda>_. ''0'') quiet_services 0) (sleep_on (\<lambda>_. ''0'') quiet_services 0) [] 31000000000 2) = 1"
proof -
  have k: "sr_phase (accept (new_server ())) 0 = Handshake" "sr_io (accept (new_server ())) 0 = newConnIO"
    by (simp_all add: accept_def new_server_def maxClients_def Let_def)
  have p: "probe_path (\<lambda>a b. a @ ''/'' @ b) (\<lambda>_. ''/run'') [] = Some ''/run/omatorrent/service.sock''"
    by (simp add: probe_path_def)
  obtain st ok where s: "se_status quiet_services (sr_data (accept (new_server ()))) = (st, ok)" by force
  have "[1..2::int] = [1, 2]" by (simp add: upto.simps)
  with probe_shows_the_daemon[OF k _ _ p s, of 2 "\<lambda>_. Some (accept (new_server ()))" "\<lambda>_. ''0''" 2000000000]
    probe_shows_the_daemon[OF k _ _ p s, of 2 "\<lambda>_. Some (accept (new_server ()))" "\<lambda>_. ''0''" 31000000000] show ?thesis
    by (simp add: max_int64_def)
qed

end
