(* ===== verification/Startup.thy ===== *)
theory Startup
  imports DaemonProps SocketProps
begin

text \<open>
  The start and the end of the service: \<^verbatim>\<open>run\<close> of cmd/omatorrent-service/main.go. \<open>start_daemon\<close> is everything
  up to the accept loop, in the order of the code: configuration, profile and client, socket path,
  socket; the first error ends it. \<open>serve_loop\<close> is the accept loop of the server, and \<open>stop_daemon\<close> the end of
  \<^verbatim>\<open>run\<close>: what it waits for, and the removal of the socket. The profile and the configuration are in the file system of Store, the socket in the one of SocketPath.
\<close>

section \<open>The start\<close>

text \<open>The flags, the environment and the outside of a process.\<close>

record ('s, 'w) launch =
  la_config :: string
  la_socket :: string
  la_connection :: string
  la_getenv :: "string \<Rightarrow> string"
  la_join :: "string \<Rightarrow> string \<Rightarrow> string"
  la_to_path :: "string \<Rightarrow> path"
  la_decode_config :: "string \<Rightarrow> config option"
  la_decode_profile :: "string \<Rightarrow> profile option"
  la_env :: "('s, 'w) env"
  la_sec :: 's
  la_fs :: fs
  la_uid :: nat
  la_dev :: nat
  la_dir_ino :: nat
  la_ino :: nat

record ('s, 'w) running =
  ru_config :: config
  ru_daemon :: "('s, 'w) daemon"
  ru_path :: string
  ru_self :: sock_id

text \<open>The configuration with the flag for the socket.\<close>

definition launch_config :: "('s, 'w) launch \<Rightarrow> string + config" where
  "launch_config la =
     (case Load (la_join la) (la_to_path la) (la_decode_config la) (la_getenv la) (e_readFails (la_env la)) (la_fs la) (la_config la) of
        Inl e \<Rightarrow> Inl e
      | Inr cfg \<Rightarrow> Inr (if la_socket la \<noteq> [] then cfg\<lparr>cg_socket := la_socket la\<rparr> else cfg))"

definition launch_env :: "('s, 'w) launch \<Rightarrow> ('s, 'w) env" where
  "launch_env la = (la_env la)\<lparr>e_path := la_to_path la (connection_path (la_join la) (la_getenv la) (la_connection la))\<rparr>"

definition start_daemon :: "(real \<Rightarrow> string) \<Rightarrow> ('s, 'w) launch \<Rightarrow> (nat \<Rightarrow> osys \<Rightarrow> osys) \<Rightarrow> osys \<Rightarrow>
    (string + ('s, 'w) running) \<times> osys" where
  "start_daemon ff la intf w =
     (case launch_config la of
        Inl e \<Rightarrow> (Inl e, w)
      | Inr cfg \<Rightarrow>
          (case boot (la_decode_profile la) (launch_env la) cfg (la_sec la) (la_fs la) of
             Inl e \<Rightarrow> (Inl e, w)
           | Inr d \<Rightarrow>
               (case ResolveSocketPath (la_uid la) (la_dir_ino la) (la_getenv la ''XDG_RUNTIME_DIR'') (cg_socket cfg) w of
                  (Inl e, w1) \<Rightarrow> (Inl e, w1)
                | (Inr p, w1) \<Rightarrow>
                    (case serve_start ff (la_uid la) (la_dev la) (la_ino la) intf p w1 of
                       (Inl e, w2) \<Rightarrow> (Inl e, w2)
                     | (Inr self, w2) \<Rightarrow> (Inr \<lparr>ru_config = cfg, ru_daemon = d, ru_path = p, ru_self = self\<rparr>, w2)))))"

section \<open>The end\<close>

text \<open>
  The accept loop. Each turn is what the rest of the daemon did to the server meanwhile, and what
  \<^verbatim>\<open>Accept\<close> returned. The answer is None while the loop goes on, and then what \<^verbatim>\<open>Serve\<close> returns.
\<close>

datatype accept_event = Incoming | AcceptTimedOut | AcceptFailed

fun serve_loop :: "(('d server \<Rightarrow> 'd server) \<times> accept_event) list \<Rightarrow> 'd server \<Rightarrow> string option option \<times> 'd server" where
  "serve_loop [] sr = (None, sr)"
| "serve_loop ((env, Incoming) # es) sr = serve_loop es (accept (env sr))"
| "serve_loop ((env, AcceptTimedOut) # es) sr =
     (let sr1 = env sr in if sr_closing sr1 then (Some None, sr1) else serve_loop es sr1)"
| "serve_loop ((env, AcceptFailed) # es) sr =
     (let sr1 = env sr in if sr_closing sr1 then (Some None, sr1) else (Some (Some ''ipc: accept''), sr1))"

text \<open>What \<^verbatim>\<open>run\<close> waits for, and what it does then: in every case the server is closed.\<close>

datatype wake = ServeReturned "string option" | Cancelled

definition stop_daemon :: "wake \<Rightarrow> (osys \<Rightarrow> osys) \<Rightarrow> ('s, 'w) running \<Rightarrow> osys \<Rightarrow> string option \<times> osys" where
  "stop_daemon wk intf ru w =
     (let w1 = close_socket intf (ru_self ru) (ru_path ru) w in
      case wk of ServeReturned (Some e) \<Rightarrow> (Some e, w1) | ServeReturned None \<Rightarrow> (None, w1) | Cancelled \<Rightarrow> (None, w1))"

lemma stop_closes:
  "snd (stop_daemon wk intf ru w) = close_socket intf (ru_self ru) (ru_path ru) w"
  "fst (stop_daemon wk intf ru w) = (case wk of ServeReturned r \<Rightarrow> r | Cancelled \<Rightarrow> None)"
  by (simp_all add: stop_daemon_def Let_def split: wake.split option.split)

text \<open>The loop returns an error only while nobody closes the server, and no time-out ends it then.\<close>

lemma serve_loop_end:
  "serve_loop es sr = (Some r, sr') \<Longrightarrow> r = None \<longleftrightarrow> sr_closing sr'"
  by (induction es sr rule: serve_loop.induct) (auto simp: Let_def split: if_splits)

lemma serve_loop_error:
  "serve_loop es sr = (Some (Some e), sr') \<Longrightarrow> AcceptFailed \<in> snd ` set es"
  by (induction es sr rule: serve_loop.induct) (auto simp: Let_def split: if_splits)

section \<open>What a start touches\<close>

text \<open>Of what exists only a dead socket of the user, of mode 0600, may go; all else is left alone.\<close>

definition stale_socket :: "nat \<Rightarrow> osys \<Rightarrow> string \<Rightarrow> finfo \<Rightarrow> bool" where
  "stale_socket uid w p fi \<longleftrightarrow>
     fi_kind fi = KSocket \<and> fi_uid fi = uid \<and> fi_perm fi = 384 \<and> os_peer w p = PeerRefused"

definition careful :: "nat \<Rightarrow> osys \<Rightarrow> osys \<Rightarrow> bool" where
  "careful uid w w' \<longleftrightarrow> (\<forall>p fi. os_lstat w p = SysOk fi \<and> \<not> stale_socket uid w p fi \<longrightarrow> os_lstat w' p = SysOk fi)"

lemma careful_refl: "careful uid w w"
  by (simp add: careful_def)

text \<open>A socket that a failed start has left: its own, when the \<^verbatim>\<open>chmod\<close> or the \<^verbatim>\<open>stat\<close> failed.\<close>

definition left_over :: "nat \<Rightarrow> osys \<Rightarrow> string \<Rightarrow> finfo \<Rightarrow> bool" where
  "left_over uid w p fi \<longleftrightarrow>
     fi_uid fi = uid \<and> (os_chmodFails w p \<and> fi_perm fi = 448 \<or> os_statFails w p \<and> fi_perm fi = 384)"

lemma resolve_effect:
  assumes "ResolveSocketPath uid ino xrd explicit w = (r, w1)"
  shows "os_peer w1 = os_peer w" "os_lstat w p = SysOk fi \<Longrightarrow> os_lstat w1 p = SysOk fi"
    "os_lstat w1 p = SysOk fi \<Longrightarrow> fi_kind fi = KSocket \<Longrightarrow> os_lstat w p = SysOk fi"
    "os_chmodFails w1 = os_chmodFails w" "os_statFails w1 = os_statFails w"
  using assms
  by (auto simp: ResolveSocketPath_def ensureAppDir_def os_mkdir_def set_entry_def split: if_splits option.splits sysres.splits prod.splits)

lemma probe_dead: "probeLiveDaemon ff pr = Dead \<longleftrightarrow> pr = PeerRefused"
  by (auto simp: probeLiveDaemon_def split: peer.split)

lemma recover_effect:
  assumes "recoverStaleSocket ff uid undisturbed path w = (r, w1)"
  shows "os_lstat w p = SysOk fi \<Longrightarrow> \<not> stale_socket uid w p fi \<Longrightarrow> os_lstat w1 p = SysOk fi"
    "os_lstat w1 p = SysOk fi \<Longrightarrow> os_lstat w p = SysOk fi"
    "os_chmodFails w1 = os_chmodFails w" "os_statFails w1 = os_statFails w"
  using assms
  by (auto simp: recoverStaleSocket_def recover_probed_def undisturbed_def os_remove_def set_entry_def probe_dead stale_socket_def Let_def
      split: sysres.splits if_splits probe_verdict.splits prod.splits)

lemma serve_effect:
  assumes "serve_start ff uid dev ino undisturbed path w = (r, w1)"
  shows "os_lstat w p = SysOk fi \<Longrightarrow> \<not> stale_socket uid w p fi \<Longrightarrow> os_lstat w1 p = SysOk fi"
    "r = Inl e \<Longrightarrow> os_lstat w1 p = SysOk fi \<Longrightarrow> os_lstat w p = SysOk fi \<or> left_over uid w p fi"
proof -
  obtain rr wr where rec: "recoverStaleSocket ff uid undisturbed path w = (rr, wr)" by force
  note eff = recover_effect[OF rec]
  show "os_lstat w p = SysOk fi \<Longrightarrow> \<not> stale_socket uid w p fi \<Longrightarrow> os_lstat w1 p = SysOk fi"
    using assms eff(1)[of p fi]
    by (auto simp: serve_start_def rec undisturbed_def os_listen_def os_chmod_def set_entry_def Let_def
        split: option.splits sysres.splits if_splits prod.splits)
  show "r = Inl e \<Longrightarrow> os_lstat w1 p = SysOk fi \<Longrightarrow> os_lstat w p = SysOk fi \<or> left_over uid w p fi"
    using assms eff(2)[of p fi] eff(3,4)
    by (auto simp: serve_start_def rec undisturbed_def os_listen_def os_chmod_def set_entry_def left_over_def Let_def
        split: option.splits sysres.splits if_splits prod.splits)
qed

section \<open>Properties\<close>

lemma boot_daemon_ok:
  assumes "boot unmarshal env cfg sec fs = Inr d"
  shows "daemon_ok d" "\<exists>c. Validate (mg_profile (da_mgr d)) = Inr (mg_endpoint (da_mgr d)) \<and>
    buildClient env fs (mg_profile (da_mgr d)) (mg_endpoint (da_mgr d)) = Some c \<and> s_backend (da_sync d) = c"
  using assms by - (erule boot_cases; force simp: daemon_ok_def AttachClient_def new_manager_def new_syncer_def)+

lemma launch_config_clean: "launch_config la = Inr cfg \<Longrightarrow> cg_password cfg = []"
  by (auto simp: launch_config_def dest: config_fails_closed split: sum.splits if_splits)

text \<open>How a start ends: before the server is asked to listen, or with the answer of the server.\<close>

lemma start_cases:
  assumes "start_daemon ff la intf w = (r, w')"
  obtains (early) e where "r = Inl e" "w' = w"
  | (path) e ex where "r = Inl e"
      "ResolveSocketPath (la_uid la) (la_dir_ino la) (la_getenv la ''XDG_RUNTIME_DIR'') ex w = (Inl e, w')"
  | (served) cfg d p w1 rs where "launch_config la = Inr cfg"
      "boot (la_decode_profile la) (launch_env la) cfg (la_sec la) (la_fs la) = Inr d"
      "ResolveSocketPath (la_uid la) (la_dir_ino la) (la_getenv la ''XDG_RUNTIME_DIR'') (cg_socket cfg) w = (Inr p, w1)"
      "serve_start ff (la_uid la) (la_dev la) (la_ino la) intf p w1 = (rs, w')"
      "r = (case rs of Inl e \<Rightarrow> Inl e
         | Inr self \<Rightarrow> Inr \<lparr>ru_config = cfg, ru_daemon = d, ru_path = p, ru_self = self\<rparr>)"
  using assms unfolding start_daemon_def by (fastforce split: sum.splits prod.splits)

lemma failed_path_effect:
  assumes "ResolveSocketPath uid ino xrd ex w = (Inl e, w')"
  shows "careful uid w w' \<and> (\<forall>p fi. os_lstat w' p = SysOk fi \<and> fi_kind fi = KSocket \<longrightarrow> os_lstat w p = SysOk fi)"
  unfolding careful_def using resolve_effect(2,3)[OF assms] by blast

lemma served_effect:
  assumes "ResolveSocketPath uid dino xrd ex w = (Inr p, w1)" "serve_start ff uid dev ino undisturbed p w1 = (rs, w')"
  shows "careful uid w w'"
    "rs = Inl e \<Longrightarrow> os_lstat w' q = SysOk fi \<Longrightarrow> fi_kind fi = KSocket \<Longrightarrow> os_lstat w q = SysOk fi \<or> left_over uid w q fi"
proof -
  note res = resolve_effect[OF assms(1)] and srv = serve_effect[OF assms(2)]
  have same: "stale_socket uid w1 = stale_socket uid w" "left_over uid w1 = left_over uid w"
    by (simp_all add: fun_eq_iff stale_socket_def left_over_def res(1,4,5))
  show "careful uid w w'"
    unfolding careful_def using srv(1) res(2) by (auto simp: same)
  show "rs = Inl e \<Longrightarrow> os_lstat w' q = SysOk fi \<Longrightarrow> fi_kind fi = KSocket \<Longrightarrow> os_lstat w q = SysOk fi \<or> left_over uid w q fi"
    using srv(2)[of e q fi] res(3)[of q fi] same by auto
qed

text \<open>
  C22. What a start does, whether it succeeds or not. Of the entries of the file system that exist it removes
  at most a socket of the user with mode 0600 on which nobody listens. When it fails, every socket there is was
  there before, except for its own new one where the \<^verbatim>\<open>chmod\<close> or the \<^verbatim>\<open>stat\<close> after the listen failed: that
  one stays behind. When it succeeds the configuration holds no password, the manager, the syncer and the
  mutator use the client that was built from the valid profile in force, the daemon listens on a socket of
  its own that only its user can open, and removes that socket at its end, whether it was told to end or
  the server failed.
\<close>

theorem daemon_start_is_safe:
  assumes "start_daemon ff la undisturbed w = (r, w')" "la_ino la \<noteq> 0"
  shows "careful (la_uid la) w w' \<and>
    (case r of
       Inl e \<Rightarrow> \<forall>p fi. os_lstat w' p = SysOk fi \<and> fi_kind fi = KSocket \<longrightarrow>
         os_lstat w p = SysOk fi \<or> left_over (la_uid la) w p fi
     | Inr ru \<Rightarrow> cg_password (ru_config ru) = [] \<and> daemon_ok (ru_daemon ru) \<and>
         Validate (mg_profile (da_mgr (ru_daemon ru))) = Inr (mg_endpoint (da_mgr (ru_daemon ru))) \<and>
         buildClient (launch_env la) (la_fs la) (mg_profile (da_mgr (ru_daemon ru))) (mg_endpoint (da_mgr (ru_daemon ru))) =
           Some (s_backend (da_sync (ru_daemon ru))) \<and>
         (\<exists>fi. os_lstat w' (ru_path ru) = SysOk fi \<and> fi_kind fi = KSocket \<and> fi_uid fi = la_uid la \<and> fi_perm fi = 384) \<and>
         (\<not> os_locked w' (ru_path ru) \<longrightarrow> (\<forall>wk. os_lstat (snd (stop_daemon wk (undisturbed 0) ru w')) (ru_path ru) = SysAbsent)))"
  using assms(1)
proof (cases rule: start_cases)
  case (early e)
  then show ?thesis by (simp add: careful_refl)
next
  case (path e ex)
  then show ?thesis using failed_path_effect[OF path(2)] by simp
next
  case (served cfg d p w1 rs)
  note care = served_effect[OF served(3,4)]
  show ?thesis
  proof (cases rs)
    case (Inl e)
    then show ?thesis using care(1) care(2)[OF Inl] served(5) by simp
  next
    case (Inr self)
    then show ?thesis
      using care(1) launch_config_clean[OF served(1)] boot_daemon_ok[OF served(2)]
        socket_lifecycle_raw[OF served(4)[unfolded Inr] assms(2)] served(5)
      by (simp add: stop_closes) blast
  qed
qed

section \<open>Witness\<close>

definition launch_example :: "(fake, nat) launch" where
  "launch_example = \<lparr>la_config = [], la_socket = ''/run/s'', la_connection = ''/p'',
     la_getenv = (\<lambda>v. if v = ''HOME'' then ''/h'' else []), la_join = (\<lambda>a b. a @ ''/'' @ b),
     la_to_path = (\<lambda>p. if p = ''/p'' then home_path else [''c'']), la_decode_config = (\<lambda>_. None),
     la_decode_profile = (\<lambda>_. Some DefaultProfile), la_env = wc_env False, la_sec = da_sec wc_daemon, la_fs = wc_fs,
     la_uid = 1000, la_dev = 1, la_dir_ino = 5, la_ino = 12\<rparr>"

lemma launch_example_boot:
  "launch_config launch_example = Inr (Defaults\<lparr>cg_socket := ''/run/s''\<rparr>)" "launch_env launch_example = wc_env False"
proof -
  have "wc_fs [''c''] = None"
    by (simp add: wc_fs_def full_fs_def home_fs_def home_path_def)
  then show "launch_config launch_example = Inr (Defaults\<lparr>cg_socket := ''/run/s''\<rparr>)"
    by (simp add: launch_config_def launch_example_def Load_def config_path_def config_home_def)
  show "launch_env launch_example = wc_env False"
    by (simp add: launch_env_def launch_example_def connection_path_def wc_env_def)
qed

theorem daemon_start_is_safe_witness:
  "\<exists>ru w'. start_daemon (\<lambda>_. []) launch_example undisturbed os_example = (Inr ru, w') \<and>
     daemon_ok (ru_daemon ru) \<and> os_lstat (snd (stop_daemon Cancelled (undisturbed 0) ru w')) ''/run/s'' = SysAbsent"
proof -
  have fb: "fallback_profile (Defaults\<lparr>cg_socket := x\<rparr>) = fallback_profile Defaults" for x
    by (simp add: fallback_profile_def)
  obtain d where b: "boot (\<lambda>_. Some DefaultProfile) (wc_env False) (Defaults\<lparr>cg_socket := ''/run/s''\<rparr>) (da_sec wc_daemon) wc_fs = Inr d"
    using dw_start by (auto simp: host_start_def boot_def fb dw_host_def split: sum.splits option.splits)
  have p: "ResolveSocketPath 1000 5 [] ''/run/s'' os_example = (Inr ''/run/s'', os_example)"
    by (simp add: ResolveSocketPath_def is_abs_def has_prefix_def validatePrivateDir_def paths_example os_example_def run_dir_def
        group_world_access_def owner_rwx_def)
  obtain self w1 where s: "serve_start (\<lambda>_. []) 1000 1 12 undisturbed ''/run/s'' os_example = (Inr self, w1)" "\<not> os_locked w1 ''/run/s''"
    by (auto simp: serve_start_def recoverStaleSocket_def recover_probed_def os_example_def old_socket_def undisturbed_def probeLiveDaemon_def
        sameFile_def os_remove_def os_listen_def os_chmod_def set_entry_def Let_def)
  define ru where "ru = \<lparr>ru_config = Defaults\<lparr>cg_socket := ''/run/s''\<rparr>, ru_daemon = d, ru_path = ''/run/s'', ru_self = self\<rparr>"
  have run: "start_daemon (\<lambda>_. []) launch_example undisturbed os_example = (Inr ru, w1)"
    unfolding start_daemon_def launch_example_boot by (simp add: launch_example_def b p s[unfolded One_nat_def] ru_def)
  from daemon_start_is_safe[OF run] have "daemon_ok (ru_daemon ru)" "os_lstat (snd (stop_daemon Cancelled (undisturbed 0) ru w1)) (ru_path ru) = SysAbsent"
    using s(2) by (auto simp: launch_example_def ru_def)
  then show ?thesis using run by (auto simp: ru_def)
qed

end
