(* ===== verification/MutatorRun.thy ===== *)
theory MutatorRun
  imports MutatorProps
begin

text \<open>
  The loop of \<^verbatim>\<open>Mutator.Run\<close> (internal/mutate/mutator.go): it subscribes to the committed states, and each
  turn of its select is a change, the end of that subscription, a tick, or the end of the context. Any
  number of critical sections of the other goroutines may run between two turns (\<open>other_section\<close>).
  Shown is that the ticker alone is enough: whatever the subscription does, a mutation is out of the
  in-flight table, for good, at the first tick after its deadline.
\<close>

section \<open>The loop\<close>

text \<open>\<open>lo_events\<close> is whether the channel of changes is still there: a closed one is replaced by nil.\<close>

record 'b run_loop =
  lo_mut :: "'b mutator"
  lo_events :: bool
  lo_returned :: bool

definition enter_run :: "'b mutator \<Rightarrow> 'b run_loop" where
  "enter_run m = \<lparr>lo_mut = m, lo_events = True, lo_returned = False\<rparr>"

datatype turn = CtxDone | EventsClosed | Changed state nat | Ticked state nat

text \<open>One turn; a channel that is nil is never ready.\<close>

fun run_turn :: "turn \<Rightarrow> 'b run_loop \<Rightarrow> 'b run_loop" where
  "run_turn CtxDone z = z\<lparr>lo_returned := True\<rparr>"
| "run_turn EventsClosed z = (if lo_events z then z\<lparr>lo_events := False\<rparr> else z)"
| "run_turn (Changed st now) z =
     (if lo_events z then z\<lparr>lo_mut := reconcile st now (lo_mut z)\<rparr> else z)"
| "run_turn (Ticked st now) z = z\<lparr>lo_mut := reconcile st now (lo_mut z)\<rparr>"

text \<open>What the other goroutines do to the mutator: the critical sections of \<^verbatim>\<open>Submit\<close>, of a switch and of the
  subscriptions to results.\<close>

inductive other_section :: "'b mutator \<Rightarrow> 'b mutator \<Rightarrow> bool" where
  os_register: "register req h now m = (r, m') \<Longrightarrow> other_section m m'"
| os_failed: "other_section m (snd (backend_failed req h e m))"
| os_reject: "other_section m (snd (reject req k rcode m))"
| os_begin: "other_section m (snd (BeginSwitch m))"
| os_commit: "mt_draining m \<Longrightarrow> other_section m (CommitSwap b m)"
| os_abort: "other_section m (AbortSwitch m)"
| os_results: "other_section m (Results c m)"
| os_cancel: "other_section m (cancelResults c m)"

datatype loop_event = LTurn turn | LOther

inductive loop_step :: "'b run_loop \<Rightarrow> loop_event \<Rightarrow> 'b run_loop \<Rightarrow> bool" where
  lp_turn: "\<not> lo_returned z \<Longrightarrow> loop_step z (LTurn t) (run_turn t z)"
| lp_other: "other_section (lo_mut z) m \<Longrightarrow> loop_step z LOther (z\<lparr>lo_mut := m\<rparr>)"

inductive_cases loop_stepE: "loop_step z e z'"

definition loop_run :: "'b run_loop \<Rightarrow> 'b run_loop \<Rightarrow> bool" where
  "loop_run = (\<lambda>z z'. \<exists>e. loop_step z e z')\<^sup>*\<^sup>*"

section \<open>What is known of a mutation\<close>

text \<open>Mutation \<open>n\<close> has been issued, and what is still in flight under that number satisfies \<open>P\<close>.\<close>

definition held :: "(pending \<Rightarrow> bool) \<Rightarrow> nat \<Rightarrow> 'b mutator \<Rightarrow> bool" where
  "held P n m \<longleftrightarrow> mut_wf m \<and> n \<le> mt_next m \<and>
     (\<forall>k q. m_get (mt_inflight m) k = Some q \<longrightarrow> pe_mutation q = n \<longrightarrow> P q)"

lemma heldD: "held P n m \<Longrightarrow> mut_wf m" "held P n m \<Longrightarrow> m_get (mt_inflight m) k = Some q \<Longrightarrow> pe_mutation q = n \<Longrightarrow> P q"
  by (auto simp: held_def)

lemma held_fewer:
  assumes "held P n m" "mut_wf m'" "mt_next m' = mt_next m"
    and "\<And>k q. m_get (mt_inflight m') k = Some q \<Longrightarrow> m_get (mt_inflight m) k = Some q"
  shows "held P n m'"
  using assms unfolding held_def by (metis (no_types, lifting))

lemma register_fields:
  assumes "register req h now m = (r, m')"
  shows "m' = m \<or> mt_next m' = Suc (mt_next m) \<and> (\<forall>k q. m_get (mt_inflight m') k = Some q \<longrightarrow>
    m_get (mt_inflight m) k = Some q \<or> pe_mutation q = Suc (mt_next m))"
  using assms
  by (auto simp: register_def new_pending_def gomap_simps Let_def split: if_splits option.splits)

lemma reconcile_inflight:
  assumes "mut_wf m"
  shows "mut_wf (reconcile st now m)" "mt_next (reconcile st now m) = mt_next m"
    "m_get (mt_inflight (reconcile st now m)) k = Some q \<Longrightarrow>
      m_get (mt_inflight m) k = Some q \<and> settle st now (mt_epoch m) q = None"
proof -
  obtain fin m1 where r: "reconcile_locked st now m = (fin, m1)" by force
  have "mut_wf (fold publish_result rs m1)" for rs
    using mut_wf_reconcile[OF assms r] by (induction rs rule: rev_induct) (simp_all add: mut_wf_publish)
  moreover have "mt_inflight (fold publish_result fin m1) = mt_inflight m1" "mt_next (fold publish_result fin m1) = mt_next m1"
    using fold_publish_fields by blast+
  ultimately show "mut_wf (reconcile st now m)" "mt_next (reconcile st now m) = mt_next m"
    "m_get (mt_inflight (reconcile st now m)) k = Some q \<Longrightarrow>
      m_get (mt_inflight m) k = Some q \<and> settle st now (mt_epoch m) q = None"
    using m_get_settled[OF mut_wfD(1)[OF assms], of st now "mt_epoch m" k]
    by (auto simp: reconcile_def r reconcile_locked_spec(2)[OF assms r] split: option.splits if_splits)
qed

lemma held_reconcile: "held P n m \<Longrightarrow> held (\<lambda>q. P q \<and> settle st now (mt_epoch m) q = None) n (reconcile st now m)"
  unfolding held_def using reconcile_inflight by metis

lemma mut_wf_section: "other_section m m' \<Longrightarrow> mut_wf m \<Longrightarrow> mut_wf m'"
  by (induction rule: other_section.induct)
    (auto intro: mut_wf_register mut_wf_backend_failed mut_wf_reject mut_wf_begin mut_wf_commit mut_wf_abort
      mut_wf_subs mut_wf_cong simp: Results_def cancelResults_def mut_frame mut_wfD)

lemma held_section:
  assumes "other_section m m'" "held P n m"
  shows "held P n m'"
  using assms(1)
proof cases
  case (os_register req h now r)
  have "mut_wf m'" using mut_wf_section[OF assms(1)] assms(2) by (simp add: held_def)
  with register_fields[OF os_register] assms(2) show ?thesis
    unfolding held_def by (metis Suc_n_not_le_n le_SucI)
qed (rule held_fewer[OF assms(2)], use mut_wf_section[OF assms(1)] assms(2) in
    \<open>auto simp: held_def backend_failed_def reject_def BeginSwitch_def CommitSwap_def AbortSwitch_def Results_def
      cancelResults_def mut_frame gomap_simps split: if_splits\<close>)+

lemma run_turn_mut: "lo_mut (run_turn t z) = lo_mut z \<or> (\<exists>st now. lo_mut (run_turn t z) = reconcile st now (lo_mut z))"
  by (cases t) auto

lemma held_step: "loop_step z e z' \<Longrightarrow> held P n (lo_mut z) \<Longrightarrow> held P n (lo_mut z')"
proof (erule loop_stepE)
  fix t assume h: "held P n (lo_mut z)" and z': "z' = run_turn t z"
  show "held P n (lo_mut z')"
    using run_turn_mut[of t z] held_reconcile[OF h] h unfolding z' held_def by metis
qed (auto dest: held_section)

lemma held_run: "loop_run z z' \<Longrightarrow> held P n (lo_mut z) \<Longrightarrow> held P n (lo_mut z')"
  unfolding loop_run_def by (induction rule: rtranclp_induct) (auto dest: held_step)

section \<open>The ticker is enough\<close>

text \<open>
  C25. No mutation stays in flight past its deadline: whatever the loop and the other goroutines do before and
  afterwards, and whether or not the subscription to the state still exists, after the first tick past
  the deadline of a mutation nothing is in flight under its number any more, ever.
\<close>

theorem ticker_settles_every_mutation:
  assumes "mut_wf (lo_mut z)" "m_get (mt_inflight (lo_mut z)) ref = Some p"
    and "loop_run z z1" "loop_step z1 (LTurn (Ticked st now)) z2" "pe_deadline p < now" "loop_run z2 z3"
  shows "m_get (mt_inflight (lo_mut z3)) k = Some q \<Longrightarrow> pe_mutation q \<noteq> pe_mutation p"
proof -
  have "held (\<lambda>q. q = p) (pe_mutation p) (lo_mut z)"
    using assms(1,2) mut_wfD(6)[OF assms(1)] unfolding held_def mut_ids_ok_def by (metis option.inject)
  then have "held (\<lambda>q. q = p) (pe_mutation p) (lo_mut z1)" by (rule held_run[OF assms(3)])
  moreover have "lo_mut z2 = reconcile st now (lo_mut z1)" using assms(4) by (auto elim: loop_stepE)
  ultimately have "held (\<lambda>q. q = p \<and> settle st now (mt_epoch (lo_mut z1)) q = None) (pe_mutation p) (lo_mut z2)"
    by (simp add: held_reconcile)
  moreover have "settle st now (mt_epoch (lo_mut z1)) p \<noteq> None"
    using assms(5) by (simp add: settle_def split: option.split)
  ultimately have "held (\<lambda>_. False) (pe_mutation p) (lo_mut z2)" unfolding held_def by metis
  then have "held (\<lambda>_. False) (pe_mutation p) (lo_mut z3)" by (rule held_run[OF assms(6)])
  then show "m_get (mt_inflight (lo_mut z3)) k = Some q \<Longrightarrow> pe_mutation q \<noteq> pe_mutation p" by (auto dest: heldD(2))
qed

section \<open>Witness\<close>

text \<open>The source drops the loop, then the ticker settles the mutation.\<close>

definition waiting_mutator :: "unit mutator" where
  "waiting_mutator = snd (register \<lparr>rq_action = Pause, rq_hash = [], rq_url = [], rq_delete = False, rq_ref = ''r''\<rparr> [] 0
     (new_mutator () \<lparr>mo_submit = 0, mo_window = 0, mo_max = 0, mo_ring = 0\<rparr>))"

lemma waiting_mutator_ok:
  "mut_wf waiting_mutator" "\<exists>p. m_get (mt_inflight waiting_mutator) ''r'' = Some p \<and> pe_mutation p = 1 \<and> pe_deadline p = 10000000000"
proof -
  show "mut_wf waiting_mutator"
    unfolding waiting_mutator_def by (rule mut_wf_register[OF mut_wf_new]) (rule prod.collapse[symmetric])
  show "\<exists>p. m_get (mt_inflight waiting_mutator) ''r'' = Some p \<and> pe_mutation p = 1 \<and> pe_deadline p = 10000000000"
    by (simp add: waiting_mutator_def register_def new_mutator_def lookupRefLocked_def gomap_simps Let_def fill_mut_options_def
        new_pending_def)
qed

theorem ticker_settles_every_mutation_witness:
  "\<exists>z2. loop_run (enter_run waiting_mutator) z2 \<and> \<not> lo_events z2 \<and>
     (\<forall>k q. m_get (mt_inflight (lo_mut z2)) k = Some q \<longrightarrow> pe_mutation q \<noteq> 1)"
proof -
  let ?z = "enter_run waiting_mutator" and ?st = "s_cur (new_syncer ())"
  define z1 where "z1 = run_turn EventsClosed ?z"
  define z2 where "z2 = run_turn (Ticked ?st 10000000001) z1"
  obtain p where p: "m_get (mt_inflight (lo_mut ?z)) ''r'' = Some p" "pe_mutation p = 1" "pe_deadline p < 10000000001"
    using waiting_mutator_ok(2) by (auto simp: enter_run_def)
  have st: "loop_step ?z (LTurn EventsClosed) z1" "loop_step z1 (LTurn (Ticked ?st 10000000001)) z2"
    unfolding z1_def z2_def by (rule lp_turn, simp add: enter_run_def)+
  then have run: "loop_run ?z z1" "loop_run ?z z2" "loop_run z2 z2"
    unfolding loop_run_def by (auto intro: converse_rtranclp_into_rtranclp)
  have "mut_wf (lo_mut ?z)" using waiting_mutator_ok(1) by (simp add: enter_run_def)
  from ticker_settles_every_mutation[OF this p(1) run(1) st(2) p(3) run(3)] p(2)
  have "\<forall>k q. m_get (mt_inflight (lo_mut z2)) k = Some q \<longrightarrow> pe_mutation q \<noteq> 1" by auto
  moreover have "\<not> lo_events z2" by (simp add: z2_def z1_def enter_run_def)
  ultimately show ?thesis using run(2) by blast
qed

end
