(* ===== verification/Spec2Isabelle.thy ===== *)
theory Spec2Isabelle
  imports SyncProps Dashboard MutatorProps ProfileProps StoreProps ClientProps ConfigureProps ManagerProps
    ProtocolProps FrameProps RequestProps SocketProps Config DaemonProps
    RelayProps SyncRun TransactionProps SecretTool Probe Startup MutatorRun
begin

text \<open>
  A verification development of omatorrent-service, the Go daemon of Sprout. The daemon keeps a
  synchronized picture of one qBittorrent, runs mutations against it, and serves both to presentation
  layers over a Unix socket. All paths below are relative to \<^verbatim>\<open>src/omatorrent-service\<close>.

  \<^bold>\<open>How the parts work together.\<close> \<^verbatim>\<open>internal/state\<close> polls the backend and commits a state;
  \<^verbatim>\<open>internal/mutate\<close> validates a mutation against that state, calls the backend, and confirms it from a
  later state; \<^verbatim>\<open>internal/connection\<close> owns the profile, the secret and the switch of all of them to another
  backend; \<^verbatim>\<open>internal/qbittorrent\<close> is the HTTP client they share; \<^verbatim>\<open>internal/ipc\<close> is the protocol and the
  server; \<^verbatim>\<open>cmd/omatorrent-service\<close> wires them together and adapts them to the server.

  \<^bold>\<open>Theories and code.\<close> Every theory opens with a text that says what it holds.
  \<^item> Prelude: Go maps as association lists (the order of the list is the iteration order the runtime
    picks), 64-bit integers, and \<open>transition\<close>, the machine behind every interleaving model.
  \<^item> GoText, GoNet, Json, JsonLemmas: what the code uses of Go's strings and runes, of \<^verbatim>\<open>net/url\<close> and
    \<^verbatim>\<open>net/netip\<close>, and of \<^verbatim>\<open>encoding/json\<close> (the encoder, and the token interface of the decoder).
  \<^item> Syncer, SyncerLemmas, SyncMachine, SyncProps, SyncRun: \<^verbatim>\<open>internal/state/syncer.go\<close>. Syncer has the record
    of the state and one definition per function; \<open>cycle\<close> is a whole cycle, SyncMachine interleaves its
    critical sections with switches and subscribers, SyncRun is the loop of \<^verbatim>\<open>Run\<close> with its delays.
  \<^item> Dashboard: \<^verbatim>\<open>internal/state/dashboard.go\<close>, counts, saturating sums and the active list.
  \<^item> Mutator, MutatorLemmas, MutatorMachine, MutatorProps, MutatorRun: \<^verbatim>\<open>internal/mutate/mutator.go\<close>, in the same way;
    the machine runs any number of \<^verbatim>\<open>Submit\<close> calls, the reconciler and a switch; MutatorRun is the loop of \<^verbatim>\<open>Run\<close>.
  \<^item> Adapter, Client, ClientProps: \<^verbatim>\<open>internal/qbittorrent/client.go\<close> over an HTTP exchange.
  \<^item> Profile, ProfileProps and Store, StoreProps: \<^verbatim>\<open>internal/connection/profile.go\<close>, \<^verbatim>\<open>store.go\<close>, \<^verbatim>\<open>util.go\<close>;
    the file system is a map from paths, with a predicate for the system calls that fail.
  \<^item> Secrets, SecretTool: \<^verbatim>\<open>internal/secrets/secrets.go\<close>, the provider as a locale, with both providers of the
    code: the one in memory, and \<^verbatim>\<open>secret-tool\<close> with its command lines, environment and input.
  \<^item> Manager, ManagerProps and Configure, ConfigureProps: \<^verbatim>\<open>internal/connection/manager.go\<close>: status, tests, and
    the transaction that changes secret, file and backend together, with its rollbacks. Transaction,
    TransactionProps: the same function under concurrency, any number of calls that stop at every call of
    a component and every critical section, among everything else the daemon does.
  \<^item> Protocol, ProtocolLemmas, ParseLemmas, ProtocolProps, FrameProps, ConnectionWire:
    \<^verbatim>\<open>internal/ipc/protocol.go\<close> and \<^verbatim>\<open>connection.go\<close>: the request grammar and every encoder.
  \<^item> ConnIO, Server, ServerLemmas, ServerProps, RequestProps and SocketPath, PathWalk, SocketProps:
    \<^verbatim>\<open>internal/ipc/server.go\<close>: queues and writers, the request loop, the table of clients and the shutdown
    as a machine; the choice, recovery and removal of the socket file, and how the kernel walks its path.
  \<^item> Config: \<^verbatim>\<open>internal/config/config.go\<close>. Daemon, DaemonProps: \<^verbatim>\<open>cmd/omatorrent-service/main.go\<close>: start-up, the
    handler, and the running daemon as a step relation over the other models. Relay, Listening, RelayProps: the way
    of a result from the mutator through the handler's forwarder and the server's pump to the clients, and
    which clients listen meanwhile.
    Startup: \<^verbatim>\<open>run\<close>, from the configuration to the listening socket, the accept loop, and the
    removal of the socket.
  \<^item> Probe: \<^verbatim>\<open>cmd/ot-probe/main.go\<close>, a minimal client, end to end with the modelled server.

  \<^bold>\<open>State.\<close> A struct is a record with a field for each field that the code reads; a Go channel is its
  buffer and whether it is closed; a lock is not a field, its critical sections are single steps of a
  machine. Errors are values (\<open>Inl\<close>, None, or an \<open>err\<close> with Go's \<^verbatim>\<open>errors.Is\<close>). Strings are byte lists. The
  effects on the outside go through a world \<open>'w\<close> or through answers that are arguments.

  \<^bold>\<open>Interfaces.\<close> \<open>go_map\<close> (Prelude), \<open>secret_provider\<close> and \<open>steady_provider\<close> (Secrets), \<open>secret_service\<close>
  and \<open>steady_service\<close> (SecretTool, what is known of \<^verbatim>\<open>secret-tool\<close>, each of which gives one of the former),
  \<open>switch_drain\<close> and \<open>backend_holder\<close> (Configure) are the contracts between components, each interpreted on the model of the
  component that provides it; \<open>transition\<close> is interpreted on the seven machines (syncer, mutator, server,
  running daemon, concurrent configuration, and the relay twice).

  \<^bold>\<open>What is shown.\<close> Synchronization: a subscriber sees exactly the committed torrents under every
  interleaving, a switch shows nothing of the old backend whatever straddles it and nothing of the new one before
  its first commit, a commit holds exactly the payload merged, map order does not matter, a backend that
  rejects logins is asked three times in all, ever more slowly. Mutations: at most one terminal result,
  always on the current backend, repeated requests execute once, confirmation only by a committed state, and nothing stays in flight past
  the first tick after its deadline.
  Connection: concurrent calls of \<open>Configure\<close> are serializable, and no mutation is registered in the middle
  of one; \<open>Configure\<close> refines an atomic register of the active backend and a rejected one leaves the
  running daemon as it was, and secret and file too as far as its best-effort rollback succeeds; saves are atomic; valid profiles obey the HTTP policy; the secret reaches no command line. Protocol: exactly the requests of the documented
  grammar are understood, what is accepted is valid, deltas are lossless and fit the frame, snapshots and dashboards always fit. Server:
  bounds and order of all queues, handshake first, one answer per request, complete snapshots, delivery.
  Daemon: a start touches nothing but a dead socket of the user and ends with a private one; all components use the client that the status shows, clients see a switch as one step, and
  every mutation is answered to the clients that listen. Error properties state where the code does not do what its comments
  or documents say: a submission that straddles a switch, a socket leaked by a failed write, last known
  values invented by a switch, a stored password that a test through the socket never uses, a new
  password that a superseded client sends to the old backend, a socket path with \<^verbatim>\<open>..\<close> that leaves the directory
  that was checked, a failed start that leaves its socket, and a filter of the environment that filters
  nothing when nothing is left.

  \<^bold>\<open>Bounds and fuel.\<close> No theorem is conditional on termination: recursion is structural or has a measure
  (the halving of a name, the chunked reader). A blocked snapshot sends with \<open>n\<close> sleeps left, for every
  \<open>n\<close>, which is the deadline of the code. The relay needs 32 rounds of one turn of the forwarder
  and one of the pump, with any other steps in between, because each of its two
  channels holds at most 16 results; it also needs the pump to stay registered, which it is not in the second
  after the mutator has ended a full subscription. A path walk of the kernel follows at most 40 links, as
  Linux does. Generations, epochs and sequence numbers are natural numbers where the code has \<^verbatim>\<open>uint64\<close>: each
  counts cycles, switches or commits, so no run reaches \<open>2 ^ 64\<close>. \<^verbatim>\<open>float64\<close> values are reals:
  all of them come from JSON, and their decimal form is an argument that is at most 25 bytes long.

  \<^bold>\<open>Granularity.\<close> The machines of syncer, mutator, server and relay step by critical section. The running
  daemon of Daemon steps by whole requests, cycles and reconciliations, so what it shows holds between
  them; the server's step for a request contains its whole answer, with what other goroutines do to that
  connection meanwhile as an argument. That a cycle or a submission may straddle a switch is the subject of the finer machines. That
  \<^verbatim>\<open>Configure\<close> may count as one step is what \<open>configures_are_serializable\<close> shows, for every other step of the
  daemon and every critical section of a cycle (\<open>others_host_step\<close>, \<open>others_sync_step\<close>).

  \<^bold>\<open>Not modelled.\<close> Logging, flags and signals; deadlines other than as failing reads and writes (only the idle
  deadline of a connection is a number, where the probe pauses); the exact moments of timers; memory wiping beyond the buffer that a
  test shares with its closure; what is printed on standard error, and the exit of the processes. The TLS handshake, SHA-256,
  PEM parsing, \<^verbatim>\<open>json.Unmarshal\<close> of backend objects and profiles, and the file and socket system calls are
  parameters. The QML and JavaScript front ends and the scripts of the repository are not part of the daemon.
\<close>

end
